(* ===== verification/Spur_Prelude.thy ===== *)
theory Spur_Prelude
  imports Main "HOL-Library.Word" "HOL-Library.AList" "HOL-Library.Multiset"
begin

text \<open>
  What the components share: the integer types of the source at their widths and
  the saturating operations the source uses on them, instants and durations, the
  association-list model of \<^verbatim>\<open>HashMap\<close>, the fragments of
  Rust's string library the sources call, and three interfaces (locales) that the
  components instantiate: a keyed store, a ledger of quantities, and a replicated
  state machine.
\<close>

section \<open>Lists and options\<close>

lemma find_Some_mem: "find P xs = Some x \<Longrightarrow> x \<in> set xs \<and> P x"
  by (induction xs) (auto split: if_splits)

lemma unat_bound: "unat (w :: 'a::len word) < 2 ^ LENGTH('a)"
  by (rule unsigned_less)

lemma set_map_filter: "set (List.map_filter f xs) = {y. \<exists>x \<in> set xs. f x = Some y}"
  by (induction xs) (auto simp: map_filter_simps split: option.splits)

section \<open>Collections of proof rules\<close>

named_theorems sat_simps \<open>saturating arithmetic, read through \<open>unat\<close>\<close>
named_theorems hm_simps \<open>lookups and iteration after an update of a hash map\<close>
named_theorems view_simps \<open>what each resource operation does to the quantity view\<close>

section \<open>Integers and time\<close>

type_synonym u8 = "8 word"
type_synonym u16 = "16 word"
type_synonym u32 = "32 word"
type_synonym u64 = "64 word"

text \<open>
  Signed 32-bit and 64-bit values of the source are only compared, maximised and
  masked, so they are read as their integer value; masks on \<^typ>\<open>int\<close> are two's
  complement, as they are on \<^verbatim>\<open>i32\<close>.
\<close>

type_synonym i32 = int
type_synonym i64 = int

text \<open>
  \<^verbatim>\<open>chrono\<close> instants and durations are counts of nanoseconds.
\<close>

type_synonym instant = int
type_synonym duration = int

definition nanos_per_sec :: int where
  "nanos_per_sec = 1000000000"

definition duration_seconds :: "int \<Rightarrow> duration" where
  "duration_seconds s = s * nanos_per_sec"

definition duration_days :: "int \<Rightarrow> duration" where
  "duration_days d = duration_seconds (d * 86400)"

text \<open>\<^verbatim>\<open>Duration::num_seconds\<close> truncates towards zero.\<close>

definition num_seconds :: "duration \<Rightarrow> int" where
  "num_seconds d = (if d < 0 then - ((- d) div nanos_per_sec) else d div nanos_per_sec)"

lemma num_seconds_nonneg: "0 \<le> d \<Longrightarrow> 0 \<le> num_seconds d"
  by (simp add: num_seconds_def nanos_per_sec_def)

lemma num_seconds_of_seconds [simp]: "num_seconds (duration_seconds s) = s"
proof (cases "s < 0")
  case True
  then have "- (s * 1000000000) = (- s) * 1000000000" by simp
  then have "- (s * 1000000000) div 1000000000 = - s"
    by (metis nonzero_mult_div_cancel_right zero_neq_numeral)
  with True show ?thesis by (simp add: num_seconds_def duration_seconds_def nanos_per_sec_def)
next
  case False
  then show ?thesis by (simp add: num_seconds_def duration_seconds_def nanos_per_sec_def)
qed

section \<open>Saturating arithmetic\<close>

definition sat_add :: "'a::len word \<Rightarrow> 'a word \<Rightarrow> 'a word" where
  "sat_add a b = (if unat a + unat b < 2 ^ LENGTH('a) then a + b else - 1)"

definition sat_sub :: "'a::len word \<Rightarrow> 'a word \<Rightarrow> 'a word" where
  "sat_sub a b = (if a < b then 0 else a - b)"

lemma unat_minus_one_word_eq: "unat (- 1 :: 'a::len word) = 2 ^ LENGTH('a) - 1"
  by (simp add: unsigned_minus_1_eq_mask mask_eq_exp_minus_1)

lemma unat_le_max: "unat (w :: 'a::len word) \<le> 2 ^ LENGTH('a) - 1"
proof -
  have "unat w < 2 ^ LENGTH('a)" by (rule unsigned_less)
  then show ?thesis by arith
qed

lemma unat_sat_add [sat_simps]:
  "unat (sat_add a b) = min (unat a + unat b) (2 ^ LENGTH('a) - 1)" for a b :: "'a::len word"
proof (cases "unat a + unat b < 2 ^ LENGTH('a)")
  case True
  then show ?thesis by (simp add: sat_add_def unat_word_ariths)
next
  case False
  then have "2 ^ LENGTH('a) - 1 \<le> unat a + unat b" by simp
  with False show ?thesis by (simp add: sat_add_def unat_minus_one_word_eq min_absorb2)
qed

lemma unat_sat_sub [sat_simps]: "unat (sat_sub a b) = unat a - unat b"
  by (simp add: sat_sub_def unat_sub word_le_nat_alt word_less_nat_alt)

lemma sat_sub_zero [simp]: "sat_sub a 0 = a" "sat_sub a a = 0"
  by (simp_all add: sat_sub_def)

lemma sat_add_zero [simp]: "sat_add a 0 = a" "sat_add 0 a = a"
  by (simp_all add: sat_add_def unsigned_less)

lemma sat_add_commute: "sat_add a b = sat_add b a"
  by (simp add: sat_add_def add.commute)

section \<open>Hash maps\<close>

text \<open>
  A \<^verbatim>\<open>HashMap\<close> is an association list with distinct keys
  (\<open>hm_wf\<close>); the order of the list is the map's iteration order, which Rust leaves
  unspecified, so a statement about every list is a statement about every order.
\<close>

type_synonym ('k, 'v) hashmap = "('k \<times> 'v) list"

definition hm_wf :: "('k, 'v) hashmap \<Rightarrow> bool" where
  "hm_wf m = distinct (map fst m)"

abbreviation hm_get :: "('k, 'v) hashmap \<Rightarrow> 'k \<Rightarrow> 'v option" where
  "hm_get \<equiv> map_of"

abbreviation hm_insert :: "'k \<Rightarrow> 'v \<Rightarrow> ('k, 'v) hashmap \<Rightarrow> ('k, 'v) hashmap" where
  "hm_insert \<equiv> AList.update"

abbreviation hm_remove :: "'k \<Rightarrow> ('k, 'v) hashmap \<Rightarrow> ('k, 'v) hashmap" where
  "hm_remove \<equiv> AList.delete"

abbreviation hm_keys :: "('k, 'v) hashmap \<Rightarrow> 'k list" where
  "hm_keys m \<equiv> map fst m"

abbreviation hm_values :: "('k, 'v) hashmap \<Rightarrow> 'v list" where
  "hm_values m \<equiv> map snd m"

abbreviation hm_contains :: "('k, 'v) hashmap \<Rightarrow> 'k \<Rightarrow> bool" where
  "hm_contains m k \<equiv> map_of m k \<noteq> None"

definition hm_retain :: "('k \<Rightarrow> 'v \<Rightarrow> bool) \<Rightarrow> ('k, 'v) hashmap \<Rightarrow> ('k, 'v) hashmap" where
  "hm_retain p m = filter (\<lambda>(k, v). p k v) m"

text \<open>\<^verbatim>\<open>get_mut\<close> followed by a change of the entry; nothing when the key is absent.\<close>

definition hm_modify :: "'k \<Rightarrow> ('v \<Rightarrow> 'v) \<Rightarrow> ('k, 'v) hashmap \<Rightarrow> ('k, 'v) hashmap" where
  "hm_modify k f m = (case hm_get m k of None \<Rightarrow> m | Some v \<Rightarrow> hm_insert k (f v) m)"

text \<open>\<^verbatim>\<open>entry(k).or_default()\<close> followed by a change of the entry.\<close>

definition hm_entry :: "'v \<Rightarrow> 'k \<Rightarrow> ('v \<Rightarrow> 'v) \<Rightarrow> ('k, 'v) hashmap \<Rightarrow> ('k, 'v) hashmap" where
  "hm_entry d k f m = hm_insert k (f (case hm_get m k of None \<Rightarrow> d | Some v \<Rightarrow> v)) m"

lemma hm_wf_empty [simp]: "hm_wf []"
  by (simp add: hm_wf_def)

lemma hm_wf_insert [simp]: "hm_wf m \<Longrightarrow> hm_wf (hm_insert k v m)"
  by (simp add: hm_wf_def distinct_update)

lemma hm_wf_remove [simp]: "hm_wf m \<Longrightarrow> hm_wf (hm_remove k m)"
  by (simp add: hm_wf_def distinct_delete)

lemma hm_wf_modify [simp]: "hm_wf m \<Longrightarrow> hm_wf (hm_modify k f m)"
  by (simp add: hm_modify_def split: option.split)

lemma hm_wf_entry [simp]: "hm_wf m \<Longrightarrow> hm_wf (hm_entry d k f m)"
  by (simp add: hm_entry_def)

lemma hm_wf_retain [simp]: "hm_wf m \<Longrightarrow> hm_wf (hm_retain p m)"
  by (simp add: hm_wf_def hm_retain_def distinct_map_filter)

lemma hm_get_insert [hm_simps]: "hm_get (hm_insert k v m) k' = (if k' = k then Some v else hm_get m k')"
  by (simp add: update_conv')

lemma hm_get_remove [hm_simps]: "hm_get (hm_remove k m) k' = (if k' = k then None else hm_get m k')"
  by (simp add: delete_conv')

lemma hm_get_modify [hm_simps]:
  "hm_get (hm_modify k f m) k' = (if k' = k then map_option f (hm_get m k) else hm_get m k')"
  by (simp add: hm_modify_def update_conv' split: option.split)

lemma hm_get_entry [hm_simps]:
  "hm_get (hm_entry d k f m) k' =
     (if k' = k then Some (f (case hm_get m k of None \<Rightarrow> d | Some v \<Rightarrow> v)) else hm_get m k')"
  by (simp add: hm_entry_def update_conv')

lemma hm_get_retain [hm_simps]:
  assumes "hm_wf m"
  shows "hm_get (hm_retain p m) k = (case hm_get m k of None \<Rightarrow> None | Some v \<Rightarrow> if p k v then Some v else None)"
  using assms
proof (induction m)
  case Nil
  then show ?case by (simp add: hm_retain_def)
next
  case (Cons kv m)
  obtain k0 v0 where kv: "kv = (k0, v0)" by (cases kv)
  have "k0 \<notin> set (map fst m)" and "hm_wf m" using Cons.prems kv by (simp_all add: hm_wf_def)
  moreover from this have "map_of (filter (\<lambda>(k, v). p k v) m) k0 = None"
    by (auto simp: map_of_eq_None_iff)
  ultimately show ?case using Cons.IH kv
    by (auto simp: hm_retain_def split: option.splits)
qed

lemma hm_get_mem: "hm_get m k = Some v \<Longrightarrow> (k, v) \<in> set m"
  by (rule map_of_SomeD)

lemma hm_mem_get: "hm_wf m \<Longrightarrow> (k, v) \<in> set m \<Longrightarrow> hm_get m k = Some v"
  by (simp add: hm_wf_def)

text \<open>
  A loop over the entries of one map that touches, for each entry, only the same key
  of another map.
\<close>

lemma hm_get_fold_keywise:
  assumes step: "\<And>m k v k'. hm_get (step m (k, v)) k' = (if k' = k then h v (hm_get m k) else hm_get m k')"
    and "hm_wf bs"
  shows "hm_get (foldl step m bs) k' =
     (case hm_get bs k' of None \<Rightarrow> hm_get m k' | Some v \<Rightarrow> h v (hm_get m k'))"
  using assms(2)
proof (induction bs arbitrary: m)
  case Nil
  then show ?case by simp
next
  case (Cons b bs)
  obtain k v where b: "b = (k, v)" by (cases b)
  have wf: "hm_wf bs" and fresh: "hm_get bs k = None"
    using Cons.prems b by (auto simp: hm_wf_def map_of_eq_None_iff)
  show ?case using Cons.IH [OF wf] fresh b step by (auto split: option.splits)
qed

text \<open>
  Sums over a map's entries: an insert replaces one summand, so aggregates the
  controller derives by iterating over its maps change by one entry at a time.
\<close>

definition hm_sum :: "('k \<Rightarrow> 'v \<Rightarrow> nat) \<Rightarrow> ('k, 'v) hashmap \<Rightarrow> nat" where
  "hm_sum f m = sum_list (map (\<lambda>(k, v). f k v) m)"

lemma hm_sum_Nil [simp]: "hm_sum f [] = 0"
  by (simp add: hm_sum_def)

lemma hm_sum_Cons [simp]: "hm_sum f ((k, v) # m) = f k v + hm_sum f m"
  by (simp add: hm_sum_def)

lemma hm_sum_insert_new:
  "hm_get m k = None \<Longrightarrow> hm_sum f (hm_insert k v m) = hm_sum f m + f k v"
  by (induction m) (auto split: if_splits)

lemma hm_sum_insert_old:
  "hm_wf m \<Longrightarrow> hm_get m k = Some v0 \<Longrightarrow> hm_sum f (hm_insert k v m) + f k v0 = hm_sum f m + f k v"
  by (induction m) (auto simp: hm_wf_def split: if_splits)

lemma hm_sum_ge_entry: "hm_get m k = Some v \<Longrightarrow> f k v \<le> hm_sum f m"
  by (induction m) (auto split: if_splits)

lemma hm_sum_insert_same:
  assumes "hm_get m k = Some v0" and "f k v = f k v0"
  shows "hm_sum f (hm_insert k v m) = hm_sum f m"
  using assms by (induction m) (auto split: if_splits)

lemma hm_sum_cong: "(\<And>k v. (k, v) \<in> set m \<Longrightarrow> f k v = g k v) \<Longrightarrow> hm_sum f m = hm_sum g m"
  by (induction m) (auto simp: hm_sum_def)

lemma hm_sum_map_values:
  "hm_sum f (map (\<lambda>(k, v). (k, g k v)) m) = hm_sum (\<lambda>k v. f k (g k v)) m"
  by (induction m) (auto simp: hm_sum_def)

lemma hm_sum_retain:
  "(\<And>k v. (k, v) \<in> set m \<Longrightarrow> \<not> p k v \<Longrightarrow> f k v = 0) \<Longrightarrow> hm_sum f (hm_retain p m) = hm_sum f m"
  by (induction m) (auto simp: hm_sum_def hm_retain_def)

section \<open>Interfaces\<close>

text \<open>
  A keyed store: what the controller relies on when it keeps its jobs, nodes and
  steps in hash maps.
\<close>

locale keyed_store =
  fixes get :: "'m \<Rightarrow> 'k \<Rightarrow> 'v option"
    and put :: "'k \<Rightarrow> 'v \<Rightarrow> 'm \<Rightarrow> 'm"
    and del :: "'k \<Rightarrow> 'm \<Rightarrow> 'm"
    and total :: "('k \<Rightarrow> 'v \<Rightarrow> nat) \<Rightarrow> 'm \<Rightarrow> nat"
    and wf :: "'m \<Rightarrow> bool"
  assumes get_put: "get (put k v m) k' = (if k' = k then Some v else get m k')"
    and get_del: "get (del k m) k' = (if k' = k then None else get m k')"
    and wf_put: "wf m \<Longrightarrow> wf (put k v m)"
    and wf_del: "wf m \<Longrightarrow> wf (del k m)"
    and total_put_new: "get m k = None \<Longrightarrow> total f (put k v m) = total f m + f k v"
    and total_put_old: "wf m \<Longrightarrow> get m k = Some v0 \<Longrightarrow> total f (put k v m) + f k v0 = total f m + f k v"
    and total_ge: "get m k = Some v \<Longrightarrow> f k v \<le> total f m"
begin

lemma total_put_same:
  assumes "wf m" and "get m k = Some v0" and "f k v = f k v0"
  shows "total f (put k v m) = total f m"
  using total_put_old [OF assms(1,2), of f v] assms(3) by simp

lemma total_put_drop:
  assumes "wf m" and "get m k = Some v0"
  shows "total f (put k v m) = total f m - f k v0 + f k v"
  using total_put_old [OF assms, of f v] total_ge [OF assms(2), of f] by simp

lemma put_absent_other: "get m k = None \<Longrightarrow> k' \<noteq> k \<Longrightarrow> get (put k' v m) k = None"
  by (simp add: get_put)

end

interpretation hm: keyed_store hm_get hm_insert hm_remove hm_sum hm_wf
  by unfold_locales
    (auto simp: hm_simps hm_sum_insert_new hm_sum_ge_entry dest: hm_sum_insert_old)

text \<open>
  A ledger: something that holds quantities of several kinds, is charged and
  released in saturating steps, and is read through a view into natural numbers.
  A client that never exceeds the capacity of a kind may reason about charges and
  releases as exact additions and subtractions.
\<close>

locale ledger =
  fixes view :: "'a \<Rightarrow> 'q \<Rightarrow> nat"
    and cap :: "'q \<Rightarrow> nat"
    and charge :: "'a \<Rightarrow> 'a \<Rightarrow> 'a"
    and release :: "'a \<Rightarrow> 'a \<Rightarrow> 'a"
    and zero :: 'a
    and inv :: "'a \<Rightarrow> bool"
    and ok :: "'a \<Rightarrow> bool"
  assumes view_zero: "view zero q = 0"
    and inv_zero: "inv zero"
    and inv_charge: "inv a \<Longrightarrow> ok b \<Longrightarrow> inv (charge a b)"
    and inv_release: "inv a \<Longrightarrow> ok b \<Longrightarrow> inv (release a b)"
    and view_charge: "inv a \<Longrightarrow> ok b \<Longrightarrow> view (charge a b) q = min (cap q) (view a q + view b q)"
    and view_release: "inv a \<Longrightarrow> ok b \<Longrightarrow> view (release a b) q = view a q - view b q"
begin

lemma charge_exact:
  "inv a \<Longrightarrow> ok b \<Longrightarrow> view a q + view b q \<le> cap q \<Longrightarrow> view (charge a b) q = view a q + view b q"
  by (simp add: view_charge)

lemma release_charge:
  assumes "inv a" and "ok b" and "view a q + view b q \<le> cap q"
  shows "view (release (charge a b) b) q = view a q"
  using assms by (simp add: view_release view_charge inv_charge)

lemma charge_release:
  assumes "inv a" and "ok b" and "view b q \<le> view a q" and "view a q \<le> cap q"
  shows "view (charge (release a b) b) q = view a q"
  using assms by (simp add: view_release view_charge inv_release)

lemma inv_charges: "inv a \<Longrightarrow> list_all ok bs \<Longrightarrow> inv (foldl charge a bs)"
  by (induction bs arbitrary: a) (auto intro: inv_charge)

lemma inv_releases: "inv a \<Longrightarrow> list_all ok bs \<Longrightarrow> inv (foldl release a bs)"
  by (induction bs arbitrary: a) (auto intro: inv_release)

lemma view_charges:
  "inv a \<Longrightarrow> list_all ok bs \<Longrightarrow> view a q + sum_list (map (\<lambda>b. view b q) bs) \<le> cap q \<Longrightarrow>
     view (foldl charge a bs) q = view a q + sum_list (map (\<lambda>b. view b q) bs)"
  by (induction bs arbitrary: a) (auto simp: inv_charge view_charge)

lemma view_charges_le:
  "inv a \<Longrightarrow> list_all ok bs \<Longrightarrow> view (foldl charge a bs) q \<le> view a q + sum_list (map (\<lambda>b. view b q) bs)"
proof (induction bs arbitrary: a)
  case Nil
  then show ?case by simp
next
  case (Cons b bs)
  then have "view (foldl charge (charge a b) bs) q \<le> view (charge a b) q + sum_list (map (\<lambda>b. view b q) bs)"
    by (simp add: inv_charge)
  then show ?case using Cons.prems by (simp add: view_charge)
qed

lemma view_releases:
  "inv a \<Longrightarrow> list_all ok bs \<Longrightarrow>
     view (foldl release a bs) q = view a q - sum_list (map (\<lambda>b. view b q) bs)"
  by (induction bs arbitrary: a) (auto simp: inv_release view_release)

lemma releases_perm:
  assumes "inv a" and "list_all ok bs" and "mset bs = mset bs'"
  shows "view (foldl release a bs) q = view (foldl release a bs') q"
proof -
  have "list_all ok bs'"
    using assms(2,3) by (metis list_all_iff set_mset_mset)
  moreover have "sum_list (map (\<lambda>b. view b q) bs) = sum_list (map (\<lambda>b. view b q) bs')"
    using assms(3) by (metis mset_map sum_mset_sum_list)
  ultimately show ?thesis using assms(1,2) by (simp add: view_releases)
qed

end

text \<open>
  A replicated state machine: entries of a log are applied one after the other, and
  an entry that was admissible when it was proposed keeps the invariant.
\<close>

fun admissible_run :: "('s \<Rightarrow> 'e \<Rightarrow> 's) \<Rightarrow> ('s \<Rightarrow> 'e \<Rightarrow> bool) \<Rightarrow> 's \<Rightarrow> 'e list \<Rightarrow> bool" where
  "admissible_run ap adm s [] = True"
| "admissible_run ap adm s (e # es) = (adm s e \<and> admissible_run ap adm (ap s e) es)"

locale replicated_machine =
  fixes ap :: "'s \<Rightarrow> 'e \<Rightarrow> 's"
    and adm :: "'s \<Rightarrow> 'e \<Rightarrow> bool"
    and inv :: "'s \<Rightarrow> bool"
  assumes inv_step: "inv s \<Longrightarrow> adm s e \<Longrightarrow> inv (ap s e)"
begin

lemma inv_run: "inv s \<Longrightarrow> admissible_run ap adm s es \<Longrightarrow> inv (foldl ap s es)"
  by (induction es arbitrary: s) (auto intro: inv_step)

lemma inv_prefix:
  "inv s \<Longrightarrow> admissible_run ap adm s (es @ fs) \<Longrightarrow> inv (foldl ap s es)"
  by (induction es arbitrary: s) (auto intro: inv_step)

end

end
