(* ===== verification/Rust_Strings.thy ===== *)
theory Rust_Strings
  imports Spur_Prelude
begin

text \<open>
  The parts of Rust's \<^verbatim>\<open>str\<close> and \<^verbatim>\<open>format!\<close> that
  the sources call. A string is its UTF-8 bytes; case mapping and trimming act on the
  ASCII range, which is what the modelled grammars (state names, partition lists,
  GRES counts, output patterns) are written in.
\<close>

section \<open>Splitting and joining\<close>

fun str_split :: "char \<Rightarrow> string \<Rightarrow> string list" where
  "str_split c [] = [[]]"
| "str_split c (x # xs) =
     (if x = c then [] # str_split c xs
      else (case str_split c xs of [] \<Rightarrow> [[x]] | w # ws \<Rightarrow> (x # w) # ws))"

fun str_join :: "string \<Rightarrow> string list \<Rightarrow> string" where
  "str_join sep [] = []"
| "str_join sep [w] = w"
| "str_join sep (w # v # ws) = w @ sep @ str_join sep (v # ws)"

lemma str_split_nonempty [simp]: "str_split c s \<noteq> []"
  by (induction s) (auto split: list.splits)

lemma str_join_split: "str_join [c] (str_split c s) = s"
proof (induction s)
  case Nil
  then show ?case by simp
next
  case (Cons x s)
  obtain w ws where sp: "str_split c s = w # ws"
    by (meson neq_Nil_conv str_split_nonempty)
  show ?case using Cons.IH sp by (cases ws) auto
qed

lemma str_split_no_sep: "w \<in> set (str_split c s) \<Longrightarrow> c \<notin> set w"
proof (induction s arbitrary: w)
  case Nil
  then show ?case by simp
next
  case (Cons x s)
  obtain v ws where sp: "str_split c s = v # ws"
    by (meson neq_Nil_conv str_split_nonempty)
  show ?case using Cons.IH Cons.prems sp by (auto split: if_splits)
qed

lemma str_split_word: "c \<notin> set w \<Longrightarrow> str_split c w = [w]"
  by (induction w) auto

lemma str_split_append: "c \<notin> set w \<Longrightarrow> str_split c (w @ c # s) = w # str_split c s"
  by (induction w) auto

lemma str_split_join:
  "ws \<noteq> [] \<Longrightarrow> (\<forall>w \<in> set ws. c \<notin> set w) \<Longrightarrow> str_split c (str_join [c] ws) = ws"
  by (induction "[c]" ws rule: str_join.induct) (auto simp: str_split_word str_split_append)

section \<open>Trimming and case\<close>

definition is_ascii_ws :: "char \<Rightarrow> bool" where
  "is_ascii_ws c = (let n = of_char c :: nat in n = 32 \<or> (9 \<le> n \<and> n \<le> 13))"

definition str_trim :: "string \<Rightarrow> string" where
  "str_trim s = rev (dropWhile is_ascii_ws (rev (dropWhile is_ascii_ws s)))"

definition trim_end_matches :: "char \<Rightarrow> string \<Rightarrow> string" where
  "trim_end_matches c s = rev (dropWhile (\<lambda>x. x = c) (rev s))"

definition trim_start_matches :: "char \<Rightarrow> string \<Rightarrow> string" where
  "trim_start_matches c s = dropWhile (\<lambda>x. x = c) s"

definition ascii_lower :: "char \<Rightarrow> char" where
  "ascii_lower c = (let n = of_char c :: nat in if 65 \<le> n \<and> n \<le> 90 then char_of (n + 32) else c)"

definition ascii_upper :: "char \<Rightarrow> char" where
  "ascii_upper c = (let n = of_char c :: nat in if 97 \<le> n \<and> n \<le> 122 then char_of (n - 32) else c)"

definition to_lowercase :: "string \<Rightarrow> string" where
  "to_lowercase s = map ascii_lower s"

definition to_uppercase :: "string \<Rightarrow> string" where
  "to_uppercase s = map ascii_upper s"

section \<open>Decimal numbers\<close>

definition digit_char :: "nat \<Rightarrow> char" where
  "digit_char d = char_of (48 + d)"

definition char_digit :: "char \<Rightarrow> nat option" where
  "char_digit c = (let n = of_char c :: nat in if 48 \<le> n \<and> n \<le> 57 then Some (n - 48) else None)"

fun show_nat :: "nat \<Rightarrow> string" where
  "show_nat n = (if n < 10 then [digit_char n] else show_nat (n div 10) @ [digit_char (n mod 10)])"

declare show_nat.simps [simp del]

definition show_word :: "'a::len word \<Rightarrow> string" where
  "show_word w = show_nat (unat w)"

definition show_int :: "int \<Rightarrow> string" where
  "show_int i = (if i < 0 then CHR ''-'' # show_nat (nat (- i)) else show_nat (nat i))"

fun digits_value :: "nat \<Rightarrow> string \<Rightarrow> nat option" where
  "digits_value acc [] = Some acc"
| "digits_value acc (c # cs) =
     (case char_digit c of None \<Rightarrow> None | Some d \<Rightarrow> digits_value (10 * acc + d) cs)"

text \<open>
  \<^verbatim>\<open>str::parse\<close> for an unsigned type of \<open>w\<close> bits: an optional \<open>+\<close>, at
  least one digit, and a value that fits.
\<close>

definition parse_uint :: "nat \<Rightarrow> string \<Rightarrow> nat option" where
  "parse_uint w s =
     (let ds = (case s of [] \<Rightarrow> [] | c # cs \<Rightarrow> if c = CHR ''+'' then cs else s)
      in if ds = [] then None
         else case digits_value 0 ds of None \<Rightarrow> None | Some n \<Rightarrow> if n < 2 ^ w then Some n else None)"

definition parse_u32 :: "string \<Rightarrow> u32 option" where
  "parse_u32 s = map_option of_nat (parse_uint 32 s)"

lemma char_digit_digit_char [simp]: "d < 10 \<Longrightarrow> char_digit (digit_char d) = Some d"
  by (simp add: char_digit_def digit_char_def Let_def)

lemma digits_value_append:
  "digits_value acc (s @ t) = (case digits_value acc s of None \<Rightarrow> None | Some a \<Rightarrow> digits_value a t)"
  by (induction s arbitrary: acc) (auto split: option.splits)

lemma digits_value_show_nat: "digits_value 0 (show_nat n) = Some n"
proof (induction n rule: show_nat.induct)
  case (1 n)
  show ?case
  proof (cases "n < 10")
    case True
    then show ?thesis by (subst show_nat.simps) simp
  next
    case False
    then show ?thesis
      by (subst show_nat.simps) (simp add: digits_value_append 1)
  qed
qed

lemma digit_char_not_plus: "d < 10 \<Longrightarrow> digit_char d \<noteq> CHR ''+''"
proof
  assume "d < 10" and eq: "digit_char d = CHR ''+''"
  then have "char_digit (CHR ''+'') = Some d" by (metis char_digit_digit_char)
  then show False by (simp add: char_digit_def split: if_splits)
qed

lemma show_nat_hd: "\<exists>d ds. d < 10 \<and> show_nat n = digit_char d # ds"
proof (induction n rule: show_nat.induct)
  case (1 n)
  show ?case
  proof (cases "n < 10")
    case True
    then show ?thesis by (subst show_nat.simps) auto
  next
    case False
    with 1 obtain d ds where "d < 10" "show_nat (n div 10) = digit_char d # ds" by blast
    with False show ?thesis by (subst show_nat.simps) auto
  qed
qed

lemma parse_uint_show_nat: "n < 2 ^ w \<Longrightarrow> parse_uint w (show_nat n) = Some n"
proof -
  assume n: "n < 2 ^ w"
  obtain d ds where s: "show_nat n = digit_char d # ds" and d: "d < 10"
    using show_nat_hd by blast
  have "parse_uint w (show_nat n) =
      (case digits_value 0 (show_nat n) of None \<Rightarrow> None | Some m \<Rightarrow> if m < 2 ^ w then Some m else None)"
    using s digit_char_not_plus [OF d] by (simp add: parse_uint_def Let_def)
  then show ?thesis using n by (simp add: digits_value_show_nat)
qed

lemma parse_u32_show_word: "parse_u32 (show_word (n :: u32)) = Some n"
proof -
  have "unat n < 2 ^ 32" using unsigned_less [of n] by simp
  then have "parse_uint 32 (show_nat (unat n)) = Some (unat n)" by (rule parse_uint_show_nat)
  then show ?thesis by (simp add: parse_u32_def show_word_def)
qed

lemma show_nat_inj: "show_nat m = show_nat n \<Longrightarrow> m = n"
  by (metis digits_value_show_nat option.inject)

section \<open>Digit strings\<close>

definition is_digit :: "char \<Rightarrow> bool" where
  "is_digit c = (char_digit c \<noteq> None)"

lemma is_digit_code: "is_digit c \<Longrightarrow> 48 \<le> (of_char c :: nat) \<and> (of_char c :: nat) \<le> 57"
  by (auto simp: is_digit_def char_digit_def Let_def split: if_splits)

lemma is_digit_digit_char: "d < 10 \<Longrightarrow> is_digit (digit_char d)"
  by (simp add: is_digit_def)

lemma show_nat_digits: "c \<in> set (show_nat n) \<Longrightarrow> is_digit c"
proof (induction n rule: show_nat.induct)
  case (1 n)
  show ?case
  proof (cases "n < 10")
    case True
    then show ?thesis using "1.prems" is_digit_digit_char [OF True]
      by (subst (asm) show_nat.simps) simp
  next
    case False
    then show ?thesis using 1 is_digit_digit_char [of "n mod 10"]
      by (subst (asm) (2) show_nat.simps) auto
  qed
qed

lemma show_nat_nonempty [simp]: "show_nat n \<noteq> []"
  by (subst show_nat.simps) simp

lemma digit_not_ws: "is_digit c \<Longrightarrow> \<not> is_ascii_ws c"
  using is_digit_code [of c] by (auto simp: is_ascii_ws_def Let_def)

lemma digit_not_char:
  "is_digit c \<Longrightarrow> (of_char d :: nat) < 48 \<or> 57 < (of_char d :: nat) \<Longrightarrow> c \<noteq> d"
  using is_digit_code [of c] by auto

lemma digit_not_comma: "is_digit c \<Longrightarrow> c \<noteq> CHR '',''"
  using digit_not_char [of c "CHR '',''"] by simp

lemma digit_not_dash: "is_digit c \<Longrightarrow> c \<noteq> CHR ''-''"
  using digit_not_char [of c "CHR ''-''"] by simp

lemma str_trim_id:
  assumes "s \<noteq> []" and "\<not> is_ascii_ws (hd s)" and "\<not> is_ascii_ws (last s)"
  shows "str_trim s = s"
proof -
  have "dropWhile is_ascii_ws s = s" using assms(1,2) by (cases s) auto
  moreover have "dropWhile is_ascii_ws (rev s) = rev s"
    using assms(1,3) by (cases "rev s") (auto simp: last_conv_nth hd_rev [symmetric])
  ultimately show ?thesis by (simp add: str_trim_def)
qed

lemma str_trim_digits: "s \<noteq> [] \<Longrightarrow> (\<forall>c \<in> set s. is_digit c) \<Longrightarrow> str_trim s = s"
  by (intro str_trim_id) (auto simp: digit_not_ws)

lemma hd_show_nat: "is_digit (hd (show_nat n))" and last_show_nat: "is_digit (last (show_nat n))"
  by (auto intro!: show_nat_digits hd_in_set last_in_set)

end
