(* ===== verification/Devices.thy ===== *)
theory Devices
  imports Rust_Strings "HOL-Library.List_Lexorder" "HOL-Library.Char_ord"
begin

text \<open>
  Device facts (\<^verbatim>\<open>spur-devices/src/topology.rs\<close>) and the data of
  the bindings that fix a job's devices (\<^verbatim>\<open>fabric.rs\<close>,
  \<^verbatim>\<open>fabric_binding.rs\<close>, \<^verbatim>\<open>gpu_binding.rs\<close>,
  \<^verbatim>\<open>cpu_topology.rs\<close>). The lemmas show that an observation's issue
  list is kept sorted and duplicate-free, and that dropping peer conflicts is a
  projection that leaves a consistent observation alone.
\<close>

section \<open>Observations\<close>

datatype observation_status = ObsUnknown | Consistent | Incomplete | Inconsistent | ObsUnavailable

datatype observation_issue_kind =
    IssueUnknown | Missing | Unreadable | Malformed | TooLarge | Conflict | Changed
  | IssueUnavailable | PeerConflict

datatype observation_issue = ObservationIssue (oi_field: string) (oi_kind: observation_issue_kind)

text \<open>The derived \<^verbatim>\<open>Ord\<close>: by declaration order, then field by field.\<close>

fun issue_kind_rank :: "observation_issue_kind \<Rightarrow> nat" where
  "issue_kind_rank IssueUnknown = 0"
| "issue_kind_rank Missing = 1"
| "issue_kind_rank Unreadable = 2"
| "issue_kind_rank Malformed = 3"
| "issue_kind_rank TooLarge = 4"
| "issue_kind_rank Conflict = 5"
| "issue_kind_rank Changed = 6"
| "issue_kind_rank IssueUnavailable = 7"
| "issue_kind_rank PeerConflict = 8"

lemma issue_kind_rank_inj: "issue_kind_rank a = issue_kind_rank b \<Longrightarrow> a = b"
  by (cases a; cases b) simp_all

instantiation observation_issue_kind :: linorder
begin

definition less_eq_observation_issue_kind :: "observation_issue_kind \<Rightarrow> observation_issue_kind \<Rightarrow> bool" where
  "less_eq_observation_issue_kind a b = (issue_kind_rank a \<le> issue_kind_rank b)"

definition less_observation_issue_kind :: "observation_issue_kind \<Rightarrow> observation_issue_kind \<Rightarrow> bool" where
  "less_observation_issue_kind a b = (issue_kind_rank a < issue_kind_rank b)"

instance
  by standard
    (auto simp: less_eq_observation_issue_kind_def less_observation_issue_kind_def
       dest: issue_kind_rank_inj)

end

instantiation observation_issue :: linorder
begin

definition less_eq_observation_issue :: "observation_issue \<Rightarrow> observation_issue \<Rightarrow> bool" where
  "less_eq_observation_issue a b =
     (oi_field a < oi_field b \<or> (oi_field a = oi_field b \<and> oi_kind a \<le> oi_kind b))"

definition less_observation_issue :: "observation_issue \<Rightarrow> observation_issue \<Rightarrow> bool" where
  "less_observation_issue a b =
     (oi_field a < oi_field b \<or> (oi_field a = oi_field b \<and> oi_kind a < oi_kind b))"

instance
  by standard
    (auto simp: less_eq_observation_issue_def less_observation_issue_def observation_issue.expand)

end

record fabric_observation =
  fo_source :: string
  fo_status :: observation_status
  fo_physical_domain_id :: "string option"
  fo_fabric_domain_id :: "string option"
  fo_endpoint_id :: "string option"
  fo_physical_capacity :: "u32 option"
  fo_fabric_capacity :: "u32 option"
  fo_active_endpoints :: "string list"
  fo_local_endpoints :: "string list"
  fo_endpoint_state :: "string option"
  fo_transport :: "string option"
  fo_issues :: "observation_issue list"

record device_topology =
  dt_pci_bdf :: "string option"
  dt_numa_node :: "u32 option"
  dt_pci_root :: "string option"
  dt_vram_bytes :: "u64 option"
  dt_fabric :: "fabric_observation option"

definition fabric_observation_default :: fabric_observation where
  "fabric_observation_default = \<lparr>fo_source = [], fo_status = ObsUnknown,
     fo_physical_domain_id = None, fo_fabric_domain_id = None, fo_endpoint_id = None,
     fo_physical_capacity = None, fo_fabric_capacity = None, fo_active_endpoints = [],
     fo_local_endpoints = [], fo_endpoint_state = None, fo_transport = None, fo_issues = []\<rparr>"

definition without_peer_conflicts :: "fabric_observation \<Rightarrow> fabric_observation" where
  "without_peer_conflicts obs =
     (let own = obs\<lparr>fo_issues := filter (\<lambda>i. oi_kind i \<noteq> PeerConflict) (fo_issues obs)\<rparr>
      in if fo_status own = Inconsistent \<and> fo_issues own = []
         then own\<lparr>fo_status := Consistent\<rparr> else own)"

definition add_issue :: "string \<Rightarrow> observation_issue_kind \<Rightarrow> fabric_observation \<Rightarrow> fabric_observation" where
  "add_issue field kind obs =
     obs\<lparr>fo_issues := remdups_adj (sort (fo_issues obs @ [ObservationIssue field kind]))\<rparr>"

definition unavailable :: "string \<Rightarrow> string \<Rightarrow> observation_issue_kind \<Rightarrow> fabric_observation" where
  "unavailable source field kind =
     add_issue field kind
       (fabric_observation_default\<lparr>fo_source := source, fo_status := ObsUnavailable\<rparr>)"

lemma add_issue_issues:
  "set (fo_issues (add_issue f k obs)) = insert (ObservationIssue f k) (set (fo_issues obs))"
  by (auto simp: add_issue_def)

lemma sorted_distinct_remdups_adj: "sorted xs \<Longrightarrow> distinct (remdups_adj xs)"
proof (induction xs rule: remdups_adj.induct)
  case (3 x y xs)
  show ?case
  proof (cases "x = y")
    case True
    with 3 show ?thesis by simp
  next
    case False
    with 3 have "\<forall>z \<in> set (y # xs). x < z" by auto
    with False 3 show ?thesis by auto
  qed
qed simp_all

lemma add_issue_sorted_distinct:
  "sorted (fo_issues (add_issue f k obs)) \<and> distinct (fo_issues (add_issue f k obs))"
  by (simp add: add_issue_def sorted_remdups_adj sorted_distinct_remdups_adj)

lemma without_peer_conflicts_idem:
  "without_peer_conflicts (without_peer_conflicts obs) = without_peer_conflicts obs"
  by (simp add: without_peer_conflicts_def Let_def)

lemma without_peer_conflicts_consistent:
  "fo_status obs = Consistent \<Longrightarrow> fo_issues obs = [] \<Longrightarrow> without_peer_conflicts obs = obs"
  by (simp add: without_peer_conflicts_def Let_def)

section \<open>CPU topology and bindings: data\<close>

record core_info =
  ci_socket :: u32
  ci_numa_node :: "u32 option"
  ci_cpus :: "u32 list"

record cpu_topology =
  ct_cores :: "core_info list"

record fabric_block_key =
  fk_namespace :: string
  fk_physical_domain :: string
  fk_fabric_domain :: string

record fabric_device_key =
  fd_node :: string
  fd_stable_id :: u64

record fabric_member =
  fm_device :: fabric_device_key
  fm_endpoint :: string
  fm_inventory_generation :: u64

record fabric_block =
  blk_key :: fabric_block_key
  blk_members :: "fabric_member list"
  blk_active_endpoints :: "string list"
  blk_physical_capacity :: "u32 option"
  blk_fabric_capacity :: "u32 option"
  blk_issues :: "string list"
  blk_file_revision :: "string option"

record fabric_binding =
  fb_version :: u32
  fb_node :: string
  fb_inventory_generation :: u64
  fb_key :: fabric_block_key
  fb_active_endpoints :: "string list"
  fb_members :: "fabric_member list"
  fb_file_revision :: "string option"

record bound_gpu =
  bg_stable_id :: u64
  bg_gpu_type :: string
  bg_topology :: "device_topology option"

record gpu_binding =
  gb_node :: string
  gb_generation :: u64
  gb_gpus :: "bound_gpu list"

end
