(* ===== verification/Resource.thy ===== *)
theory Resource
  imports Devices
begin

text \<open>
  Resource inventories and allocations (\<^verbatim>\<open>spur-core/src/resource.rs\<close>).
  A node's inventory is a \<open>resource_set\<close>; what is charged to a node or held by a job
  is a \<open>resource_allocations\<close>. The lemmas show that charging and releasing act, kind by
  kind, as saturating addition and truncated subtraction (the \<open>ledger\<close> interface), that
  the devices picked for a job are free, known and distinct, and that a node with less
  charged to it satisfies every request a node with more does.
\<close>

section \<open>Data\<close>

datatype gpu_link_type = PCIe | XGMI | NVLink

record gpu_resource =
  gr_device_id :: u32
  gr_gpu_type :: string
  gr_memory_mb :: u64
  gr_peer_gpus :: "u32 list"
  gr_link_type :: gpu_link_type
  gr_stable_id :: u64
  gr_topology :: "device_topology option"

record resource_set =
  rs_cpus :: u32
  rs_memory_mb :: u64
  rs_gpus :: "gpu_resource list"
  rs_generic :: "(string, u64) hashmap"
  rs_generation :: u64
  rs_fabric_binding_version :: u32
  rs_block_file_revision :: "string option"
  rs_topology :: "cpu_topology option"

record allocated_device =
  ad_device_id :: u64
  ad_count :: u64

record resource_allocations =
  ra_cpus :: u32
  ra_memory_mb :: u64
  ra_devices :: "(string, allocated_device list) hashmap"
  ra_generation :: u64
  ra_fabric_binding :: "fabric_binding option"
  ra_gpu_binding :: "gpu_binding option"

definition rs_default :: resource_set where
  "rs_default = \<lparr>rs_cpus = 0, rs_memory_mb = 0, rs_gpus = [], rs_generic = [], rs_generation = 0,
     rs_fabric_binding_version = 0, rs_block_file_revision = None, rs_topology = None\<rparr>"

definition ra_default :: resource_allocations where
  "ra_default = \<lparr>ra_cpus = 0, ra_memory_mb = 0, ra_devices = [], ra_generation = 0,
     ra_fabric_binding = None, ra_gpu_binding = None\<rparr>"

abbreviation gpu_gres :: string where
  "gpu_gres \<equiv> ''gpu''"

section \<open>Allocations\<close>

definition injectable :: "u64 \<Rightarrow> allocated_device" where
  "injectable i = \<lparr>ad_device_id = i, ad_count = 1\<rparr>"

definition ra_is_empty :: "resource_allocations \<Rightarrow> bool" where
  "ra_is_empty a = (ra_cpus a = 0 \<and> ra_memory_mb a = 0 \<and> ra_devices a = [])"

definition has_devices :: "resource_allocations \<Rightarrow> bool" where
  "has_devices a = list_ex (\<lambda>v. v \<noteq> []) (hm_values (ra_devices a))"

definition total_device_count :: "resource_allocations \<Rightarrow> string \<Rightarrow> u64" where
  "total_device_count a gres =
     (case hm_get (ra_devices a) gres of None \<Rightarrow> 0 | Some devs \<Rightarrow> sum_list (map ad_count devs))"

definition device_ids :: "resource_allocations \<Rightarrow> string \<Rightarrow> u64 list" where
  "device_ids a gres =
     (case hm_get (ra_devices a) gres of None \<Rightarrow> [] | Some devs \<Rightarrow> map ad_device_id devs)"

definition generic_count :: "resource_allocations \<Rightarrow> string \<Rightarrow> u64" where
  "generic_count a name =
     (case hm_get (ra_devices a) name of None \<Rightarrow> 0 | Some devs \<Rightarrow> sum_list (map ad_count devs))"

text \<open>
  The inner loops of \<^verbatim>\<open>add\<close> and \<^verbatim>\<open>subtract\<close>: the first
  entry with the device's id is changed; \<^verbatim>\<open>add\<close> appends the device when
  there is none.
\<close>

fun dev_merge :: "allocated_device \<Rightarrow> allocated_device list \<Rightarrow> allocated_device list" where
  "dev_merge d [] = [d]"
| "dev_merge d (e # es) =
     (if ad_device_id e = ad_device_id d
      then e\<lparr>ad_count := sat_add (ad_count e) (ad_count d)\<rparr> # es else e # dev_merge d es)"

fun dev_reduce :: "allocated_device \<Rightarrow> allocated_device list \<Rightarrow> allocated_device list" where
  "dev_reduce d [] = []"
| "dev_reduce d (e # es) =
     (if ad_device_id e = ad_device_id d
      then e\<lparr>ad_count := sat_sub (ad_count e) (ad_count d)\<rparr> # es else e # dev_reduce d es)"

definition add_devices ::
  "(string, allocated_device list) hashmap \<Rightarrow> string \<times> allocated_device list
     \<Rightarrow> (string, allocated_device list) hashmap" where
  "add_devices m gd = (case gd of (gres, devices) \<Rightarrow>
     hm_entry [] gres (\<lambda>entry. foldl (\<lambda>es d. dev_merge d es) entry devices) m)"

definition subtract_devices ::
  "(string, allocated_device list) hashmap \<Rightarrow> string \<times> allocated_device list
     \<Rightarrow> (string, allocated_device list) hashmap" where
  "subtract_devices m gd = (case gd of (gres, devices) \<Rightarrow>
     (case hm_get m gres of
        None \<Rightarrow> m
      | Some entry \<Rightarrow>
          (let entry' = filter (\<lambda>d. 0 < ad_count d) (foldl (\<lambda>es d. dev_reduce d es) entry devices)
           in if entry' = [] then hm_remove gres m else hm_insert gres entry' m)))"

definition ra_add :: "resource_allocations \<Rightarrow> resource_allocations \<Rightarrow> resource_allocations" where
  "ra_add self other = self\<lparr>
     ra_cpus := sat_add (ra_cpus self) (ra_cpus other),
     ra_memory_mb := sat_add (ra_memory_mb self) (ra_memory_mb other),
     ra_devices := foldl add_devices (ra_devices self) (ra_devices other)\<rparr>"

definition ra_subtract :: "resource_allocations \<Rightarrow> resource_allocations \<Rightarrow> resource_allocations" where
  "ra_subtract self other = self\<lparr>
     ra_cpus := sat_sub (ra_cpus self) (ra_cpus other),
     ra_memory_mb := sat_sub (ra_memory_mb self) (ra_memory_mb other),
     ra_devices := foldl subtract_devices (ra_devices self) (ra_devices other)\<rparr>"

definition from_device_ids :: "string \<Rightarrow> u64 list \<Rightarrow> resource_allocations" where
  "from_device_ids gres ids =
     (if ids = [] then ra_default
      else ra_default\<lparr>ra_devices := hm_insert gres (map injectable ids) []\<rparr>)"

definition with_scalar :: "u32 \<Rightarrow> u64 \<Rightarrow> resource_allocations" where
  "with_scalar cpus mem = ra_default\<lparr>ra_cpus := cpus, ra_memory_mb := mem\<rparr>"

definition aggregate_allocations :: "resource_allocations list \<Rightarrow> resource_allocations" where
  "aggregate_allocations allocs = foldl ra_add ra_default allocs"

section \<open>Inventories\<close>

definition backfill_stable_ids :: "resource_set \<Rightarrow> resource_set" where
  "backfill_stable_ids rs = rs\<lparr>rs_gpus :=
     map (\<lambda>g. if gr_stable_id g = 0 then g\<lparr>gr_stable_id := ucast (gr_device_id g)\<rparr> else g) (rs_gpus rs)\<rparr>"

definition with_renamed_gpus :: "(u64, u64) hashmap \<Rightarrow> resource_set \<Rightarrow> resource_set" where
  "with_renamed_gpus renamed rs = rs\<lparr>rs_gpus :=
     map (\<lambda>g. case hm_get renamed (gr_stable_id g) of
            None \<Rightarrow> g | Some i \<Rightarrow> g\<lparr>gr_stable_id := i\<rparr>) (rs_gpus rs)\<rparr>"

definition clamped :: "resource_set \<Rightarrow> u32 \<Rightarrow> u64 \<Rightarrow> u64 \<Rightarrow> u32 \<Rightarrow> resource_set" where
  "clamped rs cpus_cap memory_cap_mb reserved_memory_mb spec_cpus =
     (let usable = sat_sub (rs_cpus rs) spec_cpus;
          cpus = (if 0 < cpus_cap then min usable cpus_cap else usable);
          mem_cap = (if 0 < memory_cap_mb then memory_cap_mb else rs_memory_mb rs);
          memory_mb = min mem_cap (sat_sub (rs_memory_mb rs) reserved_memory_mb)
      in rs\<lparr>rs_cpus := cpus, rs_memory_mb := memory_mb, rs_topology := None\<rparr>)"

definition gpu_counts :: "resource_set \<Rightarrow> (string, u32) hashmap" where
  "gpu_counts rs = foldl (\<lambda>m g. hm_entry 0 (gr_gpu_type g) (\<lambda>n. n + 1) m) [] (rs_gpus rs)"

definition total_gpus :: "resource_set \<Rightarrow> u32" where
  "total_gpus rs = of_nat (length (rs_gpus rs))"

definition holds_unknown_gpu :: "resource_set \<Rightarrow> resource_allocations \<Rightarrow> bool" where
  "holds_unknown_gpu rs allocated =
     list_ex (\<lambda>i. \<not> list_ex (\<lambda>g. gr_stable_id g = i) (rs_gpus rs)) (device_ids allocated gpu_gres)"

text \<open>Per-type counts left after the allocated GPUs are taken out.\<close>

definition avail_gpu_counts :: "resource_set \<Rightarrow> resource_allocations \<Rightarrow> (string, u32) hashmap" where
  "avail_gpu_counts rs allocated =
     foldl (\<lambda>m dev. case find (\<lambda>g. gr_stable_id g = ad_device_id dev) (rs_gpus rs) of
              None \<Rightarrow> m
            | Some g \<Rightarrow>
                hm_insert (gr_gpu_type g)
                  (sat_sub (case hm_get m (gr_gpu_type g) of None \<Rightarrow> 0 | Some n \<Rightarrow> n)
                     (ucast (ad_count dev))) m)
       (gpu_counts rs)
       (case hm_get (ra_devices allocated) gpu_gres of None \<Rightarrow> [] | Some devs \<Rightarrow> devs)"

definition can_satisfy_with_allocated ::
  "resource_set \<Rightarrow> resource_allocations \<Rightarrow> resource_set \<Rightarrow> bool" where
  "can_satisfy_with_allocated self allocated request =
     (let avail_cpus = sat_sub (rs_cpus self) (ra_cpus allocated);
          avail_mem = sat_sub (rs_memory_mb self) (ra_memory_mb allocated)
      in if avail_cpus < rs_cpus request \<or> avail_mem < rs_memory_mb request then False
         else if rs_gpus request \<noteq> [] \<and> holds_unknown_gpu self allocated then False
         else
           (let total_avail = sum_list (hm_values (gpu_counts self));
                avail_gpus = avail_gpu_counts self allocated
            in list_all (\<lambda>(gpu_type, cnt).
                   if gpu_type = ''any''
                   then \<not> sat_sub total_avail (ucast (total_device_count allocated gpu_gres)) < cnt
                   else \<not> (case hm_get avail_gpus gpu_type of None \<Rightarrow> 0 | Some n \<Rightarrow> n) < cnt)
                 (gpu_counts request)
               \<and> list_all (\<lambda>(name, cnt).
                   \<not> sat_sub (case hm_get (rs_generic self) name of None \<Rightarrow> 0 | Some n \<Rightarrow> n)
                        (generic_count allocated name) < cnt)
                 (rs_generic request)))"

definition can_satisfy :: "resource_set \<Rightarrow> resource_set \<Rightarrow> bool" where
  "can_satisfy self request = can_satisfy_with_allocated self ra_default request"

definition available_device_ids ::
  "resource_set \<Rightarrow> resource_allocations \<Rightarrow> string \<Rightarrow> string option \<Rightarrow> u64 list" where
  "available_device_ids self allocated gres device_type =
     (let allocated_ids = device_ids allocated gres
      in if gres = gpu_gres then
           (if holds_unknown_gpu self allocated then []
            else map gr_stable_id (filter (\<lambda>g.
                   gr_stable_id g \<notin> set allocated_ids
                   \<and> (case device_type of
                         None \<Rightarrow> True
                       | Some t \<Rightarrow> t = ''any'' \<or> gr_gpu_type g = t)) (rs_gpus self)))
         else [])"

definition pick_devices ::
  "resource_set \<Rightarrow> resource_allocations \<Rightarrow> string \<Rightarrow> string option \<Rightarrow> u32 \<Rightarrow> allocated_device list" where
  "pick_devices self allocated gres device_type cnt =
     map injectable (take (unat cnt) (available_device_ids self allocated gres device_type))"

definition parse_gres :: "string \<Rightarrow> (string \<times> string option \<times> u32) option" where
  "parse_gres gres0 =
     (let gres = str_trim gres0
      in if gres = [] then None
         else case str_split (CHR '':'') gres of
             [n] \<Rightarrow> Some (n, None, 1)
           | [n, t] \<Rightarrow> (case parse_u32 t of
                 Some cnt \<Rightarrow> Some (n, None, cnt)
               | None \<Rightarrow> Some (n, Some t, 1))
           | [n, t, c] \<Rightarrow> (case parse_u32 c of
                 None \<Rightarrow> None
               | Some cnt \<Rightarrow> Some (n, Some t, cnt))
           | _ \<Rightarrow> None)"

text \<open>Countable resources of a request or inventory, appended to an allocation.\<close>

definition push_generic ::
  "(string, u64) hashmap \<Rightarrow> resource_allocations \<Rightarrow> resource_allocations" where
  "push_generic generic alloc =
     foldl (\<lambda>a (name, cnt).
        if 0 < cnt
        then a\<lparr>ra_devices := hm_entry [] name (\<lambda>ds. ds @ [\<lparr>ad_device_id = 0, ad_count = cnt\<rparr>]) (ra_devices a)\<rparr>
        else a) alloc generic"

definition build_exclusive_allocation :: "resource_set \<Rightarrow> u64 \<Rightarrow> resource_allocations" where
  "build_exclusive_allocation inventory memory_mb =
     (let alloc = (with_scalar (rs_cpus inventory) memory_mb)\<lparr>ra_generation := rs_generation inventory\<rparr>;
          alloc = (if rs_gpus inventory = [] then alloc
                   else alloc\<lparr>ra_devices := hm_insert gpu_gres
                          (map (\<lambda>g. injectable (gr_stable_id g)) (rs_gpus inventory)) (ra_devices alloc)\<rparr>)
      in push_generic (rs_generic inventory) alloc)"

text \<open>
  \<open>req_gpus\<close> is the request's GPU counts in the order the hash map yields them; Rust
  leaves that order open, so it is an argument of the model.
\<close>

definition pick_gpus_step ::
  "resource_set \<Rightarrow> resource_allocations \<Rightarrow> resource_allocations \<Rightarrow> string \<times> u32 \<Rightarrow> resource_allocations" where
  "pick_gpus_step inventory current_alloc alloc gc = (case gc of (gpu_type, cnt) \<Rightarrow>
     (let dtype = (if gpu_type = ''any'' then None else Some gpu_type);
          effective_alloc = ra_add current_alloc alloc;
          picked = pick_devices inventory effective_alloc gpu_gres dtype cnt
      in alloc\<lparr>ra_devices := hm_entry [] gpu_gres (\<lambda>ds. ds @ picked) (ra_devices alloc)\<rparr>))"

definition build_node_allocation ::
  "(string \<times> u32) list \<Rightarrow> resource_set \<Rightarrow> resource_allocations \<Rightarrow> resource_set \<Rightarrow> resource_allocations" where
  "build_node_allocation req_gpus inventory current_alloc request =
     push_generic (rs_generic request)
       (foldl (pick_gpus_step inventory current_alloc)
          ((with_scalar (rs_cpus request) (rs_memory_mb request))\<lparr>ra_generation := rs_generation inventory\<rparr>)
          req_gpus)"

section \<open>The quantity view\<close>

text \<open>
  What an allocation holds, as a function from kinds of quantity to numbers. Devices are
  counted per GRES name and device id.
\<close>

datatype quantity = QCpus | QMemory | QDevice string u64

definition dev_total :: "u64 \<Rightarrow> allocated_device list \<Rightarrow> nat" where
  "dev_total i ds = sum_list (map (\<lambda>d. if ad_device_id d = i then unat (ad_count d) else 0) ds)"

fun ra_view :: "resource_allocations \<Rightarrow> quantity \<Rightarrow> nat" where
  "ra_view a QCpus = unat (ra_cpus a)"
| "ra_view a QMemory = unat (ra_memory_mb a)"
| "ra_view a (QDevice g i) =
     (case hm_get (ra_devices a) g of None \<Rightarrow> 0 | Some ds \<Rightarrow> dev_total i ds)"

fun ra_cap :: "quantity \<Rightarrow> nat" where
  "ra_cap QCpus = 2 ^ 32 - 1"
| "ra_cap QMemory = 2 ^ 64 - 1"
| "ra_cap (QDevice g i) = 2 ^ 64 - 1"

text \<open>
  Well-formed allocations: a hash map of device lists, each with every device id at most
  once. \<open>ra_ok\<close> is what an operand needs: that it is a hash map at all.
\<close>

definition ra_wf :: "resource_allocations \<Rightarrow> bool" where
  "ra_wf a = (hm_wf (ra_devices a) \<and>
     (\<forall>(g, ds) \<in> set (ra_devices a). distinct (map ad_device_id ds)))"

definition ra_ok :: "resource_allocations \<Rightarrow> bool" where
  "ra_ok a = hm_wf (ra_devices a)"

lemma dev_total_Nil [simp]: "dev_total i [] = 0"
  by (simp add: dev_total_def)

lemma dev_total_Cons [simp]:
  "dev_total i (d # ds) = (if ad_device_id d = i then unat (ad_count d) else 0) + dev_total i ds"
  by (simp add: dev_total_def)

lemma dev_total_append [simp]: "dev_total i (ds @ es) = dev_total i ds + dev_total i es"
  by (simp add: dev_total_def)

lemma dev_total_absent: "i \<notin> ad_device_id ` set ds \<Longrightarrow> dev_total i ds = 0"
  by (induction ds) auto

lemma dev_total_filter_pos: "dev_total i (filter (\<lambda>d. 0 < ad_count d) ds) = dev_total i ds"
  by (induction ds) (auto simp: word_neq_0_conv [symmetric])

lemma unat_u64_le: "unat (w :: u64) \<le> 2 ^ 64 - 1"
  using unat_le_max [of w] by simp

lemma dev_total_bound: "distinct (map ad_device_id ds) \<Longrightarrow> dev_total i ds \<le> 2 ^ 64 - 1"
proof (induction ds)
  case Nil
  then show ?case by simp
next
  case (Cons d ds)
  then show ?case
    using unat_u64_le [of "ad_count d"] by (auto simp: dev_total_absent)
qed

lemma dev_merge_ids:
  "set (map ad_device_id (dev_merge d es)) = insert (ad_device_id d) (set (map ad_device_id es))"
  by (induction es) auto

lemma dev_merge_distinct:
  "distinct (map ad_device_id es) \<Longrightarrow> distinct (map ad_device_id (dev_merge d es))"
proof (induction es)
  case (Cons e es)
  then show ?case using dev_merge_ids [of d es] by auto
qed simp

lemma dev_reduce_ids: "map ad_device_id (dev_reduce d es) = map ad_device_id es"
  by (induction es) auto

lemma dev_total_merge:
  assumes "distinct (map ad_device_id es)"
  shows "dev_total i (dev_merge d es) =
     min (2 ^ 64 - 1) (dev_total i es + (if ad_device_id d = i then unat (ad_count d) else 0))"
  using assms
proof (induction es)
  case Nil
  then show ?case using unat_u64_le [of "ad_count d"] by (simp add: min_absorb2)
next
  case (Cons e es)
  then have e: "dev_total (ad_device_id e) es = 0" by (simp add: dev_total_absent)
  have b: "dev_total i es \<le> 2 ^ 64 - 1" using Cons.prems dev_total_bound by simp
  show ?case
  proof (cases "ad_device_id e = ad_device_id d")
    case True
    then show ?thesis using e b by (auto simp: unat_sat_add min.commute min_absorb2)
  next
    case False
    then show ?thesis using Cons e b unat_u64_le [of "ad_count e"] unat_u64_le [of "ad_count d"]
      by (auto simp: min_absorb2)
  qed
qed

lemma dev_total_reduce:
  assumes "distinct (map ad_device_id es)"
  shows "dev_total i (dev_reduce d es) = dev_total i es - (if ad_device_id d = i then unat (ad_count d) else 0)"
  using assms
proof (induction es)
  case Nil
  then show ?case by simp
next
  case (Cons e es)
  then have e: "dev_total (ad_device_id e) es = 0" by (simp add: dev_total_absent)
  show ?case using Cons e by (auto simp: unat_sat_sub)
qed

lemma dev_total_merges:
  "distinct (map ad_device_id es) \<Longrightarrow>
     distinct (map ad_device_id (foldl (\<lambda>es d. dev_merge d es) es ds)) \<and>
     dev_total i (foldl (\<lambda>es d. dev_merge d es) es ds) = min (2 ^ 64 - 1) (dev_total i es + dev_total i ds)"
proof (induction ds arbitrary: es)
  case Nil
  then show ?case using dev_total_bound by (simp add: min_absorb2)
next
  case (Cons d ds)
  have "distinct (map ad_device_id (dev_merge d es))"
    using Cons.prems by (rule dev_merge_distinct)
  then show ?case using Cons by (simp add: dev_total_merge)
qed

lemma dev_total_reduces:
  "distinct (map ad_device_id es) \<Longrightarrow>
     distinct (map ad_device_id (foldl (\<lambda>es d. dev_reduce d es) es ds)) \<and>
     dev_total i (foldl (\<lambda>es d. dev_reduce d es) es ds) = dev_total i es - dev_total i ds"
proof (induction ds arbitrary: es)
  case Nil
  then show ?case by simp
next
  case (Cons d ds)
  then have "distinct (map ad_device_id (dev_reduce d es))" by (simp add: dev_reduce_ids)
  then show ?case using Cons by (simp add: dev_total_reduce)
qed

lemma hm_get_add_devices:
  "hm_get (add_devices m (g, ds)) g' =
     (if g' = g then Some (foldl (\<lambda>es d. dev_merge d es) (case hm_get m g of None \<Rightarrow> [] | Some es \<Rightarrow> es) ds)
      else hm_get m g')"
  by (simp add: add_devices_def hm_simps)

lemma hm_get_subtract_devices:
  "hm_get (subtract_devices m (g, ds)) g' =
     (if g' = g then
        (case hm_get m g of
           None \<Rightarrow> None
         | Some es \<Rightarrow>
             (let es' = filter (\<lambda>d. 0 < ad_count d) (foldl (\<lambda>es d. dev_reduce d es) es ds)
              in if es' = [] then None else Some es'))
      else hm_get m g')"
  by (simp add: subtract_devices_def hm_simps Let_def split: option.split)

lemma ra_wf_entry: "ra_wf a \<Longrightarrow> hm_get (ra_devices a) g = Some es \<Longrightarrow> distinct (map ad_device_id es)"
  by (auto simp: ra_wf_def dest: hm_get_mem)

lemma ra_wfI:
  assumes "hm_wf (ra_devices a)"
    and "\<And>g es. hm_get (ra_devices a) g = Some es \<Longrightarrow> distinct (map ad_device_id es)"
  shows "ra_wf a"
  using assms by (auto simp: ra_wf_def dest: hm_mem_get)

lemma ra_wf_ok: "ra_wf a \<Longrightarrow> ra_ok a"
  by (simp add: ra_wf_def ra_ok_def)

lemma hm_wf_add_devices: "hm_wf m \<Longrightarrow> hm_wf (foldl add_devices m bs)"
  by (induction bs arbitrary: m) (auto simp: add_devices_def)

lemma hm_wf_subtract_devices: "hm_wf m \<Longrightarrow> hm_wf (foldl subtract_devices m bs)"
  by (induction bs arbitrary: m)
    (auto simp: subtract_devices_def Let_def split: option.splits prod.splits)

lemma hm_get_ra_add:
  assumes "ra_ok b"
  shows "hm_get (ra_devices (ra_add a b)) g =
     (case hm_get (ra_devices b) g of
        None \<Rightarrow> hm_get (ra_devices a) g
      | Some ds \<Rightarrow> Some (foldl (\<lambda>es d. dev_merge d es)
                      (case hm_get (ra_devices a) g of None \<Rightarrow> [] | Some es \<Rightarrow> es) ds))"
  using assms hm_get_fold_keywise [where step = add_devices and bs = "ra_devices b" and m = "ra_devices a"
      and h = "\<lambda>ds o'. Some (foldl (\<lambda>es d. dev_merge d es) (case o' of None \<Rightarrow> [] | Some es \<Rightarrow> es) ds)",
      OF hm_get_add_devices]
  by (simp add: ra_add_def ra_ok_def)

lemma hm_get_ra_subtract:
  assumes "ra_ok b"
  shows "hm_get (ra_devices (ra_subtract a b)) g =
     (case hm_get (ra_devices b) g of
        None \<Rightarrow> hm_get (ra_devices a) g
      | Some ds \<Rightarrow>
          (case hm_get (ra_devices a) g of
             None \<Rightarrow> None
           | Some es \<Rightarrow>
               (let es' = filter (\<lambda>d. 0 < ad_count d) (foldl (\<lambda>es d. dev_reduce d es) es ds)
                in if es' = [] then None else Some es')))"
  using assms hm_get_fold_keywise [where step = subtract_devices and bs = "ra_devices b" and m = "ra_devices a"
      and h = "\<lambda>ds o'. case o' of None \<Rightarrow> None | Some es \<Rightarrow>
               (let es' = filter (\<lambda>d. 0 < ad_count d) (foldl (\<lambda>es d. dev_reduce d es) es ds)
                in if es' = [] then None else Some es')",
      OF hm_get_subtract_devices]
  by (simp add: ra_subtract_def ra_ok_def)

lemma ra_wf_default [simp]: "ra_wf ra_default"
  by (simp add: ra_wf_def ra_default_def)

lemma ra_view_default [simp]: "ra_view ra_default q = 0"
  by (cases q) (simp_all add: ra_default_def)

lemma ra_wf_add: "ra_wf a \<Longrightarrow> ra_ok b \<Longrightarrow> ra_wf (ra_add a b)"
  apply (rule ra_wfI)
  subgoal by (simp add: ra_add_def hm_wf_add_devices ra_wf_def)
  subgoal for g es
    using dev_total_merges ra_wf_entry
    by (fastforce simp: hm_get_ra_add split: option.splits)
  done

lemma ra_wf_subtract: "ra_wf a \<Longrightarrow> ra_ok b \<Longrightarrow> ra_wf (ra_subtract a b)"
  apply (rule ra_wfI)
  subgoal by (simp add: ra_subtract_def hm_wf_subtract_devices ra_wf_def)
  subgoal for g es
    using dev_total_reduces ra_wf_entry
    by (fastforce simp: hm_get_ra_subtract Let_def distinct_map_filter split: option.splits if_splits)
  done

lemma dev_total_positive_filter:
  "(if filter (\<lambda>d. 0 < ad_count d) ds = [] then 0 else dev_total i (filter (\<lambda>d. 0 < ad_count d) ds))
     = dev_total i ds"
  using dev_total_filter_pos [of i ds] by (cases "filter (\<lambda>d. 0 < ad_count d) ds = []") auto

lemma ra_view_add [view_simps]:
  assumes "ra_wf a" and "ra_ok b"
  shows "ra_view (ra_add a b) q = min (ra_cap q) (ra_view a q + ra_view b q)"
proof (cases q)
  case QCpus
  then show ?thesis by (simp add: ra_add_def unat_sat_add min.commute)
next
  case QMemory
  then show ?thesis by (simp add: ra_add_def unat_sat_add min.commute)
next
  case (QDevice g i)
  show ?thesis
  proof (cases "hm_get (ra_devices b) g")
    case None
    then show ?thesis
      using QDevice assms dev_total_bound ra_wf_entry
      by (auto simp: hm_get_ra_add min_absorb2 split: option.splits)
  next
    case (Some ds)
    define es where "es = (case hm_get (ra_devices a) g of None \<Rightarrow> [] | Some es \<Rightarrow> es)"
    have "distinct (map ad_device_id es)"
      using assms(1) ra_wf_entry by (auto simp: es_def split: option.splits)
    then show ?thesis
      using QDevice Some assms dev_total_merges [of es ds i]
      by (auto simp: hm_get_ra_add es_def split: option.splits)
  qed
qed

lemma ra_view_subtract [view_simps]:
  assumes "ra_wf a" and "ra_ok b"
  shows "ra_view (ra_subtract a b) q = ra_view a q - ra_view b q"
proof (cases q)
  case QCpus
  then show ?thesis by (simp add: ra_subtract_def unat_sat_sub)
next
  case QMemory
  then show ?thesis by (simp add: ra_subtract_def unat_sat_sub)
next
  case (QDevice g i)
  show ?thesis
  proof (cases "hm_get (ra_devices b) g = None \<or> hm_get (ra_devices a) g = None")
    case True
    then show ?thesis using QDevice assms by (auto simp: hm_get_ra_subtract split: option.splits)
  next
    case False
    then obtain ds es where ds: "hm_get (ra_devices b) g = Some ds" and es: "hm_get (ra_devices a) g = Some es"
      by auto
    then have "distinct (map ad_device_id es)" using assms(1) ra_wf_entry by blast
    then show ?thesis
      using QDevice ds es assms dev_total_reduces [of es ds i]
        dev_total_positive_filter [of "foldl (\<lambda>es d. dev_reduce d es) es ds" i]
      by (auto simp: hm_get_ra_subtract Let_def split: if_splits)
  qed
qed

interpretation ra: ledger ra_view ra_cap ra_add ra_subtract ra_default ra_wf ra_ok
  by unfold_locales (simp_all add: ra_wf_add ra_wf_subtract view_simps)

section \<open>Device ids\<close>

lemma fold_dev_merge_ids:
  "set (map ad_device_id (foldl (\<lambda>es d. dev_merge d es) es ds)) =
     set (map ad_device_id es) \<union> set (map ad_device_id ds)"
proof (induction ds arbitrary: es)
  case (Cons d ds)
  then show ?case using dev_merge_ids [of d es] by auto
qed simp

lemma set_device_ids_add:
  "ra_ok b \<Longrightarrow> set (device_ids (ra_add a b) g) = set (device_ids a g) \<union> set (device_ids b g)"
  using fold_dev_merge_ids by (auto simp: device_ids_def hm_get_ra_add split: option.splits)

lemma available_device_ids_props:
  assumes "i \<in> set (available_device_ids rs a gpu_gres dt)"
  shows "i \<in> gr_stable_id ` set (rs_gpus rs)" and "i \<notin> set (device_ids a gpu_gres)"
  using assms by (auto simp: available_device_ids_def Let_def split: if_splits)

lemma available_device_ids_type:
  assumes "i \<in> set (available_device_ids rs a gpu_gres (if t = ''any'' then None else Some t))"
  shows "\<exists>g \<in> set (rs_gpus rs). gr_stable_id g = i \<and> (t = ''any'' \<or> gr_gpu_type g = t)"
  using assms by (auto simp: available_device_ids_def Let_def split: if_splits)

lemma available_device_ids_distinct:
  "distinct (map gr_stable_id (rs_gpus rs)) \<Longrightarrow> distinct (available_device_ids rs a g dt)"
  by (simp add: available_device_ids_def Let_def distinct_map_filter)

lemma map_device_id_injectable [simp]: "map ad_device_id (map injectable ids) = ids"
  by (induction ids) (simp_all add: injectable_def)

lemma device_ids_entry_append:
  "device_ids (a\<lparr>ra_devices := hm_entry [] g (\<lambda>ds. ds @ es) (ra_devices a)\<rparr>) g =
     device_ids a g @ map ad_device_id es"
  by (simp add: device_ids_def hm_simps split: option.split)

lemma device_ids_entry_other:
  "g' \<noteq> g \<Longrightarrow> device_ids (a\<lparr>ra_devices := hm_entry [] g f (ra_devices a)\<rparr>) g' = device_ids a g'"
  by (simp add: device_ids_def hm_simps)

lemma pick_gpus_step_ids:
  "device_ids (pick_gpus_step rs cur alloc (t, n)) gpu_gres =
     device_ids alloc gpu_gres @
     take (unat n) (available_device_ids rs (ra_add cur alloc) gpu_gres (if t = ''any'' then None else Some t))"
  by (simp add: pick_gpus_step_def Let_def device_ids_entry_append pick_devices_def del: map_map)

lemma push_generic_gpu_ids:
  "gpu_gres \<notin> set (hm_keys gen) \<Longrightarrow> device_ids (push_generic gen a) gpu_gres = device_ids a gpu_gres"
proof (induction gen arbitrary: a)
  case Nil
  then show ?case by (simp add: push_generic_def)
next
  case (Cons nc gen)
  obtain n c where nc: "nc = (n, c)" by (cases nc)
  then have "gpu_gres \<noteq> n" and rest: "gpu_gres \<notin> set (hm_keys gen)" using Cons.prems by auto
  then show ?case using Cons.IH [OF rest] nc
    by (auto simp: push_generic_def device_ids_entry_other)
qed

text \<open>The picking loop: every GPU chosen is free, known to the inventory and chosen once.\<close>

definition picks_ok :: "resource_set \<Rightarrow> resource_allocations \<Rightarrow> resource_allocations \<Rightarrow> bool" where
  "picks_ok rs cur alloc =
     (ra_ok alloc \<and> distinct (device_ids alloc gpu_gres)
      \<and> set (device_ids alloc gpu_gres) \<subseteq> gr_stable_id ` set (rs_gpus rs)
      \<and> set (device_ids alloc gpu_gres) \<inter> set (device_ids cur gpu_gres) = {})"

lemma pick_gpus_step_ok:
  assumes "picks_ok rs cur alloc" and "distinct (map gr_stable_id (rs_gpus rs))"
  shows "picks_ok rs cur (pick_gpus_step rs cur alloc (t, n))"
proof -
  define av where "av = available_device_ids rs (ra_add cur alloc) gpu_gres (if t = ''any'' then None else Some t)"
  have ok: "ra_ok alloc" using assms(1) by (simp add: picks_ok_def)
  have ids: "device_ids (pick_gpus_step rs cur alloc (t, n)) gpu_gres =
      device_ids alloc gpu_gres @ take (unat n) av"
    by (simp add: pick_gpus_step_ids av_def)
  have sub: "set (take (unat n) av) \<subseteq> set av" by (rule set_take_subset)
  have d: "distinct (take (unat n) av)"
    using available_device_ids_distinct [OF assms(2)] by (simp add: av_def)
  have free: "set av \<inter> (set (device_ids cur gpu_gres) \<union> set (device_ids alloc gpu_gres)) = {}"
    using available_device_ids_props(2) set_device_ids_add [OF ok] by (fastforce simp: av_def)
  have known: "set av \<subseteq> gr_stable_id ` set (rs_gpus rs)"
    using available_device_ids_props(1) by (fastforce simp: av_def)
  have "ra_ok (pick_gpus_step rs cur alloc (t, n))"
    using ok by (simp add: pick_gpus_step_def Let_def ra_ok_def)
  then show ?thesis
    using assms(1) ids sub d free known unfolding picks_ok_def by auto
qed

lemma pick_gpus_fold_ok:
  assumes "picks_ok rs cur alloc" and "distinct (map gr_stable_id (rs_gpus rs))"
  shows "picks_ok rs cur (foldl (pick_gpus_step rs cur) alloc reqs)"
  using assms by (induction reqs arbitrary: alloc) (auto intro: pick_gpus_step_ok)

section \<open>GPU counts\<close>

definition gpus_of_type :: "string \<Rightarrow> gpu_resource list \<Rightarrow> nat" where
  "gpus_of_type t gs = length (filter (\<lambda>g. gr_gpu_type g = t) gs)"

lemma hm_get_gpu_counts_fold:
  "(case hm_get (foldl (\<lambda>m g. hm_entry 0 (gr_gpu_type g) (\<lambda>n. n + 1) m) m gs) t of None \<Rightarrow> 0 | Some n \<Rightarrow> n) =
     (case hm_get m t of None \<Rightarrow> 0 | Some n \<Rightarrow> n) + (of_nat (gpus_of_type t gs) :: u32)"
  by (induction gs arbitrary: m) (auto simp: gpus_of_type_def hm_simps split: option.splits)

lemma gpu_counts_get:
  "(case hm_get (gpu_counts rs) t of None \<Rightarrow> 0 | Some n \<Rightarrow> n) = (of_nat (gpus_of_type t (rs_gpus rs)) :: u32)"
  using hm_get_gpu_counts_fold [of "[]"] by (simp add: gpu_counts_def)

lemma sum_values_insert:
  "sum_list (hm_values (hm_entry (0::u32) k (\<lambda>n. n + 1) m)) = sum_list (hm_values m) + 1"
  by (induction m) (auto simp: hm_entry_def split: option.splits)

lemma gpu_counts_total: "sum_list (hm_values (gpu_counts rs)) = (of_nat (length (rs_gpus rs)) :: u32)"
proof -
  have "sum_list (hm_values (foldl (\<lambda>m g. hm_entry 0 (gr_gpu_type g) (\<lambda>n. n + 1) m) m gs)) =
      sum_list (hm_values m) + (of_nat (length gs) :: u32)" for m gs
    by (induction gs arbitrary: m) (auto simp: sum_values_insert)
  from this [of "[]"] show ?thesis by (simp add: gpu_counts_def)
qed

lemma gpu_counts_single:
  assumes "\<forall>g \<in> set (rs_gpus rs). gr_gpu_type g = t"
  shows "gpu_counts rs = (if rs_gpus rs = [] then [] else [(t, of_nat (length (rs_gpus rs)))])"
proof -
  have "foldl (\<lambda>m g. hm_entry 0 (gr_gpu_type g) (\<lambda>n. n + 1) m) [(t, w)] gs = [(t, w + of_nat (length gs))]"
    if "\<forall>g \<in> set gs. gr_gpu_type g = t" for w :: u32 and gs
    using that by (induction gs arbitrary: w) (auto simp: hm_entry_def algebra_simps)
  then show ?thesis
    using assms by (cases "rs_gpus rs") (auto simp: gpu_counts_def hm_entry_def)
qed

text \<open>GPUs of the inventory outside a set of ids, of one type or of any.\<close>

definition free_gpus :: "string option \<Rightarrow> u64 set \<Rightarrow> gpu_resource list \<Rightarrow> gpu_resource list" where
  "free_gpus t S gs = filter (\<lambda>g. gr_stable_id g \<notin> S \<and> (case t of None \<Rightarrow> True | Some t' \<Rightarrow> gr_gpu_type g = t')) gs"

lemma free_gpus_length: "length (free_gpus t S gs) \<le> length gs"
  by (simp add: free_gpus_def)

lemma free_gpus_take_one:
  assumes "distinct (map gr_stable_id gs)" and "i \<notin> S" and "g \<in> set gs" and "gr_stable_id g = i"
  shows "length (free_gpus t S gs) =
     length (free_gpus t (insert i S) gs) + (case t of None \<Rightarrow> 1 | Some t' \<Rightarrow> if gr_gpu_type g = t' then 1 else 0)"
  using assms
proof (induction gs)
  case (Cons h gs)
  have same: "free_gpus t (insert i S) gs = free_gpus t S gs" if "i \<notin> gr_stable_id ` set gs"
    using that unfolding free_gpus_def by (intro filter_cong) auto
  show ?case
  proof (cases "gr_stable_id h = i")
    case True
    with Cons.prems have "i \<notin> gr_stable_id ` set gs" "g = h" by (auto simp: image_iff)
    then show ?thesis using same True Cons.prems(2) by (cases t) (simp_all add: free_gpus_def)
  next
    case False
    with Cons.prems Cons.IH have "length (free_gpus t S gs) = length (free_gpus t (insert i S) gs) +
        (case t of None \<Rightarrow> 1 | Some t' \<Rightarrow> if gr_gpu_type g = t' then 1 else 0)" by auto
    with False show ?thesis by (simp add: free_gpus_def)
  qed
qed simp

lemma find_stable:
  assumes "i \<in> gr_stable_id ` set gs"
  shows "\<exists>g. find (\<lambda>g. gr_stable_id g = i) gs = Some g \<and> g \<in> set gs \<and> gr_stable_id g = i"
  using assms by (induction gs) auto

lemma unat_of_nat_u32: "n < 2 ^ 32 \<Longrightarrow> unat (of_nat n :: u32) = n"
  by (simp add: unat_of_nat)

lemma sat_sub_one:
  assumes "0 < n" and "n < 2 ^ 32"
  shows "sat_sub (of_nat n :: u32) 1 = of_nat (n - 1)"
proof -
  have "unat (of_nat (n - 1) :: u32) = n - 1" "unat (of_nat n :: u32) = n"
    using assms by (simp_all only: unat_of_nat_u32 diff_less less_imp_diff_less)
  then have "unat (sat_sub (of_nat n :: u32) 1) = unat (of_nat (n - 1) :: u32)"
    by (simp only: unat_sat_sub unat_1)
  then show ?thesis by (simp only: word_unat_eq_iff)
qed

text \<open>Single GPU devices, held once each, all known to the inventory.\<close>

definition gpus_held_once :: "resource_set \<Rightarrow> resource_allocations \<Rightarrow> bool" where
  "gpus_held_once rs a = (case hm_get (ra_devices a) gpu_gres of None \<Rightarrow> True
     | Some ds \<Rightarrow> distinct (map ad_device_id ds) \<and> list_all (\<lambda>d. ad_count d = 1) ds)"

lemma avail_gpu_counts_fold:
  assumes "distinct (map gr_stable_id gs)" and "length gs < 2 ^ 32"
    and "distinct (map ad_device_id ds)" and "\<forall>d \<in> set ds. ad_count d = 1"
    and "ad_device_id ` set ds \<subseteq> gr_stable_id ` set gs" and "S \<inter> ad_device_id ` set ds = {}"
    and "(case hm_get m t of None \<Rightarrow> 0 | Some n \<Rightarrow> n) = (of_nat (length (free_gpus (Some t) S gs)) :: u32)"
  shows "(case hm_get (foldl (\<lambda>m dev. case find (\<lambda>g. gr_stable_id g = ad_device_id dev) gs of
              None \<Rightarrow> m
            | Some g \<Rightarrow>
                hm_insert (gr_gpu_type g)
                  (sat_sub (case hm_get m (gr_gpu_type g) of None \<Rightarrow> 0 | Some n \<Rightarrow> n)
                     (ucast (ad_count dev))) m) m ds) t of None \<Rightarrow> 0 | Some n \<Rightarrow> n) =
         (of_nat (length (free_gpus (Some t) (S \<union> ad_device_id ` set ds) gs)) :: u32)"
  using assms(3-7)
proof (induction ds arbitrary: m S)
  case (Cons d ds)
  obtain g where g: "find (\<lambda>g. gr_stable_id g = ad_device_id d) gs = Some g" "g \<in> set gs"
      "gr_stable_id g = ad_device_id d"
    using find_stable [of "ad_device_id d" gs] Cons.prems(3) by auto
  define m' where "m' = hm_insert (gr_gpu_type g)
      (sat_sub (case hm_get m (gr_gpu_type g) of None \<Rightarrow> 0 | Some n \<Rightarrow> n) (1 :: u32)) m"
  have step: "length (free_gpus (Some t) S gs) =
      length (free_gpus (Some t) (insert (ad_device_id d) S) gs) + (if gr_gpu_type g = t then 1 else 0)"
    using free_gpus_take_one [OF assms(1) _ g(2,3), of S "Some t"] Cons.prems(4) by simp
  have "(case hm_get m' t of None \<Rightarrow> 0 | Some n \<Rightarrow> n) =
      (of_nat (length (free_gpus (Some t) (insert (ad_device_id d) S) gs)) :: u32)"
  proof (cases "gr_gpu_type g = t")
    case True
    have "length (free_gpus (Some t) S gs) < 2 ^ 32"
      using free_gpus_length [of "Some t" S gs] assms(2) by linarith
    then show ?thesis
      using True step Cons.prems(5) sat_sub_one [of "length (free_gpus (Some t) S gs)"]
      by (simp add: m'_def hm_simps)
  next
    case False
    then show ?thesis using step Cons.prems(5) by (simp add: m'_def hm_simps)
  qed
  then have "(case hm_get (foldl (\<lambda>m dev. case find (\<lambda>g. gr_stable_id g = ad_device_id dev) gs of
              None \<Rightarrow> m
            | Some g \<Rightarrow>
                hm_insert (gr_gpu_type g)
                  (sat_sub (case hm_get m (gr_gpu_type g) of None \<Rightarrow> 0 | Some n \<Rightarrow> n)
                     (ucast (ad_count dev))) m) m' ds) t of None \<Rightarrow> 0 | Some n \<Rightarrow> n) =
         (of_nat (length (free_gpus (Some t) (insert (ad_device_id d) S \<union> ad_device_id ` set ds) gs)) :: u32)"
    using Cons.prems by (intro Cons.IH) auto
  moreover have "ad_count d = 1" using Cons.prems(2) by simp
  ultimately show ?case by (simp add: g(1) m'_def)
qed simp

lemma known_ids_subset:
  "\<not> holds_unknown_gpu rs a \<Longrightarrow> set (device_ids a gpu_gres) \<subseteq> gr_stable_id ` set (rs_gpus rs)"
  by (auto simp: holds_unknown_gpu_def list_ex_iff)

lemma free_gpus_any_length:
  assumes "distinct (map gr_stable_id gs)" and "distinct is" and "set is \<subseteq> gr_stable_id ` set gs"
  shows "length (free_gpus None (set is) gs) = length gs - length is"
proof -
  have "length (free_gpus None (set is) gs) = card (gr_stable_id ` set gs - set is)"
  proof -
    have "set (map gr_stable_id (free_gpus None (set is) gs)) = gr_stable_id ` set gs - set is"
      by (auto simp: free_gpus_def)
    moreover have "distinct (map gr_stable_id (free_gpus None (set is) gs))"
      using assms(1) by (simp add: free_gpus_def distinct_map_filter)
    ultimately show ?thesis by (metis distinct_card length_map)
  qed
  also have "\<dots> = card (gr_stable_id ` set gs) - card (set is)"
    using assms(3) by (simp add: card_Diff_subset)
  also have "\<dots> = length gs - length is"
    using distinct_card [OF assms(1)] distinct_card [OF assms(2)] by simp
  finally show ?thesis .
qed

lemma available_device_ids_length:
  assumes "\<not> holds_unknown_gpu rs a"
  shows "length (available_device_ids rs a gpu_gres (if t = ''any'' then None else Some t)) =
     length (free_gpus (if t = ''any'' then None else Some t) (set (device_ids a gpu_gres)) (rs_gpus rs))"
  using assms by (simp add: available_device_ids_def free_gpus_def Let_def)

lemma total_device_count_ones:
  assumes "gpus_held_once rs a" and "length (device_ids a gpu_gres) < 2 ^ 32"
  shows "(ucast (total_device_count a gpu_gres) :: u32) = of_nat (length (device_ids a gpu_gres))"
proof (cases "hm_get (ra_devices a) gpu_gres")
  case None
  then show ?thesis by (simp add: total_device_count_def device_ids_def)
next
  case (Some ds)
  have "list_all (\<lambda>d. ad_count d = 1) es \<Longrightarrow> sum_list (map ad_count es) = of_nat (length es)"
    for es :: "allocated_device list"
    by (induction es) auto
  then have "total_device_count a gpu_gres = of_nat (length ds)"
    using Some assms(1) by (simp add: gpus_held_once_def total_device_count_def)
  then show ?thesis using Some assms(2)
    by (simp add: device_ids_def word_unat_eq_iff unsigned_ucast_eq unat_of_nat take_bit_nat_eq_self)
qed

text \<open>The counting check and the picking loop agree on what is free.\<close>

lemma can_satisfy_free:
  assumes sat: "can_satisfy_with_allocated rs a request"
    and one: "\<forall>g \<in> set (rs_gpus request). gr_gpu_type g = t" and some: "rs_gpus request \<noteq> []"
    and held: "gpus_held_once rs a" and ids: "distinct (map gr_stable_id (rs_gpus rs))"
    and size: "length (rs_gpus rs) < 2 ^ 32" "length (rs_gpus request) < 2 ^ 32"
  shows "\<not> holds_unknown_gpu rs a"
    and "length (rs_gpus request) \<le>
      length (free_gpus (if t = ''any'' then None else Some t) (set (device_ids a gpu_gres)) (rs_gpus rs))"
proof -
  let ?n = "length (rs_gpus request)" and ?ids = "device_ids a gpu_gres"
  show known: "\<not> holds_unknown_gpu rs a"
    using sat some by (auto simp: can_satisfy_with_allocated_def Let_def split: if_splits)
  have d: "distinct ?ids" using held by (auto simp: gpus_held_once_def device_ids_def split: option.splits)
  have len: "length ?ids \<le> length (rs_gpus rs)"
    using card_mono [OF _ known_ids_subset [OF known]] distinct_card [OF d] distinct_card [OF ids] by simp
  have cs: "gpu_counts request = [(t, of_nat ?n)]" using gpu_counts_single [OF one] some by simp
  have n: "unat (of_nat ?n :: u32) = ?n" using size(2) by (rule unat_of_nat_u32)
  show "?n \<le> length (free_gpus (if t = ''any'' then None else Some t) (set ?ids) (rs_gpus rs))"
  proof (cases "t = ''any''")
    case True
    have "\<not> sat_sub (of_nat (length (rs_gpus rs))) (of_nat (length ?ids)) < (of_nat ?n :: u32)"
      using sat True cs len size(1) total_device_count_ones [OF held]
      by (auto simp: can_satisfy_with_allocated_def Let_def gpu_counts_total split: if_splits)
    then have "?n \<le> length (rs_gpus rs) - length ?ids"
      using n unat_of_nat_u32 [OF size(1)] unat_of_nat_u32 [of "length ?ids"] len size(1)
      by (simp add: word_less_nat_alt unat_sat_sub not_less del: unsigned_of_nat)
    then show ?thesis
      using True free_gpus_any_length [OF ids d known_ids_subset [OF known]] by simp
  next
    case False
    define ds where "ds = (case hm_get (ra_devices a) gpu_gres of None \<Rightarrow> [] | Some ds \<Rightarrow> ds)"
    have dids: "?ids = map ad_device_id ds" by (simp add: ds_def device_ids_def split: option.splits)
    have ones: "\<forall>d \<in> set ds. ad_count d = 1"
      using held by (auto simp: ds_def gpus_held_once_def list_all_iff split: option.splits)
    have "(case hm_get (avail_gpu_counts rs a) t of None \<Rightarrow> 0 | Some n \<Rightarrow> n) =
        (of_nat (length (free_gpus (Some t) (set ?ids) (rs_gpus rs))) :: u32)"
      unfolding avail_gpu_counts_def ds_def [symmetric]
      using avail_gpu_counts_fold [OF ids size(1), of ds "{}" "gpu_counts rs" t] ones d known_ids_subset [OF known]
      by (simp add: dids gpu_counts_get gpus_of_type_def free_gpus_def)
    moreover have "\<not> (case hm_get (avail_gpu_counts rs a) t of None \<Rightarrow> 0 | Some n \<Rightarrow> n) < (of_nat ?n :: u32)"
      using sat False cs by (auto simp: can_satisfy_with_allocated_def Let_def split: if_splits)
    ultimately show ?thesis
      using False n unat_of_nat_u32 [of "length (free_gpus (Some t) (set ?ids) (rs_gpus rs))"]
        free_gpus_length [of "Some t" "set ?ids" "rs_gpus rs"] size(1)
      by (simp add: word_less_nat_alt not_less del: unsigned_of_nat)
  qed
qed

lemma available_ids_add_scalar:
  assumes "ra_devices b = []"
  shows "available_device_ids rs (ra_add a b) g t = available_device_ids rs a g t"
  using assms by (simp add: available_device_ids_def holds_unknown_gpu_def device_ids_def ra_add_def)

lemma push_generic_scalars:
  "ra_cpus (push_generic gen a) = ra_cpus a" "ra_memory_mb (push_generic gen a) = ra_memory_mb a"
  "ra_generation (push_generic gen a) = ra_generation a"
  by (induction gen arbitrary: a) (auto simp: push_generic_def)

lemma pick_gpus_fold_scalars:
  "ra_cpus (foldl (pick_gpus_step rs cur) a reqs) = ra_cpus a"
  "ra_memory_mb (foldl (pick_gpus_step rs cur) a reqs) = ra_memory_mb a"
  "ra_generation (foldl (pick_gpus_step rs cur) a reqs) = ra_generation a"
  by (induction reqs arbitrary: a) (auto simp: pick_gpus_step_def Let_def)

text \<open>A node with two MI300X and one MI250, the first of them allocated.\<close>

definition sample_gpu :: "u64 \<Rightarrow> string \<Rightarrow> gpu_resource" where
  "sample_gpu i t = \<lparr>gr_device_id = ucast i, gr_gpu_type = t, gr_memory_mb = 196608, gr_peer_gpus = [],
     gr_link_type = XGMI, gr_stable_id = i, gr_topology = None\<rparr>"

definition sample_inventory :: resource_set where
  "sample_inventory = rs_default\<lparr>rs_cpus := 64, rs_memory_mb := 512000,
     rs_gpus := [sample_gpu 11 ''mi300x'', sample_gpu 12 ''mi300x'', sample_gpu 13 ''mi250'']\<rparr>"

definition sample_request :: resource_set where
  "sample_request = rs_default\<lparr>rs_cpus := 8, rs_memory_mb := 16000, rs_gpus := [sample_gpu 0 ''mi300x'']\<rparr>"

definition sample_current :: resource_allocations where
  "sample_current = (with_scalar 16 32000)\<lparr>ra_devices := [(gpu_gres, [injectable 11])]\<rparr>"

lemmas sample_defs = sample_gpu_def sample_inventory_def sample_request_def sample_current_def
  rs_default_def ra_default_def with_scalar_def injectable_def

lemmas sample_eval = build_node_allocation_def pick_gpus_step_def pick_devices_def available_device_ids_def
  holds_unknown_gpu_def device_ids_def push_generic_def ra_add_def add_devices_def hm_entry_def Let_def
  can_satisfy_with_allocated_def gpu_counts_def avail_gpu_counts_def total_device_count_def sat_sub_def sat_add_def

section \<open>Properties\<close>

text \<open>
  C19. Whatever order the request's GPU counts are visited in, the allocation built for a
  node names only GPUs of the node's inventory that are not already allocated, names each
  of them once, and carries the request's CPUs and memory and the inventory's generation.
  Inventories number their GPUs by distinct stable ids, and \<^verbatim>\<open>gpu\<close> is not the name of
  a countable resource.
\<close>

theorem build_node_allocation_sound:
  assumes "distinct (map gr_stable_id (rs_gpus inventory))" and "gpu_gres \<notin> set (hm_keys (rs_generic request))"
  shows "let alloc = build_node_allocation req_gpus inventory current_alloc request;
             ids = device_ids alloc gpu_gres
         in distinct ids \<and> set ids \<subseteq> gr_stable_id ` set (rs_gpus inventory)
            \<and> set ids \<inter> set (device_ids current_alloc gpu_gres) = {}
            \<and> ra_cpus alloc = rs_cpus request \<and> ra_memory_mb alloc = rs_memory_mb request
            \<and> ra_generation alloc = rs_generation inventory"
proof -
  define a0 where "a0 = (with_scalar (rs_cpus request) (rs_memory_mb request))\<lparr>ra_generation := rs_generation inventory\<rparr>"
  have "picks_ok inventory current_alloc a0"
    by (simp add: picks_ok_def a0_def with_scalar_def ra_default_def ra_ok_def device_ids_def)
  then have "picks_ok inventory current_alloc (foldl (pick_gpus_step inventory current_alloc) a0 req_gpus)"
    using assms(1) by (rule pick_gpus_fold_ok)
  then show ?thesis
    using assms(2)
    by (simp add: build_node_allocation_def a0_def [symmetric] picks_ok_def Let_def push_generic_gpu_ids
        push_generic_scalars pick_gpus_fold_scalars) (simp add: a0_def with_scalar_def)
qed

text \<open>
  C20. The admission test and the device picker agree: when a node passes
  \<^verbatim>\<open>can_satisfy_with_allocated\<close> for a request for GPUs of one type (or for
  \<^verbatim>\<open>any\<close>), the allocation built on it holds exactly as many GPUs as were asked
  for, distinct, free and of the type asked for, so a job is never started short of GPUs. Held GPUs are
  charged once each.
\<close>

theorem admitted_request_gets_its_gpus:
  assumes "can_satisfy_with_allocated inventory current_alloc request"
    and "\<forall>g \<in> set (rs_gpus request). gr_gpu_type g = t"
    and "gpus_held_once inventory current_alloc" and "distinct (map gr_stable_id (rs_gpus inventory))"
    and "length (rs_gpus inventory) < 2 ^ 32" and "length (rs_gpus request) < 2 ^ 32"
    and "gpu_gres \<notin> set (hm_keys (rs_generic request))"
    and "ids = device_ids (build_node_allocation (gpu_counts request) inventory current_alloc request) gpu_gres"
  shows "length ids = length (rs_gpus request) \<and> distinct ids \<and> set ids \<inter> set (device_ids current_alloc gpu_gres) = {}
    \<and> (\<forall>i \<in> set ids. \<exists>g \<in> set (rs_gpus inventory). gr_stable_id g = i \<and> (t = ''any'' \<or> gr_gpu_type g = t))"
proof -
  define a0 where "a0 = (with_scalar (rs_cpus request) (rs_memory_mb request))\<lparr>ra_generation := rs_generation inventory\<rparr>"
  define av where "av = available_device_ids inventory current_alloc gpu_gres (if t = ''any'' then None else Some t)"
  have a0: "ra_devices a0 = []" by (simp add: a0_def with_scalar_def ra_default_def)
  then have a0': "device_ids a0 gpu_gres = []" by (simp add: device_ids_def)
  have "ids = take (length (rs_gpus request)) av \<and> length ids = length (rs_gpus request)"
  proof (cases "rs_gpus request = []")
    case True
    then show ?thesis using assms(7,8) a0'
      by (simp add: build_node_allocation_def a0_def [symmetric] gpu_counts_def push_generic_gpu_ids)
  next
    case False
    note free = can_satisfy_free [OF assms(1,2) False assms(3-6)]
    have "unat (of_nat (length (rs_gpus request)) :: u32) = length (rs_gpus request)"
      using assms(6) by (rule unat_of_nat_u32)
    then show ?thesis
      using False assms(7,8) a0' free(2) available_device_ids_length [OF free(1), of t]
      by (simp add: av_def build_node_allocation_def a0_def [symmetric] gpu_counts_single [OF assms(2)]
          push_generic_gpu_ids pick_gpus_step_ids available_ids_add_scalar [OF a0] del: unsigned_of_nat)
  qed
  then have ids: "ids = take (length (rs_gpus request)) av" "length ids = length (rs_gpus request)" by auto
  have sub: "set ids \<subseteq> set av" unfolding ids(1) by (rule set_take_subset)
  have "distinct ids" unfolding ids(1) av_def using available_device_ids_distinct [OF assms(4)] by simp
  moreover have "set ids \<inter> set (device_ids current_alloc gpu_gres) = {}"
    using sub available_device_ids_props(2) by (fastforce simp: av_def)
  moreover have "\<forall>i \<in> set ids. \<exists>g \<in> set (rs_gpus inventory). gr_stable_id g = i \<and> (t = ''any'' \<or> gr_gpu_type g = t)"
    using sub available_device_ids_type [of _ inventory current_alloc t] by (auto simp: av_def)
  ultimately show ?thesis using ids(2) by simp
qed

lemma sample_ids: "distinct (map gr_stable_id (rs_gpus sample_inventory))"
  by (simp add: sample_defs)

lemma sample_no_generic: "gpu_gres \<notin> set (hm_keys (rs_generic sample_request))"
  by (simp add: sample_defs)

theorem build_node_allocation_sound_witness:
  "let ids = device_ids (build_node_allocation [(''mi300x'', 1), (''any'', 1)] sample_inventory sample_current sample_request) gpu_gres
   in ids = [12, 13] \<and> distinct ids \<and> set ids \<inter> set (device_ids sample_current gpu_gres) = {}"
  using build_node_allocation_sound [OF sample_ids sample_no_generic,
      of "[(''mi300x'', 1), (''any'', 1)]" sample_current]
  by (simp add: sample_defs sample_eval)

theorem admitted_request_gets_its_gpus_witness:
  "can_satisfy_with_allocated sample_inventory sample_current sample_request
   \<and> (\<exists>i. device_ids (build_node_allocation (gpu_counts sample_request) sample_inventory sample_current sample_request) gpu_gres = [i]
        \<and> (\<exists>g \<in> set (rs_gpus sample_inventory). gr_stable_id g = i \<and> gr_gpu_type g = ''mi300x''))"
proof -
  have sat: "can_satisfy_with_allocated sample_inventory sample_current sample_request" by (simp add: sample_defs sample_eval)
  have "gpus_held_once sample_inventory sample_current" "length (rs_gpus sample_inventory) < 2 ^ 32"
    "length (rs_gpus sample_request) < 2 ^ 32" "\<forall>g \<in> set (rs_gpus sample_request). gr_gpu_type g = ''mi300x''"
    by (simp_all add: sample_defs gpus_held_once_def)
  note got = admitted_request_gets_its_gpus [OF sat this(4,1) sample_ids this(2,3) sample_no_generic refl]
  moreover have "length (rs_gpus sample_request) = Suc 0" by (simp add: sample_request_def rs_default_def)
  ultimately show ?thesis using sat by (auto simp: length_Suc_conv)
qed

end
