(* ===== verification/Job_State.thy ===== *)
theory Job_State
  imports Resource
begin

text \<open>
  Job states, pending reasons and run keys (\<^verbatim>\<open>spur-core/src/job.rs\<close>, first half).
  Constructors of \<^verbatim>\<open>JobState\<close> keep their names; those of \<^verbatim>\<open>PendingReason\<close>
  carry the prefix \<open>PR_\<close>. The lemmas give the round trips between states, their printed names and
  their wire numbers, and the relation between the terminal, active and finalized classes.
\<close>

section \<open>Job states\<close>

type_synonym job_id = u32

definition default_priority :: u32 where
  "default_priority = 1000"

datatype job_state =
    Pending | Running | Completing | Completed | Failed | Cancelled | Timeout | NodeFail
    | Preempted | Suspended | Deadline | OutOfMemory | Requeued

definition oom_signal_flag :: int where
  "oom_signal_flag = 0x1000"

fun js_code :: "job_state \<Rightarrow> string" where
  "js_code Pending = ''PD''"
| "js_code Running = ''R''"
| "js_code Completing = ''CG''"
| "js_code Completed = ''CD''"
| "js_code Failed = ''F''"
| "js_code Cancelled = ''CA''"
| "js_code Timeout = ''TO''"
| "js_code NodeFail = ''NF''"
| "js_code Preempted = ''PR''"
| "js_code Suspended = ''S''"
| "js_code Deadline = ''DL''"
| "js_code OutOfMemory = ''OOM''"
| "js_code Requeued = ''RQ''"

fun js_display :: "job_state \<Rightarrow> string" where
  "js_display Pending = ''PENDING''"
| "js_display Running = ''RUNNING''"
| "js_display Completing = ''COMPLETING''"
| "js_display Completed = ''COMPLETED''"
| "js_display Failed = ''FAILED''"
| "js_display Cancelled = ''CANCELLED''"
| "js_display Timeout = ''TIMEOUT''"
| "js_display NodeFail = ''NODE_FAIL''"
| "js_display Preempted = ''PREEMPTED''"
| "js_display Suspended = ''SUSPENDED''"
| "js_display Deadline = ''DEADLINE''"
| "js_display OutOfMemory = ''OUT_OF_MEMORY''"
| "js_display Requeued = ''REQUEUED''"

fun sort_rank :: "job_state \<Rightarrow> u8" where
  "sort_rank Pending = 0"
| "sort_rank Running = 1"
| "sort_rank Suspended = 2"
| "sort_rank Completing = 3"
| "sort_rank Completed = 4"
| "sort_rank Cancelled = 5"
| "sort_rank Failed = 6"
| "sort_rank Timeout = 7"
| "sort_rank NodeFail = 8"
| "sort_rank Preempted = 9"
| "sort_rank Deadline = 10"
| "sort_rank OutOfMemory = 11"
| "sort_rank Requeued = 12"

definition is_terminal :: "job_state \<Rightarrow> bool" where
  "is_terminal s = (s \<in> {Completed, Failed, Cancelled, Timeout, NodeFail, Deadline, OutOfMemory})"

definition is_active :: "job_state \<Rightarrow> bool" where
  "is_active s = (s \<in> {Running, Completing, Suspended})"

definition is_finalized :: "job_state \<Rightarrow> bool" where
  "is_finalized s = (is_terminal s \<or> s \<in> {Preempted, Requeued})"

definition completion_state_for_exit_code :: "int \<Rightarrow> job_state" where
  "completion_state_for_exit_code exit_code = (if exit_code = 0 then Completed else Failed)"

datatype completion_report_state_error =
    InvalidCompletionState job_state
  | InvalidStateForExitCode job_state int job_state

fun validate_completion_report_state :: "job_state \<Rightarrow> int \<Rightarrow> completion_report_state_error + unit" where
  "validate_completion_report_state reported exit_code =
     (if reported = Completed \<or> reported = Failed then
        (let expected = completion_state_for_exit_code exit_code
         in if reported = expected then Inr ()
            else Inl (InvalidStateForExitCode reported exit_code expected))
      else Inl (InvalidCompletionState reported))"

definition all_job_states :: "job_state list" where
  "all_job_states = [
     Pending, Running, Completing, Completed, Failed, Cancelled, Timeout, NodeFail, Preempted
     , Suspended, Deadline, OutOfMemory, Requeued]"

text \<open>
  The generated wire enum, whose discriminants are declared in
  \<^verbatim>\<open>proto/slurm.proto\<close>.
\<close>

datatype proto_job_state =
    JobPending | JobRunning | JobCompleting | JobCompleted | JobFailed | JobCancelled
    | JobTimeout | JobNodeFail | JobPreempted | JobSuspended | JobDeadline | JobOutOfMemory
    | JobRequeued

fun js_from_proto :: "proto_job_state \<Rightarrow> job_state" where
  "js_from_proto JobPending = Pending"
| "js_from_proto JobRunning = Running"
| "js_from_proto JobCompleting = Completing"
| "js_from_proto JobCompleted = Completed"
| "js_from_proto JobFailed = Failed"
| "js_from_proto JobCancelled = Cancelled"
| "js_from_proto JobTimeout = Timeout"
| "js_from_proto JobNodeFail = NodeFail"
| "js_from_proto JobPreempted = Preempted"
| "js_from_proto JobSuspended = Suspended"
| "js_from_proto JobDeadline = Deadline"
| "js_from_proto JobOutOfMemory = OutOfMemory"
| "js_from_proto JobRequeued = Requeued"

fun js_to_proto :: "job_state \<Rightarrow> proto_job_state" where
  "js_to_proto Pending = JobPending"
| "js_to_proto Running = JobRunning"
| "js_to_proto Completing = JobCompleting"
| "js_to_proto Completed = JobCompleted"
| "js_to_proto Failed = JobFailed"
| "js_to_proto Cancelled = JobCancelled"
| "js_to_proto Timeout = JobTimeout"
| "js_to_proto NodeFail = JobNodeFail"
| "js_to_proto Preempted = JobPreempted"
| "js_to_proto Suspended = JobSuspended"
| "js_to_proto Deadline = JobDeadline"
| "js_to_proto OutOfMemory = JobOutOfMemory"
| "js_to_proto Requeued = JobRequeued"

fun proto_discriminant :: "proto_job_state \<Rightarrow> int" where
  "proto_discriminant JobPending = 0"
| "proto_discriminant JobRunning = 1"
| "proto_discriminant JobCompleting = 2"
| "proto_discriminant JobCompleted = 3"
| "proto_discriminant JobFailed = 4"
| "proto_discriminant JobCancelled = 5"
| "proto_discriminant JobTimeout = 6"
| "proto_discriminant JobNodeFail = 7"
| "proto_discriminant JobPreempted = 8"
| "proto_discriminant JobSuspended = 9"
| "proto_discriminant JobDeadline = 10"
| "proto_discriminant JobOutOfMemory = 11"
| "proto_discriminant JobRequeued = 12"

definition proto_try_from :: "int \<Rightarrow> proto_job_state option" where
  "proto_try_from v = find (\<lambda>p. proto_discriminant p = v) (map js_to_proto all_job_states)"

definition from_proto_i32 :: "int \<Rightarrow> job_state option" where
  "from_proto_i32 v = map_option js_from_proto (proto_try_from v)"

definition to_proto_i32 :: "job_state \<Rightarrow> int" where
  "to_proto_i32 s = proto_discriminant (js_to_proto s)"

definition from_code_or_name :: "string \<Rightarrow> job_state option" where
  "from_code_or_name s =
     (let upper = to_uppercase s in find (\<lambda>st. js_code st = upper \<or> js_display st = upper) all_job_states)"

section \<open>Run keys and ledger dispositions\<close>

record run_key =
  rk_job_id :: job_id
  rk_run_attempt :: "u32 option"

definition run_key_new :: "job_id \<Rightarrow> u32 \<Rightarrow> run_key option" where
  "run_key_new job_id run_attempt =
     (if 0 < run_attempt then Some \<lparr>rk_job_id = job_id, rk_run_attempt = Some run_attempt\<rparr> else None)"

definition any_attempt :: "job_id \<Rightarrow> run_key" where
  "any_attempt job_id = \<lparr>rk_job_id = job_id, rk_run_attempt = None\<rparr>"

definition names_attempt :: "run_key \<Rightarrow> u32 \<Rightarrow> bool" where
  "names_attempt k attempt = (case rk_run_attempt k of None \<Rightarrow> True | Some named \<Rightarrow> named = attempt)"

definition run_key_display :: "run_key \<Rightarrow> string" where
  "run_key_display k = (case rk_run_attempt k of
       Some attempt \<Rightarrow> show_word (rk_job_id k) @ ''.'' @ show_word attempt
     | None \<Rightarrow> show_word (rk_job_id k) @ ''.*'')"

datatype ledger_disposition = LedgerHeld | OverButCharged | LedgerUnresolved

fun ld_as_str :: "ledger_disposition \<Rightarrow> string" where
  "ld_as_str LedgerHeld = ''held''"
| "ld_as_str OverButCharged = ''over_but_charged''"
| "ld_as_str LedgerUnresolved = ''unresolved''"

definition ld_from_wire :: "string \<Rightarrow> ledger_disposition option" where
  "ld_from_wire d =
     (if d = [] \<or> d = ''held'' then Some LedgerHeld
      else if d = ''over_but_charged'' then Some OverButCharged
      else if d = ''unresolved'' then Some LedgerUnresolved
      else None)"

definition already_accounted_for :: "ledger_disposition \<Rightarrow> bool" where
  "already_accounted_for d = (d \<in> {OverButCharged, LedgerUnresolved})"

definition may_be_settled :: "ledger_disposition \<Rightarrow> bool" where
  "may_be_settled d = (d = OverButCharged)"

section \<open>Pending reasons\<close>

datatype (plugins only: code) pending_reason =
    PR_None | PR_Priority | PR_Resources | PR_PartitionDown | PR_PartitionNodeLimit
    | PR_PartitionTimeLimit | PR_Dependency | PR_NodeDown | PR_Held | PR_QoSMaxJobsPerUser
    | PR_ReqNodeNotAvail | PR_BeginTime | PR_DeadLine | PR_TimeLimit | PR_Licenses
    | PR_JobArrayTaskLimit | PR_NonZeroExitCode | PR_RaisedSignal | PR_JobLaunchFailure
    | PR_JobHeldAdmin | PR_BadConstraints | PR_PartitionInactive | PR_PartitionConfig
    | PR_DependencyNeverSatisfied | PR_InvalidAccount | PR_InvalidQOS | PR_BootFail
    | PR_OutOfMemory | PR_Reservation | PR_QosMaxCpuPerJobLimit
    | PR_QosMaxWallDurationPerJobLimit | PR_QosMaxMemoryPerJob | PR_QosMaxCpuPerUserLimit
    | PR_QosMaxNodePerUserLimit | PR_QosMaxMemoryPerUser | PR_QosMaxSubmitJobPerUserLimit
    | PR_QosMaxNodePerJobLimit | PR_QosMaxGpuPerJobLimit | PR_QosMaxGpuPerUserLimit
    | PR_QosGrpCpuLimit | PR_QosGrpMemLimit | PR_QosGrpNodeLimit | PR_QosGrpGpuLimit
    | PR_QosGrpWallLimit | PR_BurstBufferResources | PR_BurstBufferStageIn
    | PR_ReservedMaintenance | PR_ReservationDeleted | PR_JobHoldMaxRequeue
    | PR_AssocMaxJobsLimit | PR_AssocMaxSubmitJobLimit | PR_AssocMaxCpuPerJobLimit
    | PR_AssocMaxNodePerJobLimit | PR_AssocMaxMemPerJob | PR_AssocMaxGpuPerJobLimit
    | PR_AssocGrpCpuLimit | PR_AssocGrpNodeLimit | PR_AssocGrpMemLimit | PR_AssocGrpGpuLimit
    | PR_AssocMaxWallDurationPerJobLimit | PR_AssocGrpSubmitJobsLimit | PR_QosGrpSubmitJobsLimit
    | PR_QosMaxSubmitJobPerAccountLimit | PR_K8sReserved | PR_Preempted
    | PR_AccountingUnavailable | PR_NodeConfigUnavailable

definition is_scheduling_hold :: "pending_reason \<Rightarrow> bool" where
  "is_scheduling_hold r = (r \<in> {PR_Held, PR_JobHeldAdmin, PR_JobHoldMaxRequeue, PR_ReservationDeleted})"

definition explains_begin_hold :: "pending_reason \<Rightarrow> bool" where
  "explains_begin_hold r = (r \<in> {PR_BeginTime, PR_JobLaunchFailure, PR_Preempted})"

definition pr_display :: "pending_reason \<Rightarrow> string" where
  "pr_display r = (case r of
       PR_None \<Rightarrow> ''None''
     | PR_Priority \<Rightarrow> ''Priority''
     | PR_Resources \<Rightarrow> ''Resources''
     | PR_PartitionDown \<Rightarrow> ''PartitionDown''
     | PR_PartitionNodeLimit \<Rightarrow> ''PartitionNodeLimit''
     | PR_PartitionTimeLimit \<Rightarrow> ''PartitionTimeLimit''
     | PR_Dependency \<Rightarrow> ''Dependency''
     | PR_NodeDown \<Rightarrow> ''NodeDown''
     | PR_Held \<Rightarrow> ''JobHeldUser''
     | PR_QoSMaxJobsPerUser \<Rightarrow> ''QOSMaxJobsPerUserLimit''
     | PR_ReqNodeNotAvail \<Rightarrow> ''ReqNodeNotAvail''
     | PR_BeginTime \<Rightarrow> ''BeginTime''
     | PR_DeadLine \<Rightarrow> ''DeadLine''
     | PR_TimeLimit \<Rightarrow> ''TimeLimit''
     | PR_Licenses \<Rightarrow> ''Licenses''
     | PR_JobArrayTaskLimit \<Rightarrow> ''JobArrayTaskLimit''
     | PR_NonZeroExitCode \<Rightarrow> ''NonZeroExitCode''
     | PR_RaisedSignal \<Rightarrow> ''RaisedSignal''
     | PR_JobLaunchFailure \<Rightarrow> ''JobLaunchFailure''
     | PR_JobHeldAdmin \<Rightarrow> ''JobHeldAdmin''
     | PR_BadConstraints \<Rightarrow> ''BadConstraints''
     | PR_PartitionInactive \<Rightarrow> ''PartitionInactive''
     | PR_PartitionConfig \<Rightarrow> ''PartitionConfig''
     | PR_DependencyNeverSatisfied \<Rightarrow> ''DependencyNeverSatisfied''
     | PR_InvalidAccount \<Rightarrow> ''InvalidAccount''
     | PR_InvalidQOS \<Rightarrow> ''InvalidQOS''
     | PR_BootFail \<Rightarrow> ''BootFailure''
     | PR_OutOfMemory \<Rightarrow> ''OutOfMemory''
     | PR_Reservation \<Rightarrow> ''Reservation''
     | PR_QosMaxCpuPerJobLimit \<Rightarrow> ''QOSMaxCpuPerJobLimit''
     | PR_QosMaxWallDurationPerJobLimit \<Rightarrow> ''QOSMaxWallDurationPerJobLimit''
     | PR_QosMaxMemoryPerJob \<Rightarrow> ''QOSMaxMemoryPerJob''
     | PR_QosMaxCpuPerUserLimit \<Rightarrow> ''QOSMaxCpuPerUserLimit''
     | PR_QosMaxNodePerUserLimit \<Rightarrow> ''QOSMaxNodePerUserLimit''
     | PR_QosMaxMemoryPerUser \<Rightarrow> ''QOSMaxMemoryPerUser''
     | PR_QosMaxSubmitJobPerUserLimit \<Rightarrow> ''QOSMaxSubmitJobPerUserLimit''
     | PR_QosMaxNodePerJobLimit \<Rightarrow> ''QOSMaxNodePerJobLimit''
     | PR_QosMaxGpuPerJobLimit \<Rightarrow> ''QOSMaxGRESPerJob''
     | PR_QosMaxGpuPerUserLimit \<Rightarrow> ''QOSMaxGRESPerUser''
     | PR_QosGrpCpuLimit \<Rightarrow> ''QOSGrpCpuLimit''
     | PR_QosGrpMemLimit \<Rightarrow> ''QOSGrpMemLimit''
     | PR_QosGrpNodeLimit \<Rightarrow> ''QOSGrpNodeLimit''
     | PR_QosGrpGpuLimit \<Rightarrow> ''QOSGrpGRES''
     | PR_QosGrpWallLimit \<Rightarrow> ''QOSGrpWallLimit''
     | PR_BurstBufferResources \<Rightarrow> ''BurstBufferResources''
     | PR_BurstBufferStageIn \<Rightarrow> ''BurstBufferStageIn''
     | PR_ReservedMaintenance \<Rightarrow> ''ReqNodeNotAvail, Reserved for maintenance''
     | PR_ReservationDeleted \<Rightarrow> ''ReservationDeleted''
     | PR_JobHoldMaxRequeue \<Rightarrow> ''JobHoldMaxRequeue''
     | PR_AssocMaxJobsLimit \<Rightarrow> ''AssocMaxJobsLimit''
     | PR_AssocMaxSubmitJobLimit \<Rightarrow> ''AssocMaxSubmitJobLimit''
     | PR_AssocMaxCpuPerJobLimit \<Rightarrow> ''AssocMaxCpuPerJobLimit''
     | PR_AssocMaxNodePerJobLimit \<Rightarrow> ''AssocMaxNodePerJobLimit''
     | PR_AssocMaxMemPerJob \<Rightarrow> ''AssocMaxMemPerJob''
     | PR_AssocMaxGpuPerJobLimit \<Rightarrow> ''AssocMaxGRESPerJob''
     | PR_AssocGrpCpuLimit \<Rightarrow> ''AssocGrpCpuLimit''
     | PR_AssocGrpNodeLimit \<Rightarrow> ''AssocGrpNodeLimit''
     | PR_AssocGrpMemLimit \<Rightarrow> ''AssocGrpMemLimit''
     | PR_AssocGrpGpuLimit \<Rightarrow> ''AssocGrpGRES''
     | PR_AssocMaxWallDurationPerJobLimit \<Rightarrow> ''AssocMaxWallDurationPerJobLimit''
     | PR_AssocGrpSubmitJobsLimit \<Rightarrow> ''AssocGrpSubmitJobsLimit''
     | PR_QosGrpSubmitJobsLimit \<Rightarrow> ''QOSGrpSubmitJobsLimit''
     | PR_QosMaxSubmitJobPerAccountLimit \<Rightarrow> ''MaxSubmitJobsPerAccount''
     | PR_K8sReserved \<Rightarrow> ''ReqNodeNotAvail, Reserved for Kubernetes cluster''
     | PR_Preempted \<Rightarrow> ''Preempted''
     | PR_AccountingUnavailable \<Rightarrow> ''AccountingUnavailable''
     | PR_NodeConfigUnavailable \<Rightarrow> ''ReqNodeNotAvail, Requested node configuration is not available'')"

definition submit_denial_message :: "pending_reason \<Rightarrow> string" where
  "submit_denial_message r =
     (if r = PR_AssocMaxSubmitJobLimit then
        ''you have reached the maximum submitted (pending + running) jobs for your association''
      else if r = PR_AssocGrpSubmitJobsLimit then
        ''your association has reached its aggregate submitted-jobs limit''
      else if r = PR_AssocMaxWallDurationPerJobLimit then
        ''the requested wall time exceeds your association's per-job limit''
      else if r = PR_QosMaxSubmitJobPerUserLimit then
        ''you have reached the QOS limit on submitted jobs per user''
      else if r = PR_QosMaxSubmitJobPerAccountLimit then
        ''your account has reached the QOS limit on submitted jobs per account''
      else if r = PR_QosGrpSubmitJobsLimit then
        ''the QOS has reached its aggregate submitted-jobs limit''
      else if r = PR_QosMaxWallDurationPerJobLimit then
        ''the requested wall time exceeds the QOS per-job limit''
      else ''the job exceeds a configured accounting or QOS limit'')"

end
