(* ===== verification/Partition.thy ===== *)
theory Partition
  imports Job_State
begin

text \<open>
  Partitions (\<^verbatim>\<open>spur-core/src/partition.rs\<close>) and the burst-buffer capacity
  grammar (\<^verbatim>\<open>spur-core/src/burst_buffer.rs\<close>).
\<close>

section \<open>Partitions\<close>

datatype partition_state = PartUp | PartDown | PartDrain | PartInactive

fun part_state_display :: "partition_state \<Rightarrow> string" where
  "part_state_display PartUp = ''up''"
| "part_state_display PartDown = ''down''"
| "part_state_display PartDrain = ''drain''"
| "part_state_display PartInactive = ''inactive''"

datatype preempt_type = PreemptNone | QosPriority

datatype preempt_mode = PmOff | PmCancel | PmRequeue | PmSuspend

fun aggressiveness :: "preempt_mode \<Rightarrow> u8" where
  "aggressiveness PmOff = 0"
| "aggressiveness PmSuspend = 1"
| "aggressiveness PmRequeue = 2"
| "aggressiveness PmCancel = 3"

record partition =
  p_name :: string
  p_state :: partition_state
  p_is_default :: bool
  p_nodes :: string
  p_selector :: "(string, string) hashmap"
  p_max_time_minutes :: "u32 option"
  p_default_time_minutes :: "u32 option"
  p_max_nodes :: "u32 option"
  p_min_nodes :: u32
  p_allow_root :: bool
  p_exclusive_user :: bool
  p_allow_accounts :: "string list"
  p_allow_groups :: "string list"
  p_allow_qos :: "string list"
  p_deny_accounts :: "string list"
  p_deny_qos :: "string list"
  p_preempt_mode :: "preempt_mode option"
  p_priority_tier :: u32
  p_preempt_exempt_time :: "u32 option"
  p_grace_time :: "u32 option"

definition partition_default :: partition where
  "partition_default = \<lparr>p_name = [], p_state = PartUp, p_is_default = False, p_nodes = [], p_selector = [],
     p_max_time_minutes = None, p_default_time_minutes = None, p_max_nodes = None, p_min_nodes = 1,
     p_allow_root = True, p_exclusive_user = False, p_allow_accounts = [], p_allow_groups = [],
     p_allow_qos = [], p_deny_accounts = [], p_deny_qos = [], p_preempt_mode = None, p_priority_tier = 1,
     p_preempt_exempt_time = None, p_grace_time = None\<rparr>"

definition parse_preempt_mode :: "string \<Rightarrow> string + preempt_mode option" where
  "parse_preempt_mode s =
     (let v = to_lowercase (str_trim s)
      in if v = [] \<or> v = ''none'' then Inr None
         else if v = ''off'' then Inr (Some PmOff)
         else if v = ''cancel'' then Inr (Some PmCancel)
         else if v = ''requeue'' then Inr (Some PmRequeue)
         else if v = ''suspend'' then Inr (Some PmSuspend)
         else Inl (''unknown preempt_mode '' @ [CHR 0x27] @ v @ [CHR 0x27] @
                ''; expected none, off, cancel, requeue, or suspend''))"

fun preempt_mode_str :: "preempt_mode option \<Rightarrow> string" where
  "preempt_mode_str None = []"
| "preempt_mode_str (Some PmOff) = ''OFF''"
| "preempt_mode_str (Some PmCancel) = ''CANCEL''"
| "preempt_mode_str (Some PmRequeue) = ''REQUEUE''"
| "preempt_mode_str (Some PmSuspend) = ''SUSPEND''"

definition requested_partition_names :: "string option \<Rightarrow> string list" where
  "requested_partition_names spec =
     (case spec of None \<Rightarrow> []
      | Some s \<Rightarrow> filter (\<lambda>n. n \<noteq> []) (map str_trim (str_split (CHR '','') s)))"

definition matched_partitions :: "string option \<Rightarrow> partition list \<Rightarrow> partition list" where
  "matched_partitions spec partitions =
     List.map_filter (\<lambda>req. find (\<lambda>p. p_name p = req) partitions) (requested_partition_names spec)"

definition max_priority_tier :: "string option \<Rightarrow> partition list \<Rightarrow> u32" where
  "max_priority_tier spec partitions =
     (case map p_priority_tier (matched_partitions spec partitions) of
        [] \<Rightarrow> 1
      | t # ts \<Rightarrow> foldl max t ts)"

lemma preempt_mode_roundtrip: "parse_preempt_mode (preempt_mode_str m) = Inr m"
proof -
  have "parse_preempt_mode [] = Inr None" "parse_preempt_mode ''OFF'' = Inr (Some PmOff)"
    "parse_preempt_mode ''CANCEL'' = Inr (Some PmCancel)" "parse_preempt_mode ''REQUEUE'' = Inr (Some PmRequeue)"
    "parse_preempt_mode ''SUSPEND'' = Inr (Some PmSuspend)"
    by code_simp+
  then show ?thesis by (cases m rule: preempt_mode_str.cases) simp_all
qed

lemma matched_partitions_named:
  "p \<in> set (matched_partitions spec ps) \<Longrightarrow>
     p \<in> set ps \<and> p_name p \<in> set (requested_partition_names spec)"
  by (auto simp: matched_partitions_def set_map_filter dest: find_Some_mem)

section \<open>Burst buffers\<close>

datatype bb_stage_state = BbNone | BbStaging | BbReady

definition strip_prefix :: "string \<Rightarrow> string \<Rightarrow> string option" where
  "strip_prefix p s = (if take (length p) s = p then Some (drop (length p) s) else None)"

definition parse_u64 :: "string \<Rightarrow> u64 option" where
  "parse_u64 s = map_option of_nat (parse_uint 64 s)"

definition parse_capacity_gb :: "string \<Rightarrow> u64" where
  "parse_capacity_gb bb =
     foldl (\<lambda>total directive.
        (case strip_prefix ''capacity='' (str_trim directive) of
           None \<Rightarrow> total
         | Some val \<Rightarrow>
             (case parse_u64 (takeWhile (\<lambda>c. char_digit c \<noteq> None) (str_trim val)) of
                None \<Rightarrow> total
              | Some n \<Rightarrow> sat_add total n)))
       0 (str_split (CHR '';'') bb)"

definition free_capacity_gb :: "u64 \<Rightarrow> u64 \<Rightarrow> u64" where
  "free_capacity_gb total_gb used_gb = sat_sub total_gb used_gb"

end
