(* ===== verification/Job_Spec.thy ===== *)
theory Job_Spec
  imports Partition
begin

text \<open>
  What a user submits: \<^verbatim>\<open>JobSpec\<close> of \<^verbatim>\<open>spur-core/src/job.rs\<close>
  with all its fields, the GPU request it carries (\<^verbatim>\<open>gpu_request.rs\<close>) and the job
  size derived from it.
\<close>

record gpu_request =
  gq_count :: u32
  gq_gpu_type :: "string option"

record job_spec =
  js_name :: string
  js_partition :: "string option"
  js_account :: "string option"
  js_user :: string
  js_uid :: u32
  js_gid :: u32
  js_num_nodes :: u32
  js_num_tasks :: u32
  js_tasks_per_node :: "u32 option"
  js_cpus_per_task :: u32
  js_memory_per_node_mb :: "u64 option"
  js_memory_per_cpu_mb :: "u64 option"
  js_gres :: "string list"
  js_gpus :: "gpu_request option"
  js_gpus_per_node :: "gpu_request option"
  js_gpus_per_task :: "gpu_request option"
  js_script :: "string option"
  js_argv :: "string list"
  js_script_args :: "string list"
  js_work_dir :: string
  js_stdout_path :: "string option"
  js_stderr_path :: "string option"
  js_stdin_path :: "string option"
  js_environment :: "(string, string) hashmap"
  js_time_limit :: "duration option"
  js_time_min :: "duration option"
  js_qos :: "string option"
  js_priority :: "u32 option"
  js_reservation :: "string option"
  js_dependency :: "string list"
  js_nodelist :: "string option"
  js_exclude :: "string option"
  js_constraint :: "string option"
  js_mpi :: "string option"
  js_distribution :: "string option"
  js_het_group :: "u32 option"
  js_array_spec :: "string option"
  js_array_job_id :: "job_id option"
  js_array_task_id :: "u32 option"
  js_array_max_concurrent :: "u32 option"
  js_requeue :: bool
  js_exclusive :: bool
  js_hold :: bool
  js_interactive :: bool
  js_srun_job :: bool
  js_mail_type :: "string list"
  js_mail_user :: "string option"
  js_comment :: "string option"
  js_wckey :: "string option"
  js_container_image :: "string option"
  js_container_mounts :: "string list"
  js_container_workdir :: "string option"
  js_container_name :: "string option"
  js_container_readonly :: bool
  js_container_mount_home :: bool
  js_container_env :: "(string, string) hashmap"
  js_container_entrypoint :: "string option"
  js_container_remap_root :: bool
  js_burst_buffer :: "string option"
  js_begin_time :: "instant option"
  js_deadline :: "instant option"
  js_spread_job :: bool
  js_topology :: "string option"
  js_host_network :: bool
  js_privileged :: bool
  js_host_ipc :: bool
  js_shm_size :: "string option"
  js_extra_resources :: "(string, string) hashmap"
  js_open_mode :: "string option"
  js_pty :: bool
  js_submit_line :: "string option"
  js_client_keepalive :: bool

definition job_spec_default :: job_spec where
  "job_spec_default = \<lparr>
     js_name = [], js_partition = None, js_account = None, js_user = [], js_uid = 0, js_gid = 0,
     js_num_nodes = 1, js_num_tasks = 1, js_tasks_per_node = None, js_cpus_per_task = 1,
     js_memory_per_node_mb = None, js_memory_per_cpu_mb = None, js_gres = [], js_gpus = None,
     js_gpus_per_node = None, js_gpus_per_task = None, js_script = None, js_argv = [],
     js_script_args = [], js_work_dir = ''/tmp'', js_stdout_path = None, js_stderr_path = None,
     js_stdin_path = None, js_environment = [], js_time_limit = None, js_time_min = None,
     js_qos = None, js_priority = None, js_reservation = None, js_dependency = [],
     js_nodelist = None, js_exclude = None, js_constraint = None, js_mpi = None,
     js_distribution = None, js_het_group = None, js_array_spec = None, js_array_job_id = None,
     js_array_task_id = None, js_array_max_concurrent = None, js_requeue = False,
     js_exclusive = False, js_hold = False, js_interactive = False, js_srun_job = False,
     js_mail_type = [], js_mail_user = None, js_comment = None, js_wckey = None,
     js_container_image = None, js_container_mounts = [], js_container_workdir = None,
     js_container_name = None, js_container_readonly = False, js_container_mount_home = False,
     js_container_env = [], js_container_entrypoint = None, js_container_remap_root = False,
     js_burst_buffer = None, js_begin_time = None, js_deadline = None, js_spread_job = False,
     js_topology = None, js_host_network = False, js_privileged = False, js_host_ipc = False,
     js_shm_size = None, js_extra_resources = [], js_open_mode = None, js_pty = False,
     js_submit_line = None, js_client_keepalive = False\<rparr>"

definition effective_num_nodes :: "job_spec \<Rightarrow> u32" where
  "effective_num_nodes spec =
     (let nodes = max (js_num_nodes spec) 1
      in if js_tasks_per_node spec \<noteq> None then nodes else min nodes (max (js_num_tasks spec) 1))"

definition effective_memory_mb :: "job_spec \<Rightarrow> u32 \<Rightarrow> u64" where
  "effective_memory_mb spec num_nodes =
     (case js_memory_per_node_mb spec of
        Some mem \<Rightarrow> mem * ucast num_nodes
      | None \<Rightarrow>
          (case js_memory_per_cpu_mb spec of
             Some mem \<Rightarrow> mem * ucast (js_num_tasks spec) * ucast (js_cpus_per_task spec)
           | None \<Rightarrow> 0))"

lemma effective_num_nodes_pos: "0 < effective_num_nodes spec"
  by (auto simp: effective_num_nodes_def Let_def max_def min_def word_neq_0_conv [symmetric] split: if_splits)

end
