(* ===== verification/Step.thy ===== *)
theory Step
  imports Job_Spec
begin

text \<open>
  Job steps (\<^verbatim>\<open>spur-core/src/step.rs\<close>): step ids and names, the step record, the
  distribution of tasks over nodes and the binding options. The lemmas show that every
  distribution policy places every task and gives each node the same, balanced, number of them.
\<close>

section \<open>Step ids and names\<close>

type_synonym step_id = u32

definition step_batch :: step_id where
  "step_batch = 0xFFFFFFFB"

definition step_extern :: step_id where
  "step_extern = 0xFFFFFFFC"

definition step_interactive :: step_id where
  "step_interactive = 0xFFFFFFFA"

definition step_reserved_min :: step_id where
  "step_reserved_min = 0xFFFFFFF0"

definition is_user_step :: "step_id \<Rightarrow> bool" where
  "is_user_step step_id = (step_id < step_reserved_min)"

definition owns_job_lifetime :: "step_id \<Rightarrow> bool" where
  "owns_job_lifetime step_id = (\<not> is_user_step step_id \<and> step_id \<noteq> step_interactive)"

definition default_step_id :: step_id where
  "default_step_id = step_batch"

definition step_display_name :: "step_id \<Rightarrow> string" where
  "step_display_name step_id =
     (if step_id = step_batch then ''batch''
      else if step_id = step_extern then ''extern''
      else if step_id = step_interactive then ''interactive''
      else show_word step_id)"

definition step_dir_name :: "step_id \<Rightarrow> string" where
  "step_dir_name step_id = ''step_'' @ step_display_name step_id"

definition max_step_name_bytes :: nat where
  "max_step_name_bytes = 256"

definition step_name_truncation_marker :: string where
  "step_name_truncation_marker = ''...''"

text \<open>
  \<^verbatim>\<open>str::floor_char_boundary\<close> on the bytes of a string: the largest index at most \<open>n\<close> that
  does not fall inside a character, a continuation byte being one of 0x80 to 0xBF.
\<close>

definition is_char_boundary :: "string \<Rightarrow> nat \<Rightarrow> bool" where
  "is_char_boundary s n =
     (n = 0 \<or> n = length s \<or>
      (n < length s \<and> (let b = of_char (s ! n) :: nat in b < 128 \<or> 192 \<le> b)))"

fun floor_char_boundary :: "string \<Rightarrow> nat \<Rightarrow> nat" where
  "floor_char_boundary s 0 = 0"
| "floor_char_boundary s (Suc n) =
     (if length s \<le> Suc n then length s
      else if is_char_boundary s (Suc n) then Suc n else floor_char_boundary s n)"

definition truncate_step_name :: "string \<Rightarrow> string" where
  "truncate_step_name name =
     (if length name \<le> max_step_name_bytes then name
      else take (floor_char_boundary name (max_step_name_bytes - length step_name_truncation_marker)) name
             @ step_name_truncation_marker)"

section \<open>Steps\<close>

datatype step_state = StepPending | StepRunning | StepCompleted | StepFailed | StepCancelled

definition step_is_terminal :: "step_state \<Rightarrow> bool" where
  "step_is_terminal s = (s \<in> {StepCompleted, StepFailed, StepCancelled})"

fun step_state_display :: "step_state \<Rightarrow> string" where
  "step_state_display StepPending = ''PENDING''"
| "step_state_display StepRunning = ''RUNNING''"
| "step_state_display StepCompleted = ''COMPLETED''"
| "step_state_display StepFailed = ''FAILED''"
| "step_state_display StepCancelled = ''CANCELLED''"

datatype task_distribution = DistBlock | DistCyclic | DistPlane | DistArbitrary

record job_step =
  st_job_id :: job_id
  st_step_id :: step_id
  st_name :: string
  st_state :: step_state
  st_num_tasks :: u32
  st_cpus_per_task :: u32
  st_resources :: resource_allocations
  st_nodes :: "string list"
  st_distribution :: task_distribution
  st_start_time :: "instant option"
  st_end_time :: "instant option"
  st_exit_code :: "int option"
  st_pty :: bool
  st_job_shell :: bool

definition distribution_from_str :: "string \<Rightarrow> task_distribution" where
  "distribution_from_str s =
     (let l = to_lowercase s
      in if l = ''cyclic'' then DistCyclic
         else if l = ''plane'' then DistPlane
         else if l = ''arbitrary'' then DistArbitrary
         else DistBlock)"

text \<open>The two loops of \<^verbatim>\<open>distribute_tasks\<close>.\<close>

definition fill_blocks :: "u32 \<Rightarrow> u32 \<Rightarrow> u32 list" where
  "fill_blocks num_tasks num_nodes =
     (let per_node = num_tasks div num_nodes; remainder = num_tasks mod num_nodes
      in concat (map (\<lambda>node. replicate (unat (per_node + (if node < remainder then 1 else 0))) node)
           (map of_nat [0..<unat num_nodes])))"

definition round_robin :: "u32 \<Rightarrow> u32 \<Rightarrow> u32 list" where
  "round_robin num_tasks num_nodes = map (\<lambda>task. of_nat task mod num_nodes) [0..<unat num_tasks]"

fun distribute_tasks :: "u32 \<Rightarrow> u32 \<Rightarrow> task_distribution \<Rightarrow> u32 list" where
  "distribute_tasks num_tasks num_nodes DistBlock = fill_blocks num_tasks (max num_nodes 1)"
| "distribute_tasks num_tasks num_nodes DistCyclic = round_robin num_tasks (max num_nodes 1)"
| "distribute_tasks num_tasks num_nodes DistPlane = fill_blocks num_tasks (max num_nodes 1)"
| "distribute_tasks num_tasks num_nodes DistArbitrary = round_robin num_tasks (max num_nodes 1)"

datatype cpu_bind = CpuBindNone | CpuBindCores | CpuBindThreads | CpuBindSockets | CpuBindLdoms
  | CpuBindRank | CpuBindMap string | CpuBindMask string

definition starts_with :: "string \<Rightarrow> string \<Rightarrow> bool" where
  "starts_with p s = (take (length p) s = p)"

definition cpu_bind_from_str :: "string \<Rightarrow> cpu_bind" where
  "cpu_bind_from_str s =
     (let lower = to_lowercase s
      in if starts_with ''map_cpu:'' lower then CpuBindMap (drop 8 s)
         else if starts_with ''mask_cpu:'' lower then CpuBindMask (drop 9 s)
         else if lower = ''cores'' then CpuBindCores
         else if lower = ''threads'' then CpuBindThreads
         else if lower = ''sockets'' then CpuBindSockets
         else if lower = ''ldoms'' then CpuBindLdoms
         else if lower = ''rank'' then CpuBindRank
         else CpuBindNone)"

datatype gpu_bind = GpuBindNone | GpuBindClosest | GpuBindMap string | GpuBindMask string

definition gpu_bind_from_str :: "string \<Rightarrow> gpu_bind" where
  "gpu_bind_from_str s =
     (let lower = to_lowercase s
      in if starts_with ''map_gpu:'' lower then GpuBindMap (drop 8 s)
         else if starts_with ''mask_gpu:'' lower then GpuBindMask (drop 9 s)
         else if lower = ''closest'' then GpuBindClosest
         else GpuBindNone)"

section \<open>Lemmas\<close>

lemma floor_char_boundary_le: "floor_char_boundary s n \<le> n"
  by (induction s n rule: floor_char_boundary.induct) auto

lemma truncate_step_name_length: "length (truncate_step_name name) \<le> max_step_name_bytes"
  using floor_char_boundary_le [of name 253]
  by (auto simp: truncate_step_name_def max_step_name_bytes_def step_name_truncation_marker_def)

lemma truncate_step_name_idem: "truncate_step_name (truncate_step_name name) = truncate_step_name name"
  using truncate_step_name_length [of name] by (subst (1) truncate_step_name_def) simp

lemma step_ids_partition: "is_user_step i \<or> owns_job_lifetime i \<or> i = step_interactive"
  by (auto simp: owns_job_lifetime_def)

text \<open>The share of node \<open>i\<close> when \<open>t\<close> tasks are spread over \<open>n\<close> nodes.\<close>

definition task_share :: "nat \<Rightarrow> nat \<Rightarrow> nat \<Rightarrow> nat" where
  "task_share t n i = t div n + (if i < t mod n then 1 else 0)"

lemma unat_block_size:
  fixes t n :: u32
  assumes "0 < n"
  shows "unat (t div n + (if node < t mod n then 1 else 0)) = task_share (unat t) (unat n) (unat node)"
proof (cases "node < t mod n")
  case True
  then have "unat node < unat t mod unat n" by (simp add: word_less_nat_alt unat_mod)
  moreover have "unat t < 2 ^ LENGTH(32)" by (rule unsigned_less)
  ultimately have "unat t div unat n + 1 < 2 ^ LENGTH(32)"
  proof -
    have "unat t div unat n * unat n + unat t mod unat n = unat t" by simp
    moreover have "unat t div unat n \<le> unat t div unat n * unat n"
      using assms by (simp add: word_less_nat_alt)
    ultimately show ?thesis
      using \<open>unat node < unat t mod unat n\<close> \<open>unat t < 2 ^ LENGTH(32)\<close> by linarith
  qed
  then show ?thesis
    using True by (simp add: task_share_def word_less_nat_alt unat_mod unat_word_ariths unat_div)
next
  case False
  then show ?thesis by (simp add: task_share_def word_less_nat_alt unat_mod unat_div)
qed

lemma task_share_Suc:
  assumes "i < n"
  shows "task_share (Suc t) n i = task_share t n i + (if t mod n = i then 1 else 0)"
  using assms mod_less_divisor [of n t] by (auto simp: task_share_def mod_Suc div_Suc)

lemma task_share_sum: "0 < n \<Longrightarrow> (\<Sum>i = 0..<n. task_share t n i) = t"
proof (induction t)
  case 0
  then show ?case by (simp add: task_share_def)
next
  case (Suc t)
  then have "(\<Sum>i = 0..<n. task_share (Suc t) n i) = (\<Sum>i = 0..<n. task_share t n i + (if t mod n = i then 1 else 0))"
    by (intro sum.cong) (auto simp: task_share_Suc)
  also have "\<dots> = t + (\<Sum>i = 0..<n. if t mod n = i then 1 else 0)"
    using Suc by (simp add: sum.distrib)
  finally show ?case using Suc.prems by simp
qed

lemma count_list_replicate_eq: "count_list (replicate n x) y = (if x = y then n else 0)"
  by (induction n) auto

lemma count_list_blocks:
  "distinct ks \<Longrightarrow>
     count_list (concat (map (\<lambda>k. replicate (f k) k) ks)) x = (if x \<in> set ks then f x else 0)"
  by (induction ks) (auto simp: count_list_replicate_eq)

lemma node_indices:
  fixes n :: u32
  shows "distinct (map (of_nat :: nat \<Rightarrow> u32) [0..<unat n])"
    and "set (map (of_nat :: nat \<Rightarrow> u32) [0..<unat n]) = {i. i < n}"
proof -
  have bound: "k < 2 ^ LENGTH(32)" if "k < unat n" for k
    using that unat_bound [of n] by simp
  show "distinct (map (of_nat :: nat \<Rightarrow> u32) [0..<unat n])"
    using bound by (auto simp: distinct_map inj_on_def word_unat_eq_iff unat_of_nat)
  have "x \<in> (of_nat :: nat \<Rightarrow> u32) ` {0..<unat n}" if "x < n" for x :: u32
    using that by (intro image_eqI [of _ _ "unat x"]) (auto simp: word_less_nat_alt)
  then show "set (map (of_nat :: nat \<Rightarrow> u32) [0..<unat n]) = {i. i < n}"
    using bound by (auto simp: word_less_nat_alt unat_of_nat)
qed

lemma count_fill_blocks:
  assumes "0 < n"
  shows "count_list (fill_blocks t n) i = (if i < n then task_share (unat t) (unat n) (unat i) else 0)"
  using count_list_blocks [OF node_indices(1) [of n]] node_indices(2) [of n] unat_block_size [OF assms]
  by (simp add: fill_blocks_def Let_def del: set_map)

lemma count_round_robin:
  assumes "0 < n"
  shows "count_list (round_robin t n) i = (if i < n then task_share (unat t) (unat n) (unat i) else 0)"
proof -
  have n: "0 < unat n" using assms by (simp add: word_less_nat_alt)
  have "k \<le> unat t \<Longrightarrow> count_list (map (\<lambda>k. of_nat k mod n) [0..<k]) i =
      (if i < n then task_share k (unat n) (unat i) else 0)" for k
  proof (induction k)
    case 0
    then show ?case by (simp add: task_share_def)
  next
    case (Suc k)
    then have "k < 2 ^ LENGTH(32)" using unat_bound [of t] by simp
    then have "(of_nat k mod n = i) = (k mod unat n = unat i)"
      by (simp add: word_unat_eq_iff unat_mod unat_of_nat)
    moreover have "k mod unat n < unat n" using n by simp
    ultimately show ?case
      using Suc by (auto simp: task_share_Suc word_less_nat_alt)
  qed
  then show ?thesis by (simp add: round_robin_def)
qed

lemma max_one_pos: "0 < max (n :: u32) 1"
  by (auto simp: max_def word_neq_0_conv [symmetric])

lemma count_distribute_tasks:
  "count_list (distribute_tasks t n d) i =
     (if i < max n 1 then task_share (unat t) (unat (max n 1)) (unat i) else 0)"
  using max_one_pos [of n] by (cases d) (simp_all add: count_fill_blocks count_round_robin)

lemma length_distribute_tasks: "length (distribute_tasks t n d) = unat t"
proof -
  let ?n = "max n 1"
  have "length (fill_blocks t ?n) = sum_list (map (\<lambda>k. task_share (unat t) (unat ?n) (unat (of_nat k :: u32))) [0..<unat ?n])"
    using unat_block_size [OF max_one_pos [of n]]
    by (simp add: fill_blocks_def Let_def length_concat o_def)
  also have "\<dots> = sum_list (map (task_share (unat t) (unat ?n)) [0..<unat ?n])"
  proof -
    have "k < 2 ^ LENGTH(32)" if "k < unat ?n" for k using that unat_bound [of ?n] by simp
    then show ?thesis by (intro arg_cong [where f = sum_list] map_cong) (auto simp: unat_of_nat)
  qed
  also have "\<dots> = unat t"
    using task_share_sum [of "unat ?n" "unat t"] max_one_pos [of n]
    by (simp add: interv_sum_list_conv_sum_set_nat word_less_nat_alt)
  finally show ?thesis by (cases d) (simp_all add: round_robin_def)
qed

lemma set_distribute_tasks: "set (distribute_tasks t n d) \<subseteq> {i. i < max n 1}"
  using count_distribute_tasks [of t n d] count_notin by (metis (no_types, lifting) count_list_0_iff mem_Collect_eq subsetI)

section \<open>Properties\<close>

text \<open>
  C26. Task placement: under every distribution policy all tasks are placed, each on an
  existing node, and node \<open>i\<close> of \<open>n\<close> receives \<open>t div n\<close> tasks, one more when
  \<open>i\<close> is below the remainder. The policies differ in the order of tasks only.
\<close>

theorem distribute_tasks_balanced:
  "length (distribute_tasks t n d) = unat t
   \<and> set (distribute_tasks t n d) \<subseteq> {i. i < max n 1}
   \<and> (\<forall>i. i < max n 1 \<longrightarrow> count_list (distribute_tasks t n d) i =
        unat t div unat (max n 1) + (if unat i < unat t mod unat (max n 1) then 1 else 0))"
  using set_distribute_tasks [of t n d]
  by (simp add: count_distribute_tasks length_distribute_tasks task_share_def)

theorem distribute_tasks_balanced_witness:
  "(0 :: u32) < max 3 1 \<and> count_list (distribute_tasks 7 3 DistCyclic) 0 = 3"
  using distribute_tasks_balanced [of 7 3 DistCyclic] by simp

end
