(* ===== verification/Gpu_Request.thy ===== *)
theory Gpu_Request
  imports Step
begin

text \<open>
  GPU requests (\<^verbatim>\<open>spur-core/src/gpu_request.rs\<close>): the three request forms, their
  reduction to one demand, and the greedy distribution of a job total over nodes. The lemmas
  show that the distribution is sound and that it fails only when no distribution exists.
\<close>

section \<open>Requests and demands\<close>

datatype gpu_request_error =
    GpuConflict
  | ConflictingGresTypes
  | TotalLessThanNodes u32 u32
  | PerTaskNeedsTasks
  | GpuInvalidSpec string

datatype gpu_demand =
    DemandNone
  | DemandPerNode "u32 list" "string option"
  | DemandTotal u32 "string option"

definition parse_flag :: "string \<Rightarrow> gpu_request_error + gpu_request option" where
  "parse_flag value0 =
     (let v = str_trim value0
      in if v = [] then Inr None
         else
           (let v' = (case strip_prefix ''gpu:'' v of Some r \<Rightarrow> r
                      | None \<Rightarrow> (case strip_prefix ''GPU:'' v of Some r \<Rightarrow> r | None \<Rightarrow> v))
            in if v' = [] then Inr None
               else case parse_gres (''gpu:'' @ v') of
                   None \<Rightarrow> Inl (GpuInvalidSpec v')
                 | Some (_, gpu_type, cnt) \<Rightarrow>
                     if cnt = 0 then Inr None else Inr (Some \<lparr>gq_count = cnt, gq_gpu_type = gpu_type\<rparr>)))"

text \<open>The wire message has a count and a type, empty for any.\<close>

definition gpu_request_from_proto :: "(u32 \<times> string) option \<Rightarrow> gpu_request option" where
  "gpu_request_from_proto proto =
     (case proto of
        None \<Rightarrow> None
      | Some (cnt, t) \<Rightarrow>
          if cnt = 0 then None
          else Some \<lparr>gq_count = cnt, gq_gpu_type = (if t = [] then None else Some t)\<rparr>)"

definition gpu_request_to_proto :: "gpu_request \<Rightarrow> u32 \<times> string" where
  "gpu_request_to_proto r = (gq_count r, case gq_gpu_type r of None \<Rightarrow> [] | Some t \<Rightarrow> t)"

fun demand_total :: "gpu_demand \<Rightarrow> u64" where
  "demand_total DemandNone = 0"
| "demand_total (DemandPerNode counts _) = sum_list (map ucast counts)"
| "demand_total (DemandTotal cnt _) = ucast cnt"

fun demand_gpu_type :: "gpu_demand \<Rightarrow> string option" where
  "demand_gpu_type DemandNone = None"
| "demand_gpu_type (DemandPerNode _ t) = t"
| "demand_gpu_type (DemandTotal _ t) = t"

section \<open>Resolution\<close>

definition bump_slot :: "u32 list \<Rightarrow> u32 \<Rightarrow> u32 list" where
  "bump_slot counts node =
     (if unat node < length counts then counts[unat node := counts ! unat node + 1] else counts)"

definition tasks_per_node_counts :: "job_spec \<Rightarrow> u32 \<Rightarrow> u32 list" where
  "tasks_per_node_counts spec num_nodes =
     (case js_tasks_per_node spec of
        Some tpn \<Rightarrow> replicate (unat num_nodes) tpn
      | None \<Rightarrow>
          (let dist = (case js_distribution spec of None \<Rightarrow> DistBlock | Some d \<Rightarrow> distribution_from_str d);
               mapping = distribute_tasks (js_num_tasks spec) num_nodes dist
           in foldl bump_slot (replicate (unat num_nodes) 0) mapping))"

fun gres_gpu_loop :: "u32 \<Rightarrow> string option \<Rightarrow> string list \<Rightarrow> gpu_request_error + (u32 \<times> string option)" where
  "gres_gpu_loop cnt gpu_type [] = Inr (cnt, gpu_type)"
| "gres_gpu_loop cnt gpu_type (g # gs) =
     (case parse_gres g of
        None \<Rightarrow> gres_gpu_loop cnt gpu_type gs
      | Some (name, gtype, c) \<Rightarrow>
          if name \<noteq> ''gpu'' then gres_gpu_loop cnt gpu_type gs
          else case gtype of
              None \<Rightarrow> gres_gpu_loop (cnt + c) gpu_type gs
            | Some t \<Rightarrow>
                (case gpu_type of
                   Some existing \<Rightarrow>
                     if existing \<noteq> t then Inl ConflictingGresTypes
                     else gres_gpu_loop (cnt + c) gpu_type gs
                 | None \<Rightarrow> gres_gpu_loop (cnt + c) (Some t) gs))"

definition gres_gpu :: "job_spec \<Rightarrow> gpu_request_error + (u32 \<times> string option) option" where
  "gres_gpu spec =
     (case gres_gpu_loop 0 None (js_gres spec) of
        Inl e \<Rightarrow> Inl e
      | Inr (cnt, gpu_type) \<Rightarrow> Inr (if 0 < cnt then Some (cnt, gpu_type) else None))"

definition resolve_gpu_demand_for :: "job_spec \<Rightarrow> u32 \<Rightarrow> gpu_request_error + gpu_demand" where
  "resolve_gpu_demand_for spec num_nodes0 =
     (let num_nodes = max num_nodes0 1 in
      case gres_gpu spec of
        Inl e \<Rightarrow> Inl e
      | Inr gres \<Rightarrow>
          (let explicit = length (filter (\<lambda>b. b)
                 [js_gpus spec \<noteq> None, js_gpus_per_node spec \<noteq> None, js_gpus_per_task spec \<noteq> None])
           in if 1 < explicit then Inl GpuConflict
              else if explicit = 1 \<and> gres \<noteq> None then Inl GpuConflict
              else case js_gpus spec of
                  Some req \<Rightarrow>
                    if gq_count req = 0 then Inr DemandNone
                    else if gq_count req < num_nodes then Inl (TotalLessThanNodes (gq_count req) num_nodes)
                    else Inr (DemandTotal (gq_count req) (gq_gpu_type req))
                | None \<Rightarrow>
              (case js_gpus_per_node spec of
                  Some req \<Rightarrow>
                    if gq_count req = 0 then Inr DemandNone
                    else Inr (DemandPerNode (replicate (unat num_nodes) (gq_count req)) (gq_gpu_type req))
                | None \<Rightarrow>
              (case js_gpus_per_task spec of
                  Some req \<Rightarrow>
                    if gq_count req = 0 then Inr DemandNone
                    else if js_num_tasks spec = 0 then Inl PerTaskNeedsTasks
                    else Inr (DemandPerNode
                           (map (\<lambda>t. t * gq_count req) (tasks_per_node_counts spec num_nodes)) (gq_gpu_type req))
                | None \<Rightarrow>
              (case gres of
                  Some (cnt, gpu_type) \<Rightarrow> Inr (DemandPerNode (replicate (unat num_nodes) cnt) gpu_type)
                | None \<Rightarrow> Inr DemandNone)))))"

definition resolve_gpu_demand :: "job_spec \<Rightarrow> gpu_request_error + gpu_demand" where
  "resolve_gpu_demand spec = resolve_gpu_demand_for spec (js_num_nodes spec)"

text \<open>\<^verbatim>\<open>effective_gpus\<close> of \<^verbatim>\<open>job.rs\<close>: the demand's total, or the largest declared intent.\<close>

definition effective_gpus :: "job_spec \<Rightarrow> u32 \<Rightarrow> u64" where
  "effective_gpus spec num_nodes0 =
     (let num_nodes = max num_nodes0 1 in
      case resolve_gpu_demand_for spec num_nodes of
        Inr demand \<Rightarrow> demand_total demand
      | Inl _ \<Rightarrow>
          (let per_node = sum_list (map (\<lambda>(_, _, c). (ucast c :: u64))
                 (filter (\<lambda>(name, _, _). name = ''gpu'') (List.map_filter parse_gres (js_gres spec))));
               total = (case js_gpus spec of None \<Rightarrow> 0 | Some r \<Rightarrow> ucast (gq_count r));
               pn = (case js_gpus_per_node spec of None \<Rightarrow> 0 | Some r \<Rightarrow> ucast (gq_count r) * ucast num_nodes);
               pt = (case js_gpus_per_task spec of None \<Rightarrow> 0
                     | Some r \<Rightarrow> ucast (gq_count r) * ucast (js_num_tasks spec))
           in max (max (max total pn) pt) (per_node * ucast num_nodes)))"

section \<open>Distributing a total\<close>

fun distribute_loop :: "u32 \<Rightarrow> u32 list \<Rightarrow> u32 list" where
  "distribute_loop remaining [] = []"
| "distribute_loop remaining (c # caps) =
     (let leave = of_nat (length caps); taken = min c (remaining - leave)
      in taken # distribute_loop (remaining - taken) caps)"

definition distribute_total :: "u32 \<Rightarrow> u32 list \<Rightarrow> u32 list option" where
  "distribute_total tot caps =
     (if caps = [] \<or> tot < of_nat (length caps) then None
      else if 0 \<in> set caps then None
      else if sum_list (map ucast caps) < (ucast tot :: u64) then None
      else Some (distribute_loop tot caps))"

abbreviation unat_sum :: "u32 list \<Rightarrow> nat" where
  "unat_sum ws \<equiv> sum_list (map unat ws)"

text \<open>What a distribution of a total over node capacities is.\<close>

definition is_distribution :: "nat \<Rightarrow> u32 list \<Rightarrow> u32 list \<Rightarrow> bool" where
  "is_distribution tot caps give =
     (list_all2 (\<lambda>g c. 0 < g \<and> g \<le> c) give caps \<and> unat_sum give = tot)"

lemma unat_sub_u32: "(b :: u32) \<le> a \<Longrightarrow> unat (a - b) = unat a - unat b"
  by (simp add: unat_sub)

lemma unat_sum_ge_length: "0 \<notin> set caps \<Longrightarrow> length caps \<le> unat_sum caps"
proof (induction caps)
  case (Cons c caps)
  then have "0 < unat c" by (simp add: unat_gt_0)
  then show ?case using Cons by simp
qed simp

lemma distribute_loop_ok:
  assumes "length caps \<le> unat remaining" and "0 \<notin> set caps" and "unat remaining \<le> unat_sum caps"
  shows "is_distribution (unat remaining) caps (distribute_loop remaining caps)"
  using assms
proof (induction caps arbitrary: remaining)
  case Nil
  then show ?case by (simp add: is_distribution_def)
next
  case (Cons c caps)
  let ?len = "of_nat (length caps) :: u32"
  let ?taken = "min c (remaining - ?len)"
  have len: "unat ?len = length caps"
    using Cons.prems(1) unat_bound [of remaining] by (simp add: unat_of_nat)
  then have le: "?len \<le> remaining" using Cons.prems(1) by (simp add: word_le_nat_alt)
  have taken: "unat ?taken = min (unat c) (unat remaining - length caps)"
    using len unat_sub_u32 [OF le] by (simp add: min_def word_le_nat_alt)
  have c: "0 < unat c" using Cons.prems(2) by (simp add: unat_gt_0)
  have le2: "?taken \<le> remaining" using taken by (simp add: word_le_nat_alt)
  have rest: "unat (remaining - ?taken) = unat remaining - unat ?taken" by (rule unat_sub_u32 [OF le2])
  have "length caps \<le> unat (remaining - ?taken)" using taken rest Cons.prems(1) by (auto simp: min_def split: if_splits)
  moreover have "unat (remaining - ?taken) \<le> unat_sum caps"
    using taken rest Cons.prems unat_sum_ge_length [of caps] by (auto simp: min_def split: if_splits)
  ultimately have IH: "is_distribution (unat (remaining - ?taken)) caps (distribute_loop (remaining - ?taken) caps)"
    using Cons.IH Cons.prems(2) by simp
  have "0 < ?taken" using taken c Cons.prems(1) by (simp add: word_less_nat_alt)
  moreover have "unat ?taken \<le> unat remaining" using le2 by (simp add: word_le_nat_alt)
  ultimately show ?case
    using IH rest by (simp add: is_distribution_def Let_def)
qed

lemma is_distribution_bounds:
  assumes "is_distribution tot caps give"
  shows "length caps \<le> tot" and "0 \<notin> set caps" and "tot \<le> unat_sum caps"
proof -
  have *: "list_all2 (\<lambda>g c. 0 < g \<and> g \<le> c) give caps" and sum: "unat_sum give = tot"
    using assms by (auto simp: is_distribution_def)
  from * have "length caps \<le> unat_sum give \<and> 0 \<notin> set caps \<and> unat_sum give \<le> unat_sum caps"
  proof (induction give caps)
    case (Cons g give c caps)
    then have "0 < unat g" "unat g \<le> unat c" by (simp_all add: word_less_nat_alt word_le_nat_alt)
    then show ?case using Cons by auto
  qed simp
  then show "length caps \<le> tot" "0 \<notin> set caps" "tot \<le> unat_sum caps" using sum by auto
qed

lemma unat_ucast_u64: "unat (ucast (w :: u32) :: u64) = unat w"
  using unat_bound [of w] by (simp add: unsigned_ucast_eq take_bit_nat_eq_self)

lemma unat_sum_u64:
  assumes "length caps < 2 ^ 32"
  shows "unat (sum_list (map ucast caps) :: u64) = unat_sum caps"
proof -
  have small: "unat_sum xs \<le> length xs * (2 ^ 32 - 1)" for xs :: "u32 list"
  proof (induction xs)
    case (Cons x xs)
    then show ?case using unat_bound [of x] by simp
  qed simp
  have "length xs < 2 ^ 32 \<Longrightarrow> unat (sum_list (map ucast xs) :: u64) = unat_sum xs" for xs :: "u32 list"
  proof (induction xs)
    case (Cons x xs)
    then have "unat x + unat_sum xs < 2 ^ 64"
      using small [of "x # xs"] by simp
    then show ?case using Cons by (simp add: unat_word_ariths unat_ucast_u64)
  qed simp
  then show ?thesis using assms .
qed

lemma bump_slots:
  assumes "\<forall>x \<in> set mapping. unat x < length cs"
  shows "length (foldl bump_slot cs mapping) = length cs"
    and "i < length cs \<Longrightarrow> i < 2 ^ 32 \<Longrightarrow>
      foldl bump_slot cs mapping ! i = cs ! i + of_nat (count_list mapping (of_nat i))"
proof -
  show "length (foldl bump_slot cs mapping) = length cs"
    by (induction mapping arbitrary: cs) (auto simp: bump_slot_def)
  assume i: "i < length cs" "i < 2 ^ 32"
  from assms i show "foldl bump_slot cs mapping ! i = cs ! i + of_nat (count_list mapping (of_nat i))"
  proof (induction mapping arbitrary: cs)
    case (Cons x mapping)
    have "(unat x = i) = (x = of_nat i)"
      using i(2) by (auto simp: word_unat_eq_iff unat_of_nat)
    then show ?case using Cons by (auto simp: bump_slot_def nth_list_update)
  qed simp
qed

lemma tasks_per_node_counts_shares:
  assumes "js_tasks_per_node spec = None" and "0 < n"
  shows "tasks_per_node_counts spec n =
     map (\<lambda>i. of_nat (task_share (unat (js_num_tasks spec)) (unat n) i)) [0..<unat n]"
proof -
  define d where "d = (case js_distribution spec of None \<Rightarrow> DistBlock | Some d \<Rightarrow> distribution_from_str d)"
  let ?m = "distribute_tasks (js_num_tasks spec) n d"
  have n: "max n 1 = n" using assms(2) by (intro max_absorb1) (simp add: word_le_nat_alt word_less_nat_alt)
  have "\<forall>x \<in> set ?m. unat x < length (replicate (unat n) (0 :: u32))"
    using set_distribute_tasks [of "js_num_tasks spec" n d] n by (auto simp: word_less_nat_alt)
  note bump = bump_slots [OF this]
  have "foldl bump_slot (replicate (unat n) 0) ?m ! i = of_nat (task_share (unat (js_num_tasks spec)) (unat n) i)"
    if "i < unat n" for i
    using that bump(2) [of i] unat_bound [of n]
    by (simp add: count_distribute_tasks n word_less_nat_alt unat_of_nat)
  then show ?thesis
    using assms(1) bump(1) by (auto simp: tasks_per_node_counts_def Let_def d_def intro!: nth_equalityI)
qed

lemma task_share_le: "0 < n \<Longrightarrow> i < n \<Longrightarrow> task_share t n i \<le> t"
  using task_share_sum [of n t] member_le_sum [of i "{0..<n}" "task_share t n"] by simp

lemma scaled_shares_sum:
  assumes "0 < n" and "t * k < 2 ^ 32"
  shows "unat_sum (map (\<lambda>x. x * of_nat k) (map (\<lambda>i. of_nat (task_share t n i)) [0..<n])) = t * k"
proof -
  have "unat ((of_nat (task_share t n i) :: u32) * of_nat k) = task_share t n i * k" if "i < n" for i
  proof -
    have "task_share t n i * k < 2 ^ 32"
      using task_share_le [OF assms(1) that, of t] assms(2) mult_le_mono1 le_less_trans by blast
    then show ?thesis by (simp add: of_nat_mult [symmetric] unat_of_nat del: of_nat_mult)
  qed
  then have "unat_sum (map (\<lambda>x. x * of_nat k) (map (\<lambda>i. of_nat (task_share t n i)) [0..<n])) =
      (\<Sum>i = 0..<n. task_share t n i * k)"
    by (simp add: o_def interv_sum_list_conv_sum_set_nat)
  also have "\<dots> = t * k" using task_share_sum [OF assms(1)] by (simp add: sum_distrib_right [symmetric])
  finally show ?thesis .
qed

section \<open>Properties\<close>

text \<open>
  C25. Distributing a GPU total over nodes with given free counts succeeds exactly when the
  total can be split with at least one GPU and no more than the free count on every node, and
  then the result is such a split. (Fewer than \<open>2 ^ 32\<close> nodes.)
\<close>

theorem distribute_total_correct:
  assumes "caps \<noteq> []" and "length caps < 2 ^ 32"
  shows "case distribute_total tot caps of
           Some give \<Rightarrow> is_distribution (unat tot) caps give
         | None \<Rightarrow> \<not> (\<exists>give. is_distribution (unat tot) caps give)"
proof -
  have len: "unat (of_nat (length caps) :: u32) = length caps" using assms(2) by (simp add: unat_of_nat)
  have sum: "(sum_list (map ucast caps) < (ucast tot :: u64)) = (unat_sum caps < unat tot)"
    using unat_sum_u64 [OF assms(2)] by (simp add: word_less_nat_alt unat_ucast_u64)
  show ?thesis
  proof (cases "distribute_total tot caps")
    case None
    then have "unat tot < length caps \<or> 0 \<in> set caps \<or> unat_sum caps < unat tot"
      using assms(1) len sum by (auto simp: distribute_total_def word_less_nat_alt split: if_splits)
    then show ?thesis using None is_distribution_bounds [of "unat tot" caps] by fastforce
  next
    case (Some give)
    then have "length caps \<le> unat tot" "0 \<notin> set caps" "unat tot \<le> unat_sum caps"
      and "give = distribute_loop tot caps"
      using len sum by (auto simp: distribute_total_def word_less_nat_alt split: if_splits)
    then show ?thesis using Some distribute_loop_ok by simp
  qed
qed

theorem distribute_total_correct_witness:
  "distribute_total 10 [8, 4, 1] = Some [8, 1, 1] \<and> is_distribution (unat (10 :: u32)) [8, 4, 1] [8, 1, 1]"
proof -
  have d: "distribute_total 10 [8, 4, 1] = Some [8, 1, 1]" by (simp add: distribute_total_def Let_def)
  have "[8, 4, 1 :: u32] \<noteq> []" "length [8, 4, 1 :: u32] < 2 ^ 32" by simp_all
  then show ?thesis using distribute_total_correct [of "[8, 4, 1]" 10] d by simp
qed

text \<open>
  A per-task GPU request resolves to one count per node whose sum is the number of tasks
  times the GPUs per task, whatever the distribution policy, as long as that product fits in
  32 bits.
\<close>

theorem per_task_demand_total:
  assumes "js_gpus spec = None" "js_gpus_per_node spec = None" "js_gpus_per_task spec = Some req"
    and "gres_gpu spec = Inr None" and "js_tasks_per_node spec = None"
    and "0 < gq_count req" and "0 < js_num_tasks spec"
    and "unat (js_num_tasks spec) * unat (gq_count req) < 2 ^ 32"
  shows "\<exists>counts. resolve_gpu_demand_for spec n = Inr (DemandPerNode counts (gq_gpu_type req))
     \<and> length counts = unat (max n 1)
     \<and> unat_sum counts = unat (js_num_tasks spec) * unat (gq_count req)"
proof -
  let ?n = "max n 1"
  let ?counts = "map (\<lambda>t. t * gq_count req) (tasks_per_node_counts spec ?n)"
  have "resolve_gpu_demand_for spec n = Inr (DemandPerNode ?counts (gq_gpu_type req))"
    using assms(1-4,6,7) by (auto simp: resolve_gpu_demand_for_def Let_def)
  moreover have "length ?counts = unat ?n"
    by (simp add: tasks_per_node_counts_shares [OF assms(5) max_one_pos])
  moreover have "unat_sum ?counts = unat (js_num_tasks spec) * unat (gq_count req)"
    using scaled_shares_sum [OF _ assms(8), of "unat ?n"] max_one_pos [of n]
    by (simp add: tasks_per_node_counts_shares [OF assms(5) max_one_pos] word_less_nat_alt o_def)
  ultimately show ?thesis by blast
qed

definition sample_per_task :: job_spec where
  "sample_per_task = job_spec_default\<lparr>js_num_nodes := 3, js_num_tasks := 7,
     js_gpus_per_task := Some \<lparr>gq_count = 2, gq_gpu_type = None\<rparr>\<rparr>"

theorem per_task_demand_total_witness:
  "\<exists>counts. resolve_gpu_demand_for sample_per_task 3 = Inr (DemandPerNode counts None)
     \<and> length counts = 3 \<and> unat_sum counts = 14"
  using per_task_demand_total [of sample_per_task "\<lparr>gq_count = 2, gq_gpu_type = None\<rparr>" 3]
  by (simp add: sample_per_task_def job_spec_default_def gres_gpu_def)

end
