(* ===== verification/Job_Props.thy ===== *)
theory Job_Props
  imports Job
begin

text \<open>
  Why a run ended (\<^verbatim>\<open>spur-core/src/end_reason.rs\<close>) and the properties of jobs.
\<close>

section \<open>End reasons\<close>

definition nf_detail :: "node_failure \<Rightarrow> string" where
  "nf_detail f =
     ''node '' @ nf_node f
       @ (if nf_reason f = [] then [] else '': '' @ nf_reason f)
       @ (case nf_reason_uid f of None \<Rightarrow> [] | Some uid \<Rightarrow> '' (set by uid '' @ show_word uid @ '')'')"

datatype end_reason =
    ER_None | ER_NonZeroExitCode | ER_RaisedSignal | ER_TimeLimit | ER_DeadLine | ER_OutOfMemory
  | ER_Preempted | ER_Cancelled | ER_Requeued | ER_NodeDown | ER_JobLaunchFailure
  | ER_CompletingTimeout | ER_UserCancel | ER_AdminCancel | ER_SystemCancel | ER_NodeRemoved

fun er_as_str :: "end_reason \<Rightarrow> string" where
  "er_as_str ER_None = ''None''"
| "er_as_str ER_NonZeroExitCode = ''NonZeroExitCode''"
| "er_as_str ER_RaisedSignal = ''RaisedSignal''"
| "er_as_str ER_TimeLimit = ''TimeLimit''"
| "er_as_str ER_DeadLine = ''DeadLine''"
| "er_as_str ER_OutOfMemory = ''OutOfMemory''"
| "er_as_str ER_Preempted = ''Preempted''"
| "er_as_str ER_Cancelled = ''Cancelled''"
| "er_as_str ER_Requeued = ''Requeued''"
| "er_as_str ER_NodeDown = ''NodeDown''"
| "er_as_str ER_JobLaunchFailure = ''JobLaunchFailure''"
| "er_as_str ER_CompletingTimeout = ''CompletingTimeout''"
| "er_as_str ER_UserCancel = ''UserCancel''"
| "er_as_str ER_AdminCancel = ''AdminCancel''"
| "er_as_str ER_SystemCancel = ''SystemCancel''"
| "er_as_str ER_NodeRemoved = ''NodeRemoved''"

definition is_cancel :: "end_reason \<Rightarrow> bool" where
  "is_cancel r = (r \<in> {ER_UserCancel, ER_AdminCancel, ER_SystemCancel})"

definition signal_name :: "int \<Rightarrow> string" where
  "signal_name sig =
     (if sig = 1 then ''Hangup''
      else if sig = 2 then ''Interrupt''
      else if sig = 6 then ''Aborted''
      else if sig = 9 then ''Killed''
      else if sig = 11 then ''Segmentation_fault''
      else if sig = 13 then ''Broken_pipe''
      else if sig = 15 then ''Terminated''
      else ''Signal '' @ show_int sig)"

definition preemption_summary :: "job_id option \<Rightarrow> string option \<Rightarrow> string" where
  "preemption_summary preempted_by preempt_qos =
     (case preempted_by of
        Some by_job \<Rightarrow>
          (case preempt_qos of
             Some qos \<Rightarrow> ''preempted by job '' @ show_word by_job @ '' (QOS: '' @ qos @ '')''
           | None \<Rightarrow> ''preempted by job '' @ show_word by_job)
      | None \<Rightarrow> ''preempted'')"

definition cancel_reason :: "job \<Rightarrow> end_reason" where
  "cancel_reason job =
     (case j_cancelled_by job of
        None \<Rightarrow> ER_Cancelled
      | Some c \<Rightarrow>
          if cp_origin c = ''User'' then ER_UserCancel
          else if cp_origin c = ''Admin'' then ER_AdminCancel
          else if cp_origin c = ''System'' then ER_SystemCancel
          else ER_Cancelled)"

definition failure_reason :: "job \<Rightarrow> end_reason \<times> string option" where
  "failure_reason job =
     (if j_unreported_nodes job \<noteq> [] then
        (ER_CompletingTimeout, Some (''no completion reported by '' @ str_join '','' (j_unreported_nodes job)))
      else if j_exit_signal job \<noteq> 0 then
        (ER_RaisedSignal,
         Some (''signal '' @ show_int (j_exit_signal job) @ '' ('' @ signal_name (j_exit_signal job) @ '')''))
      else (ER_NonZeroExitCode,
        if j_exit_code job = Some 126 then Some ''exit 126: command not executable (shell convention)''
        else if j_exit_code job = Some 127 then Some ''exit 127: command not found (shell convention)''
        else None))"

fun job_end_reason :: "job \<Rightarrow> job_state \<Rightarrow> end_reason \<times> string option" where
  "job_end_reason job Completed = (ER_None, None)"
| "job_end_reason job Failed = failure_reason job"
| "job_end_reason job Timeout = (ER_TimeLimit, None)"
| "job_end_reason job Deadline = (ER_DeadLine, None)"
| "job_end_reason job OutOfMemory = (ER_OutOfMemory, None)"
| "job_end_reason job Preempted =
     (ER_Preempted, Some (preemption_summary (j_preempted_by job) (j_preempt_qos job)))"
| "job_end_reason job Cancelled = (cancel_reason job, None)"
| "job_end_reason job Requeued = (ER_Requeued, None)"
| "job_end_reason job NodeFail =
     (if j_pending_reason job = PR_JobLaunchFailure
      then (ER_JobLaunchFailure, j_launch_failure_detail job)
      else case j_node_failure job of
          Some failure \<Rightarrow>
            if nf_removed failure then (ER_NodeRemoved, Some (nf_detail failure))
            else (ER_NodeDown, Some (nf_detail failure))
        | None \<Rightarrow> (ER_NodeDown, None))"
| "job_end_reason job _ = (ER_None, None)"

definition ended_by :: "job \<Rightarrow> end_reason \<Rightarrow> cancel_provenance option" where
  "ended_by job reason = (if is_cancel reason then j_cancelled_by job else None)"

section \<open>Lemmas\<close>

lemma completion_key_le_total: "completion_key_le a b \<or> completion_key_le b a"
  by (auto simp: completion_key_le_def Let_def)

lemma completion_key_le_refl: "completion_key_le a a"
  by (simp add: completion_key_le_def)

lemma completion_key_le_trans:
  "completion_key_le a b \<Longrightarrow> completion_key_le b c \<Longrightarrow> completion_key_le a c"
  by (auto simp: completion_key_le_def Let_def split: if_splits)

lemma completion_key_le_antisym:
  assumes "completion_key_le a b" and "completion_key_le b a"
  shows "a = (b :: node_completion)"
  using assms
  by (intro node_completion.equality) (auto simp: completion_key_le_def Let_def split: if_splits)

lemma worst_completion_step:
  "foldl (\<lambda>best c. case best of None \<Rightarrow> Some c
      | Some b \<Rightarrow> if completion_key_le b c then Some c else Some b) (Some b) cs = Some w \<Longrightarrow>
     w \<in> insert b (set cs) \<and> (\<forall>c \<in> insert b (set cs). completion_key_le c w)"
proof (induction cs arbitrary: b)
  case Nil
  then show ?case by (simp add: completion_key_le_refl)
next
  case (Cons c cs)
  show ?case
  proof (cases "completion_key_le b c")
    case True
    then show ?thesis using Cons.IH [of c] Cons.prems completion_key_le_trans [of b c w] by auto
  next
    case False
    then have "completion_key_le c b" using completion_key_le_total by blast
    then show ?thesis using False Cons.IH [of b] Cons.prems completion_key_le_trans [of c b w] by auto
  qed
qed

lemma worst_completion_some_aux:
  "\<exists>w. foldl (\<lambda>best c. case best of None \<Rightarrow> Some c
      | Some b \<Rightarrow> if completion_key_le b c then Some c else Some b) (Some b) cs = Some w"
  by (induction cs arbitrary: b) auto

lemma worst_completion_spec:
  "case worst_completion cs of
     None \<Rightarrow> cs = []
   | Some w \<Rightarrow> w \<in> set cs \<and> (\<forall>c \<in> set cs. completion_key_le c w)"
proof (cases cs)
  case Nil
  then show ?thesis by (simp add: worst_completion_def)
next
  case (Cons c cs')
  obtain w where "worst_completion cs = Some w"
    using worst_completion_some_aux [of c cs'] Cons by (auto simp: worst_completion_def)
  then show ?thesis using worst_completion_step [of c cs' w] Cons by (simp add: worst_completion_def)
qed

lemma worst_completion_set:
  assumes "set cs = set ds"
  shows "worst_completion cs = worst_completion ds"
proof -
  have "v = w" if "v \<in> set cs" "w \<in> set ds" "\<forall>c \<in> set cs. completion_key_le c v"
      "\<forall>c \<in> set ds. completion_key_le c w" for v w
    using that assms completion_key_le_antisym by blast
  then show ?thesis
    using worst_completion_spec [of cs] worst_completion_spec [of ds] assms
    by (auto split: option.splits)
qed

lemma set_hm_values: "hm_wf m \<Longrightarrow> set (hm_values m) = {v. \<exists>k. hm_get m k = Some v}"
  by (force simp: hm_wf_def dest: hm_get_mem intro: map_of_is_SomeI)

lemma derived_completion_state: "fst (derived_completion m p) \<in> {Completed, Failed}"
  by (auto simp: derived_completion_def Let_def split: option.splits)

lemma transition_state: "transition now to job = Inr job' \<Longrightarrow> j_state job' = to"
  by (auto simp: transition_def Let_def split: if_splits)

lemma transition_iff: "(\<exists>job'. transition now to job = Inr job') = valid_transition (j_state job) to"
  by (simp add: transition_def Let_def)

lemma dropWhile_no_hd: "dropWhile (\<lambda>x. x = c) s = [] \<or> hd (dropWhile (\<lambda>x. x = c) s) \<noteq> c"
  by (induction s) auto

section \<open>Properties\<close>

text \<open>
  C21. Replicas agree on how a run ended: the exit code and state derived from the per-node
  reports depend on the reports only, not on the order in which the hash map yields them.
\<close>

theorem derived_completion_order_independent:
  assumes "hm_wf m" and "hm_wf m'" and "hm_get m = hm_get m'"
  shows "derived_completion m primary = derived_completion m' primary"
proof -
  have "set (hm_values m) = set (hm_values m')"
    using set_hm_values [OF assms(1)] set_hm_values [OF assms(2)] assms(3) by (simp del: set_map)
  then have "worst_completion (filter P (hm_values m)) = worst_completion (filter P (hm_values m'))" for P
    by (intro worst_completion_set) simp
  then show ?thesis using assms(3) by (simp only: derived_completion_def)
qed

theorem derived_completion_order_independent_witness:
  "derived_completion [(''n1'', \<lparr>nc_code = 3, nc_signal = 0\<rparr>), (''n2'', \<lparr>nc_code = 0, nc_signal = 9\<rparr>)] ''gone'' =
   derived_completion [(''n2'', \<lparr>nc_code = 0, nc_signal = 9\<rparr>), (''n1'', \<lparr>nc_code = 3, nc_signal = 0\<rparr>)] ''gone''"
  by (rule derived_completion_order_independent) (auto simp: hm_wf_def)

text \<open>
  C22. Every verdict is reachable: whatever the nodes reported and whatever signals the
  controller recorded, the final state of a run is terminal, and it is a legal transition for a job
  that is running, suspended or completing, so finalizing a reported run never fails.
\<close>

theorem completion_verdict_is_legal:
  "let (derived, code, sig) = derived_completion m primary;
       (final, reason) = completion_verdict job derived code sig oom
   in is_terminal final \<and> (\<forall>s \<in> {Running, Suspended, Completing}. valid_transition s final)
      \<and> \<not> is_scheduling_hold reason"
  using derived_completion_state [of m primary]
  by (auto simp: completion_verdict_def Let_def is_terminal_def is_scheduling_hold_def split: prod.splits)

theorem completion_verdict_is_legal_witness:
  "let (derived, code, sig) = derived_completion [(''n1'', \<lparr>nc_code = 0, nc_signal = 4105\<rparr>)] ''n1'';
       (final, reason) = completion_verdict (job_new 0 7 job_spec_default) derived code sig True
   in is_terminal final \<and> (\<forall>s \<in> {Running, Suspended, Completing}. valid_transition s final)
      \<and> \<not> is_scheduling_hold reason"
  by (rule completion_verdict_is_legal)

text \<open>
  C23. A relative output pattern cannot be turned into an absolute path by what is substituted
  into it: the resolved path is the working directory (or \<^verbatim>\<open>/tmp\<close>) without
  trailing slashes, one slash, and a remainder that does not start with a slash. Components \<^verbatim>\<open>..\<close> of the
  remainder are kept as they are.
\<close>

theorem relative_pattern_stays_anchored:
  assumes "path_is_relative pattern"
  shows "\<exists>rest. resolve_output_pattern pattern ctx =
      trim_end_matches (CHR ''/'') (if oc_work_dir ctx = [] then default_work_dir else oc_work_dir ctx)
        @ ''/'' @ rest
     \<and> (rest = [] \<or> hd rest \<noteq> CHR ''/'')"
proof -
  define template where "template = (if pattern = [] then ''spur-'' @ show_word (oc_job_id ctx) @ ''.out'' else pattern)"
  have "path_is_relative template" using assms by (simp add: template_def path_is_relative_def)
  then show ?thesis
    using dropWhile_no_hd [of "CHR ''/''" "expand_pattern_codes ctx template"]
    unfolding resolve_output_pattern_def template_def [symmetric] Let_def trim_start_matches_def
    by simp
qed

theorem relative_pattern_stays_anchored_witness:
  "\<exists>rest. resolve_output_pattern ''%x.out''
      \<lparr>oc_job_id = 7, oc_name = ''/etc/cron'', oc_user = ''eve'', oc_work_dir = ''/home/eve/'', oc_node = None,
       oc_array_job_id = None, oc_array_task_id = None\<rparr> = ''/home/eve'' @ ''/'' @ rest
     \<and> (rest = [] \<or> hd rest \<noteq> CHR ''/'')"
  using relative_pattern_stays_anchored [of "''%x.out''" "\<lparr>oc_job_id = 7, oc_name = ''/etc/cron'', oc_user = ''eve'',
       oc_work_dir = ''/home/eve/'', oc_node = None, oc_array_job_id = None, oc_array_task_id = None\<rparr>"]
  by (simp add: path_is_relative_def trim_end_matches_def)

end
