(* ===== verification/Cpu_Layout.thy ===== *)
theory Cpu_Layout
  imports Devices "HOL-Library.Product_Lexorder"
begin

text \<open>
  CPU topology (\<^verbatim>\<open>spur-core/src/cpu_topology.rs\<close>) and the split of a node's CPUs into
  those set aside for services and those jobs may use
  (\<^verbatim>\<open>spur-core/src/core_layout.rs\<close>). A \<^verbatim>\<open>BTreeMap\<close> is an association list in
  key order and a \<^verbatim>\<open>BTreeSet\<close> a sorted list. The lemmas show that a layout
  splits exactly the online CPUs, that jobs keep at least one core, and that as many cores are set aside as
  asked for.
\<close>

section \<open>Topology\<close>

fun bt_entry :: "'v \<Rightarrow> 'k::linorder \<Rightarrow> ('v \<Rightarrow> 'v) \<Rightarrow> ('k \<times> 'v) list \<Rightarrow> ('k \<times> 'v) list" where
  "bt_entry d k f [] = [(k, f d)]"
| "bt_entry d k f ((k', v) # m) =
     (if k < k' then (k, f d) # (k', v) # m
      else if k = k' then (k', f v) # m
      else (k', v) # bt_entry d k f m)"

record cpu_record =
  cr_cpu :: u32
  cr_socket :: u32
  cr_core_id :: u32
  cr_numa_node :: "u32 option"

definition normalize_cores :: "core_info list \<Rightarrow> core_info list" where
  "normalize_cores cores =
     sort_key (\<lambda>c. (ci_socket c, case ci_cpus c of [] \<Rightarrow> 0xFFFFFFFF | x # _ \<Rightarrow> x))
       (map (\<lambda>c. c\<lparr>ci_cpus := remdups_adj (sort (ci_cpus c))\<rparr>) cores)"

definition from_cpus :: "cpu_record list \<Rightarrow> cpu_topology" where
  "from_cpus records =
     (let by_core = foldl (\<lambda>m r. bt_entry
            \<lparr>ci_socket = cr_socket r, ci_numa_node = cr_numa_node r, ci_cpus = []\<rparr>
            (cr_socket r, cr_core_id r) (\<lambda>c. c\<lparr>ci_cpus := ci_cpus c @ [cr_cpu r]\<rparr>) m) [] records
      in \<lparr>ct_cores = normalize_cores (map snd by_core)\<rparr>)"

definition online_cpus :: "cpu_topology \<Rightarrow> u32 list" where
  "online_cpus t = sort (concat (map ci_cpus (ct_cores t)))"

fun position_from :: "nat \<Rightarrow> ('a \<Rightarrow> bool) \<Rightarrow> 'a list \<Rightarrow> nat option" where
  "position_from i P [] = None"
| "position_from i P (x # xs) = (if P x then Some i else position_from (Suc i) P xs)"

definition core_of_cpu :: "cpu_topology \<Rightarrow> u32 \<Rightarrow> nat option" where
  "core_of_cpu t cpu = position_from 0 (\<lambda>c. cpu \<in> set (ci_cpus c)) (ct_cores t)"

section \<open>CPU lists\<close>

datatype cpu_list_error = BadItem string | Reversed u32 u32 | CpuTooLarge u32

definition max_cpu_id :: u32 where
  "max_cpu_id = 0x10000"

definition parse_cpu_id :: "string \<Rightarrow> string \<Rightarrow> cpu_list_error + u32" where
  "parse_cpu_id item t =
     (case parse_u32 (str_trim t) of
        None \<Rightarrow> Inl (BadItem item)
      | Some i \<Rightarrow> if max_cpu_id \<le> i then Inl (CpuTooLarge i) else Inr i)"

text \<open>\<^verbatim>\<open>split_once\<close>: the texts before and after the first occurrence.\<close>

definition split_once :: "char \<Rightarrow> string \<Rightarrow> (string \<times> string) option" where
  "split_once c s =
     (let pre = takeWhile (\<lambda>x. x \<noteq> c) s
      in if length pre < length s then Some (pre, drop (Suc (length pre)) s) else None)"

definition parse_cpu_item :: "string \<Rightarrow> cpu_list_error + u32 list" where
  "parse_cpu_item item0 =
     (let item = str_trim item0
      in case split_once (CHR ''-'') item of
           Some (lo, hi) \<Rightarrow>
             (case parse_cpu_id item lo of
                Inl e \<Rightarrow> Inl e
              | Inr l \<Rightarrow>
                  (case parse_cpu_id item hi of
                     Inl e \<Rightarrow> Inl e
                   | Inr h \<Rightarrow> if h < l then Inl (Reversed l h) else Inr (map of_nat [unat l..<Suc (unat h)])))
         | None \<Rightarrow> (case parse_cpu_id item item of Inl e \<Rightarrow> Inl e | Inr i \<Rightarrow> Inr [i]))"

fun parse_cpu_items :: "string list \<Rightarrow> cpu_list_error + u32 list" where
  "parse_cpu_items [] = Inr []"
| "parse_cpu_items (i # is) =
     (case parse_cpu_item i of
        Inl e \<Rightarrow> Inl e
      | Inr cs \<Rightarrow> (case parse_cpu_items is of Inl e \<Rightarrow> Inl e | Inr ds \<Rightarrow> Inr (cs @ ds)))"

definition parse_cpu_list :: "string \<Rightarrow> cpu_list_error + u32 list" where
  "parse_cpu_list s0 =
     (let s = str_trim s0
      in if s = [] then Inr []
         else case parse_cpu_items (str_split (CHR '','') s) of
             Inl e \<Rightarrow> Inl e
           | Inr cpus \<Rightarrow> Inr (remdups_adj (sort cpus)))"

text \<open>The runs of consecutive ids of a sorted list.\<close>

fun cpu_runs :: "u32 \<Rightarrow> u32 \<Rightarrow> u32 list \<Rightarrow> (u32 \<times> u32) list" where
  "cpu_runs start upto_c [] = [(start, upto_c)]"
| "cpu_runs start upto_c (c # cs) =
     (if c = upto_c + 1 then cpu_runs start c cs else (start, upto_c) # cpu_runs c c cs)"

definition show_run :: "u32 \<times> u32 \<Rightarrow> string" where
  "show_run r = (case r of (s, e) \<Rightarrow> if s = e then show_word s else show_word s @ ''-'' @ show_word e)"

definition format_cpu_list :: "u32 list \<Rightarrow> string" where
  "format_cpu_list cpus =
     (case remdups_adj (sort cpus) of
        [] \<Rightarrow> []
      | c # cs \<Rightarrow> str_join '','' (map show_run (cpu_runs c c cs)))"

section \<open>Layouts\<close>

record gpu_reserved_cpus =
  gc_stable_id :: u64
  gc_cpus :: "u32 list"

record core_layout =
  cl_spec_cpus :: "u32 list"
  cl_mem_spec_mb :: u64
  cl_gpu_reserved :: "gpu_reserved_cpus list"
  cl_general_cpus :: "u32 list"
  cl_daemons_off_spec :: bool

record node_core_settings =
  cs_core_spec_count :: "u32 option"
  cs_cpu_spec_list :: "string option"
  cs_reserved_memory_mb :: u64
  cs_daemons_off_spec :: bool

datatype layout_error =
    MissingTopology
  | BadSpecList cpu_list_error
  | SpecCpuNotOnline u32
  | SpecTakesAllCores nat
  | ReservedMemoryTakesAll u64 u64

datatype spec_request = SpecCount u32 | SpecList string

definition spec_request_of :: "node_core_settings \<Rightarrow> spec_request option" where
  "spec_request_of s =
     (case cs_core_spec_count s of
        Some n \<Rightarrow> if 0 < n then Some (SpecCount n)
                  else (case cs_cpu_spec_list s of None \<Rightarrow> None
                        | Some l \<Rightarrow> if str_trim l = [] then None else Some (SpecList l))
      | None \<Rightarrow> (case cs_cpu_spec_list s of None \<Rightarrow> None
                  | Some l \<Rightarrow> if str_trim l = [] then None else Some (SpecList l)))"

text \<open>
  The candidates in the order of the two loops: the highest local index first, at each index
  the sockets from the highest to the lowest; a socket without that index contributes nothing.
\<close>

definition spec_candidates :: "cpu_topology \<Rightarrow> nat list" where
  "spec_candidates t =
     (let by_socket = foldl (\<lambda>m (i, core). bt_entry [] (ci_socket core) (\<lambda>is. is @ [i]) m) []
            (enumerate 0 (ct_cores t));
          widest = foldl max 0 (map length (map snd by_socket))
      in concat (map (\<lambda>l. concat (map (\<lambda>cores. if l < length cores then [cores ! l] else [])
           (rev (map snd by_socket)))) (rev [0..<widest])))"

fun pick_until :: "nat \<Rightarrow> nat list \<Rightarrow> nat list \<Rightarrow> nat list" where
  "pick_until cnt picked [] = picked"
| "pick_until cnt picked (i # is) =
     (if cnt \<le> length picked then picked else pick_until cnt (insort_insert i picked) is)"

definition pick_spec_cores :: "cpu_topology \<Rightarrow> u32 \<Rightarrow> nat list" where
  "pick_spec_cores t cnt = pick_until (unat cnt) [] (spec_candidates t)"

fun cores_of_cpus_from :: "cpu_topology \<Rightarrow> nat list \<Rightarrow> u32 list \<Rightarrow> layout_error + nat list" where
  "cores_of_cpus_from t acc [] = Inr acc"
| "cores_of_cpus_from t acc (cpu # cpus) =
     (case core_of_cpu t cpu of
        None \<Rightarrow> Inl (SpecCpuNotOnline cpu)
      | Some i \<Rightarrow> cores_of_cpus_from t (insort_insert i acc) cpus)"

definition cores_of_cpus :: "cpu_topology \<Rightarrow> u32 list \<Rightarrow> layout_error + nat list" where
  "cores_of_cpus t cpus = cores_of_cpus_from t [] cpus"

definition spec_cores_for :: "cpu_topology \<Rightarrow> spec_request \<Rightarrow> layout_error + nat list" where
  "spec_cores_for t spec =
     (case spec of
        SpecCount n \<Rightarrow> Inr (pick_spec_cores t n)
      | SpecList l \<Rightarrow> (case parse_cpu_list l of Inl e \<Rightarrow> Inl (BadSpecList e) | Inr cpus \<Rightarrow> cores_of_cpus t cpus))"

definition layout_of_cores :: "cpu_topology \<Rightarrow> node_core_settings \<Rightarrow> nat list \<Rightarrow> core_layout" where
  "layout_of_cores t settings spec_cores =
     (let indexed = enumerate 0 (ct_cores t)
      in \<lparr>cl_spec_cpus = sort (concat (map (\<lambda>(i, c). ci_cpus c) (filter (\<lambda>(i, c). i \<in> set spec_cores) indexed))),
          cl_mem_spec_mb = cs_reserved_memory_mb settings,
          cl_gpu_reserved = [],
          cl_general_cpus = sort (concat (map (\<lambda>(i, c). ci_cpus c) (filter (\<lambda>(i, c). i \<notin> set spec_cores) indexed))),
          cl_daemons_off_spec = cs_daemons_off_spec settings\<rparr>)"

definition layout_compute ::
  "cpu_topology option \<Rightarrow> node_core_settings \<Rightarrow> u64 \<Rightarrow> layout_error + core_layout option" where
  "layout_compute topology settings memory_mb =
     (case spec_request_of settings of
        None \<Rightarrow> Inr None
      | Some spec \<Rightarrow>
          if 0 < memory_mb \<and> memory_mb \<le> cs_reserved_memory_mb settings
          then Inl (ReservedMemoryTakesAll (cs_reserved_memory_mb settings) memory_mb)
          else case topology of
              None \<Rightarrow> Inl MissingTopology
            | Some t \<Rightarrow>
                (case spec_cores_for t spec of
                   Inl e \<Rightarrow> Inl e
                 | Inr spec_cores \<Rightarrow>
                     if length (ct_cores t) \<le> length spec_cores
                     then Inl (SpecTakesAllCores (length (ct_cores t)))
                     else Inr (Some (layout_of_cores t settings spec_cores))))"

section \<open>Fingerprints\<close>

unbundle bit_operations_syntax

definition fnv_new :: u64 where
  "fnv_new = 0xcbf29ce484222325"

definition fnv_bytes :: "u64 \<Rightarrow> u8 list \<Rightarrow> u64" where
  "fnv_bytes h bs = foldl (\<lambda>h b. (h XOR ucast b) * 0x00000100000001b3) h bs"

definition le_bytes :: "nat \<Rightarrow> 'a::len word \<Rightarrow> u8 list" where
  "le_bytes n w = map (\<lambda>i. ucast (drop_bit (8 * i) w)) [0..<n]"

definition fnv_u64 :: "u64 \<Rightarrow> u64 \<Rightarrow> u64" where
  "fnv_u64 h v = fnv_bytes h (le_bytes 8 v)"

definition fnv_list :: "u64 \<Rightarrow> u32 list \<Rightarrow> u64" where
  "fnv_list h v = foldl (\<lambda>h x. fnv_bytes h (le_bytes 4 x)) (fnv_u64 h (of_nat (length v))) v"

definition fingerprint :: "core_layout \<Rightarrow> u64" where
  "fingerprint l =
     (let h = fnv_list fnv_new (cl_spec_cpus l);
          h = fnv_u64 h (cl_mem_spec_mb l);
          gpus = sort_key gc_stable_id (cl_gpu_reserved l);
          h = fnv_u64 h (of_nat (length gpus));
          h = foldl (\<lambda>h g. fnv_list (fnv_u64 h (gc_stable_id g)) (gc_cpus g)) h gpus;
          h = fnv_list h (cl_general_cpus l);
          h = fnv_bytes h [if cl_daemons_off_spec l then 1 else 0]
      in if h = 0 then 1 else h)"

section \<open>Lemmas on layouts\<close>

lemma mset_bt_append:
  "mset (concat (map snd (bt_entry [] k (\<lambda>is. is @ [i]) m))) = add_mset i (mset (concat (map snd m)))"
  by (induction m) auto

lemma mset_by_socket:
  "mset (concat (map snd (foldl (\<lambda>m (i, core). bt_entry [] (ci_socket core) (\<lambda>is. is @ [i]) m) m xs))) =
     mset (concat (map snd m)) + mset (map fst xs)"
  by (induction xs arbitrary: m) (auto simp: mset_bt_append split: prod.splits)

lemma mset_concat_pointwise:
  "mset (concat (map (\<lambda>l. a l @ b l) ks)) = mset (concat (map a ks)) + mset (concat (map b ks))"
  by (induction ks) auto

lemma concat_column: "concat (map (\<lambda>l. if l < length c then [c ! l] else []) [0..<w]) = take w c"
  by (induction w) (auto simp: take_Suc_conv_app_nth)

lemma mset_rows:
  assumes "\<forall>c \<in> set ls. length c \<le> w"
  shows "mset (concat (map (\<lambda>l. concat (map (\<lambda>c. if l < length c then [c ! l] else []) ls)) [0..<w])) = mset (concat ls)"
  using assms
proof (induction ls)
  case (Cons c ls)
  then show ?case
    using mset_concat_pointwise [of "\<lambda>l. if l < length c then [c ! l] else []"
        "\<lambda>l. concat (map (\<lambda>c. if l < length c then [c ! l] else []) ls)" "[0..<w]"]
      concat_column [of c w]
    by simp
qed simp

lemma mset_concat_map_rev: "mset (concat (map f (rev xs))) = mset (concat (map f xs))"
  by (induction xs) auto

lemma foldl_max_ge: "(a :: nat) \<le> foldl max a xs" "x \<in> set xs \<Longrightarrow> x \<le> foldl max (a :: nat) xs"
proof (induction xs arbitrary: a)
  case (Cons y xs)
  {
    case 1
    then show ?case using Cons.IH(1) [of "max a y"] by simp
  next
    case 2
    then show ?case using Cons.IH(1) [of "max a y"] Cons.IH(2) [of "max a y"] by auto
  }
qed auto

lemma mset_spec_candidates: "mset (spec_candidates t) = mset [0..<length (ct_cores t)]"
proof -
  define by_socket where "by_socket = foldl (\<lambda>m (i, core). bt_entry [] (ci_socket core) (\<lambda>is. is @ [i]) m) []
            (enumerate 0 (ct_cores t))"
  define w where "w = foldl max 0 (map length (map snd by_socket))"
  have "\<forall>c \<in> set (rev (map snd by_socket)). length c \<le> w"
    unfolding w_def by (force intro!: foldl_max_ge(2))
  then have "mset (spec_candidates t) = mset (concat (rev (map snd by_socket)))"
    using mset_rows [of "rev (map snd by_socket)" w]
    unfolding spec_candidates_def Let_def by_socket_def [symmetric] w_def [symmetric] mset_concat_map_rev
    by simp
  also have "\<dots> = mset (concat (map snd by_socket))"
    using mset_concat_map_rev [of id "map snd by_socket"] by simp
  also have "\<dots> = mset [0..<length (ct_cores t)]"
    using mset_by_socket [of "[]" "enumerate 0 (ct_cores t)"] by (simp add: by_socket_def)
  finally show ?thesis .
qed

lemma pick_until_props:
  assumes "distinct cs" and "distinct picked" and "set cs \<inter> set picked = {}" and "length picked \<le> cnt"
  shows "length (pick_until cnt picked cs) = min cnt (length picked + length cs)"
    and "set (pick_until cnt picked cs) \<subseteq> set picked \<union> set cs"
    and "distinct (pick_until cnt picked cs)"
  using assms
proof (induction cs arbitrary: picked)
  case (Cons i cs)
  {
    case 1
    then show ?case using Cons.IH(1) [of "insort_insert i picked"]
      by (auto simp: distinct_insort_insert set_insort_insert insort_insert_key_def distinct_insort set_insort_key)
  next
    case 2
    then show ?case using Cons.IH(2) [of "insort_insert i picked"]
      by (auto simp: distinct_insort_insert set_insort_insert insort_insert_key_def distinct_insort set_insort_key)
  next
    case 3
    then show ?case using Cons.IH(3) [of "insort_insert i picked"]
      by (auto simp: distinct_insort_insert set_insort_insert insort_insert_key_def distinct_insort set_insort_key)
  }
qed auto

lemma pick_spec_cores_props:
  shows "length (pick_spec_cores t cnt) = min (unat cnt) (length (ct_cores t))"
    and "set (pick_spec_cores t cnt) \<subseteq> {0..<length (ct_cores t)}"
    and "distinct (pick_spec_cores t cnt)"
proof -
  have m: "mset (spec_candidates t) = mset [0..<length (ct_cores t)]" by (rule mset_spec_candidates)
  have d: "distinct (spec_candidates t)" using m mset_eq_imp_distinct_iff [OF m] by simp
  have s: "set (spec_candidates t) = {0..<length (ct_cores t)}" using mset_eq_setD [OF m] by simp
  have l: "length (spec_candidates t) = length (ct_cores t)" using mset_eq_length [OF m] by simp
  note p = pick_until_props [OF d, of "[]" "unat cnt"]
  show "length (pick_spec_cores t cnt) = min (unat cnt) (length (ct_cores t))"
    "set (pick_spec_cores t cnt) \<subseteq> {0..<length (ct_cores t)}" "distinct (pick_spec_cores t cnt)"
    using p s l by (simp_all add: pick_spec_cores_def)
qed

lemma position_from_bound: "position_from i P xs = Some k \<Longrightarrow> i \<le> k \<and> k < i + length xs"
proof (induction xs arbitrary: i)
  case (Cons x xs)
  then show ?case using Cons.IH [of "Suc i"] by (fastforce split: if_splits)
qed simp

lemma cores_of_cpus_from_props:
  assumes "cores_of_cpus_from t acc cpus = Inr is" and "distinct acc" and "set acc \<subseteq> {..<length (ct_cores t)}"
  shows "distinct is \<and> set is \<subseteq> {..<length (ct_cores t)}"
  using assms
proof (induction cpus arbitrary: acc)
  case (Cons cpu cpus)
  then obtain i where i: "core_of_cpu t cpu = Some i" "cores_of_cpus_from t (insort_insert i acc) cpus = Inr is"
    by (auto split: option.splits)
  then have "i < length (ct_cores t)" using position_from_bound by (fastforce simp: core_of_cpu_def)
  then show ?case using Cons.IH [OF i(2)] Cons.prems by (simp add: distinct_insort_insert set_insort_insert)
qed simp

lemma spec_cores_for_props:
  assumes "spec_cores_for t spec = Inr is"
  shows "distinct is \<and> set is \<subseteq> {..<length (ct_cores t)}"
proof (cases spec)
  case (SpecCount n)
  then show ?thesis using assms pick_spec_cores_props [of t n] by (auto simp: spec_cores_for_def)
next
  case (SpecList l)
  then show ?thesis using assms cores_of_cpus_from_props [of t "[]"]
    by (auto simp: spec_cores_for_def cores_of_cpus_def split: sum.splits)
qed

lemma mset_selected_cores:
  "mset (concat (map (\<lambda>(i, c). ci_cpus c) (filter (\<lambda>(i, c). P i) (enumerate 0 cs)))) =
     (\<Sum>i \<in> {i. i < length cs \<and> P i}. mset (ci_cpus (cs ! i)))"
proof (induction cs rule: rev_induct)
  case (snoc c cs)
  have split: "{i. i < length (cs @ [c]) \<and> P i} =
      (if P (length cs) then insert (length cs) {i. i < length cs \<and> P i} else {i. i < length cs \<and> P i})"
    by (auto simp: less_Suc_eq)
  have "(\<Sum>i \<in> {i. i < length cs \<and> P i}. mset (ci_cpus ((cs @ [c]) ! i))) =
      (\<Sum>i \<in> {i. i < length cs \<and> P i}. mset (ci_cpus (cs ! i)))"
    by (intro sum.cong) (auto simp: nth_append)
  then show ?case using snoc unfolding split by (auto simp: enumerate_append_eq add.commute)
qed simp

section \<open>Lemmas on CPU lists\<close>

lemma show_word_digits: "\<forall>c \<in> set (show_word w). is_digit c" and show_word_nonempty: "show_word w \<noteq> []"
  by (auto simp: show_word_def dest: show_nat_digits)

lemma takeWhile_digits:
  "\<forall>c \<in> set s. is_digit c \<Longrightarrow> takeWhile (\<lambda>x. x \<noteq> CHR ''-'') (s @ CHR ''-'' # t) = s"
  by (induction s) (auto dest: digit_not_dash)

lemma parse_cpu_id_show: "i < max_cpu_id \<Longrightarrow> parse_cpu_id item (show_word i) = Inr i"
  using str_trim_digits [OF show_word_nonempty show_word_digits, of i]
  by (simp add: parse_cpu_id_def parse_u32_show_word)

lemma parse_show_run:
  assumes "s \<le> e" and "e < max_cpu_id"
  shows "parse_cpu_item (show_run (s, e)) = Inr (map of_nat [unat s..<Suc (unat e)])"
proof (cases "s = e")
  case True
  have "split_once (CHR ''-'') (show_word e) = None"
  proof -
    have "takeWhile (\<lambda>x. x \<noteq> CHR ''-'') (show_word e) = show_word e"
      using show_word_digits [of e] by (auto simp: takeWhile_eq_all_conv dest: digit_not_dash)
    then show ?thesis unfolding split_once_def by (simp only: Let_def less_irrefl if_False)
  qed
  then show ?thesis using True assms(2) str_trim_digits [OF show_word_nonempty show_word_digits, of e]
    by (simp add: parse_cpu_item_def show_run_def parse_cpu_id_show)
next
  case False
  let ?t = "show_word s @ CHR ''-'' # show_word e"
  have trim: "str_trim ?t = ?t"
    using show_word_digits [of s] show_word_digits [of e] show_word_nonempty [of s] show_word_nonempty [of e]
    by (intro str_trim_id) (auto simp: hd_append digit_not_ws)
  have "split_once (CHR ''-'') ?t = Some (show_word s, show_word e)"
    using takeWhile_digits [OF show_word_digits [of s], of "show_word e"] by (simp add: split_once_def)
  moreover have "s < max_cpu_id" "\<not> e < s" using assms False by auto
  ultimately show ?thesis using False assms(2) trim
    by (simp add: parse_cpu_item_def show_run_def parse_cpu_id_show)
qed

definition run_cpus :: "u32 \<times> u32 \<Rightarrow> u32 list" where
  "run_cpus r = (case r of (s, e) \<Rightarrow> map of_nat [unat s..<Suc (unat e)])"

definition run_ok :: "u32 \<times> u32 \<Rightarrow> bool" where
  "run_ok r = (case r of (s, e) \<Rightarrow> s \<le> e \<and> e < max_cpu_id)"

lemma unat_succ: "e < max_cpu_id \<Longrightarrow> unat (e + 1) = Suc (unat e)"
  by (simp add: max_cpu_id_def word_less_nat_alt unat_word_ariths)

lemma cpu_runs_props:
  assumes "s \<le> e" and "e < max_cpu_id" and "\<forall>c \<in> set cs. c < max_cpu_id"
  shows "concat (map run_cpus (cpu_runs s e cs)) = run_cpus (s, e) @ cs \<and> (\<forall>r \<in> set (cpu_runs s e cs). run_ok r)"
  using assms
proof (induction s e cs rule: cpu_runs.induct)
  case (2 s e c cs)
  show ?case
  proof (cases "c = e + 1")
    case True
    then have c: "unat c = Suc (unat e)" using unat_succ "2.prems"(2) by simp
    then have "s \<le> c" using "2.prems"(1) by (simp add: word_le_nat_alt)
    moreover have "run_cpus (s, c) = run_cpus (s, e) @ [c]"
    proof -
      have "[unat s..<Suc (unat c)] = [unat s..<Suc (unat e)] @ [unat c]"
        using "2.prems"(1) c by (simp add: word_le_nat_alt)
      then show ?thesis by (simp add: run_cpus_def)
    qed
    ultimately show ?thesis using 2 True by auto
  next
    case False
    have "run_cpus (c, c) = [c]" by (simp add: run_cpus_def)
    then show ?thesis using 2 False by (auto simp: run_ok_def)
  qed
qed (auto simp: run_ok_def)

lemma parse_show_runs:
  "\<forall>r \<in> set rs. run_ok r \<Longrightarrow> parse_cpu_items (map show_run rs) = Inr (concat (map run_cpus rs))"
  by (induction rs) (auto simp: run_ok_def run_cpus_def parse_show_run)

lemma show_run_chars:
  "CHR '','' \<notin> set (show_run r)" "show_run r \<noteq> []" "is_digit (hd (show_run r))" "is_digit (last (show_run r))"
proof -
  obtain s e where r: "r = (s, e)" by (cases r)
  have d: "\<not> is_digit (CHR '','')" by code_simp
  show "CHR '','' \<notin> set (show_run r)"
    using d show_word_digits [of s] show_word_digits [of e] by (auto simp: r show_run_def)
  show "show_run r \<noteq> []" by (simp add: r show_run_def show_word_nonempty)
  show "is_digit (hd (show_run r))" "is_digit (last (show_run r))"
    using show_word_digits [of s] show_word_digits [of e] show_word_nonempty [of s] show_word_nonempty [of e]
    by (auto simp: r show_run_def hd_append)
qed

lemma str_join_ends:
  assumes "ws \<noteq> []" and "\<forall>w \<in> set ws. w \<noteq> []"
  shows "str_join sep ws \<noteq> [] \<and> hd (str_join sep ws) = hd (hd ws) \<and> last (str_join sep ws) = last (last ws)"
  using assms by (induction sep ws rule: str_join.induct) (auto simp: hd_append)

lemma joined_runs:
  assumes "rs \<noteq> []"
  shows "str_split (CHR '','') (str_trim (str_join '','' (map show_run rs))) = map show_run rs"
    and "str_trim (str_join '','' (map show_run rs)) \<noteq> []"
proof -
  have "str_trim (str_join '','' (map show_run rs)) = str_join '','' (map show_run rs)"
    using str_join_ends [of "map show_run rs" "'',''"] assms show_run_chars
    by (intro str_trim_id) (auto simp: hd_map last_map digit_not_ws)
  then show "str_split (CHR '','') (str_trim (str_join '','' (map show_run rs))) = map show_run rs"
    "str_trim (str_join '','' (map show_run rs)) \<noteq> []"
    using str_split_join [of "map show_run rs" "CHR '',''"] str_join_ends [of "map show_run rs" "'',''"] assms show_run_chars
    by auto
qed

lemma cpu_runs_nonempty: "cpu_runs s e cs \<noteq> []"
  by (induction s e cs rule: cpu_runs.induct) auto

lemma sort_remdups_adj_sorted: "remdups_adj (sort (remdups_adj (sort (xs :: u32 list)))) = remdups_adj (sort xs)"
proof -
  have "sorted (remdups_adj (sort xs))" by (simp add: sorted_remdups_adj)
  then have "sort (remdups_adj (sort xs)) = remdups_adj (sort xs)" by (rule sorted_sort_id)
  moreover have "distinct (remdups_adj (sort xs))" by (simp add: sorted_distinct_remdups_adj)
  ultimately show ?thesis by (simp add: remdups_adj_distinct)
qed

section \<open>Properties\<close>

text \<open>
  C29. CPU lists survive printing and parsing: the list printed for any set of CPU ids below
  the accepted maximum parses back to exactly those ids, sorted and without repetition.
\<close>

theorem cpu_list_roundtrip:
  assumes "\<forall>c \<in> set cpus. c < max_cpu_id"
  shows "parse_cpu_list (format_cpu_list cpus) = Inr (remdups_adj (sort cpus))"
proof (cases "remdups_adj (sort cpus)")
  case Nil
  then show ?thesis by (simp add: format_cpu_list_def parse_cpu_list_def str_trim_def)
next
  case (Cons c cs)
  have "set (c # cs) = set cpus" using arg_cong [OF Cons, of set] by simp
  then have b: "c < max_cpu_id" "\<forall>x \<in> set cs. x < max_cpu_id" using assms by auto
  have runs: "concat (map run_cpus (cpu_runs c c cs)) = c # cs" "\<forall>r \<in> set (cpu_runs c c cs). run_ok r"
    using cpu_runs_props [OF order_refl b] by (auto simp: run_cpus_def)
  have "remdups_adj (sort (c # cs)) = c # cs" using sort_remdups_adj_sorted [of cpus] Cons by simp
  then show ?thesis
    using Cons joined_runs [OF cpu_runs_nonempty [of c c cs]] parse_show_runs [OF runs(2)] runs(1)
    by (simp add: format_cpu_list_def parse_cpu_list_def)
qed

theorem cpu_list_roundtrip_witness:
  "parse_cpu_list (format_cpu_list [8, 0, 1, 2, 1]) = Inr (remdups_adj (sort [8, 0, 1, 2, 1]))"
  by (rule cpu_list_roundtrip) (simp add: max_cpu_id_def)

text \<open>
  C24. A computed layout divides whole cores: there is a set of cores, smaller than the
  node's and of the size asked for when a count was asked for, such that the CPUs set aside are exactly
  the CPUs of those cores and the CPUs left for jobs are exactly those of the others.
\<close>

theorem layout_divides_cores:
  assumes "layout_compute (Some t) settings memory_mb = Inr (Some l)"
  shows "\<exists>S. S \<subset> {..<length (ct_cores t)}
     \<and> (case spec_request_of settings of Some (SpecCount n) \<Rightarrow> card S = unat n | _ \<Rightarrow> True)
     \<and> mset (cl_spec_cpus l) = (\<Sum>i \<in> S. mset (ci_cpus (ct_cores t ! i)))
     \<and> mset (cl_general_cpus l) = (\<Sum>i \<in> {..<length (ct_cores t)} - S. mset (ci_cpus (ct_cores t ! i)))"
proof -
  obtain spec ks where spec: "spec_request_of settings = Some spec" "spec_cores_for t spec = Inr ks"
      "length ks < length (ct_cores t)" and l: "l = layout_of_cores t settings ks"
    using assms by (auto simp: layout_compute_def split: option.splits sum.splits if_splits)
  have ks: "distinct ks" "set ks \<subseteq> {..<length (ct_cores t)}" using spec_cores_for_props [OF spec(2)] by auto
  have sets: "{i. i < length (ct_cores t) \<and> i \<in> set ks} = set ks"
    "{i. i < length (ct_cores t) \<and> i \<notin> set ks} = {..<length (ct_cores t)} - set ks" using ks(2) by auto
  have "card (set ks) < length (ct_cores t)" using spec(3) distinct_card [OF ks(1)] by simp
  then have "set ks \<subset> {..<length (ct_cores t)}" using ks(2) by auto
  moreover have "case spec of SpecCount n \<Rightarrow> card (set ks) = unat n | _ \<Rightarrow> True"
  proof (cases spec)
    case (SpecCount n)
    then have "length ks = min (unat n) (length (ct_cores t))"
      using spec(2) pick_spec_cores_props(1) [of t n] by (auto simp: spec_cores_for_def)
    then show ?thesis using SpecCount spec(3) distinct_card [OF ks(1)] by simp
  qed simp
  ultimately show ?thesis
    using mset_selected_cores [of "\<lambda>i. i \<in> set ks" "ct_cores t"] mset_selected_cores [of "\<lambda>i. i \<notin> set ks" "ct_cores t"]
    by (intro exI [of _ "set ks"]) (simp add: l layout_of_cores_def Let_def spec(1) sets del: mset_concat)
qed

definition sample_topology :: cpu_topology where
  "sample_topology = from_cpus
     [\<lparr>cr_cpu = 0, cr_socket = 0, cr_core_id = 0, cr_numa_node = None\<rparr>,
      \<lparr>cr_cpu = 2, cr_socket = 0, cr_core_id = 0, cr_numa_node = None\<rparr>,
      \<lparr>cr_cpu = 1, cr_socket = 1, cr_core_id = 0, cr_numa_node = None\<rparr>,
      \<lparr>cr_cpu = 3, cr_socket = 1, cr_core_id = 0, cr_numa_node = None\<rparr>]"

definition sample_settings :: node_core_settings where
  "sample_settings = \<lparr>cs_core_spec_count = Some 1, cs_cpu_spec_list = None, cs_reserved_memory_mb = 1024,
     cs_daemons_off_spec = True\<rparr>"

definition sample_layout :: core_layout where
  "sample_layout = \<lparr>cl_spec_cpus = [1, 3], cl_mem_spec_mb = 1024, cl_gpu_reserved = [],
     cl_general_cpus = [0, 2], cl_daemons_off_spec = True\<rparr>"

theorem layout_divides_cores_witness:
  "layout_compute (Some sample_topology) sample_settings 0 = Inr (Some sample_layout)
   \<and> (\<exists>S. S \<subset> {..<2} \<and> card S = 1 \<and> mset [1, 3] = (\<Sum>i \<in> S. mset (ci_cpus (ct_cores sample_topology ! i))))"
proof -
  have cores: "ct_cores sample_topology = [\<lparr>ci_socket = 0, ci_numa_node = None, ci_cpus = [0, 2]\<rparr>,
      \<lparr>ci_socket = 1, ci_numa_node = None, ci_cpus = [1, 3]\<rparr>]"
    by (simp add: sample_topology_def from_cpus_def normalize_cores_def)
  then have t: "sample_topology = \<lparr>ct_cores = [\<lparr>ci_socket = 0, ci_numa_node = None, ci_cpus = [0, 2]\<rparr>,
      \<lparr>ci_socket = 1, ci_numa_node = None, ci_cpus = [1, 3]\<rparr>]\<rparr>" by (cases sample_topology) simp
  have c: "layout_compute (Some sample_topology) sample_settings 0 = Inr (Some sample_layout)"
    by (simp add: t sample_settings_def sample_layout_def layout_compute_def spec_request_of_def
        spec_cores_for_def pick_spec_cores_def spec_candidates_def layout_of_cores_def insort_insert_key_def)
  have l: "length (ct_cores sample_topology) = 2" and r: "spec_request_of sample_settings = Some (SpecCount 1)"
    and cpus: "cl_spec_cpus sample_layout = [1, 3]"
    by (simp_all add: cores sample_settings_def sample_layout_def spec_request_of_def)
  show ?thesis using layout_divides_cores [OF c] c unfolding l r cpus by auto
qed

end
