(* ===== verification/Hostlist.thy ===== *)
theory Hostlist
  imports Rust_Strings
begin

text \<open>
  Hostlist patterns (\<^verbatim>\<open>spur-core/src/hostlist.rs\<close>): expansion of bracketed
  patterns and the short cut that yields the first name only; compression is not modelled. The
  expansion is a terminating function: every nested call has one closing bracket less. The lemmas
  bound the number and the length of the names and show where the short cut panics.
\<close>

section \<open>Fallible folds and searches\<close>

fun fold_err :: "('a \<Rightarrow> 's \<Rightarrow> 'e + 's) \<Rightarrow> 'a list \<Rightarrow> 's \<Rightarrow> 'e + 's" where
  "fold_err f [] s = Inr s"
| "fold_err f (x # xs) s = (case f x s of Inl e \<Rightarrow> Inl e | Inr s' \<Rightarrow> fold_err f xs s')"

lemma fold_err_cong [fundef_cong]:
  assumes "xs = ys" and "s = t" and "\<And>x s. x \<in> set ys \<Longrightarrow> f x s = g x s"
  shows "fold_err f xs s = fold_err g ys t"
  using assms(3) unfolding assms(1,2) by (induction ys arbitrary: t) (auto split: sum.splits)

lemma fold_err_invariant:
  assumes "fold_err f xs s = Inr t" and "P s"
    and "\<And>x s t. x \<in> set xs \<Longrightarrow> P s \<Longrightarrow> f x s = Inr t \<Longrightarrow> P t"
  shows "P t"
  using assms
proof (induction xs arbitrary: s)
  case (Cons x xs)
  obtain s' where s': "f x s = Inr s'" "fold_err f xs s' = Inr t"
    using Cons.prems(1) by (auto split: sum.splits)
  have "P s'" using Cons.prems(3) [OF _ Cons.prems(2) s'(1)] by simp
  then show ?case using Cons.IH [OF s'(2)] Cons.prems(3) by (meson list.set_intros(2))
qed simp

definition str_find :: "char \<Rightarrow> string \<Rightarrow> nat option" where
  "str_find c s = (let n = length (takeWhile (\<lambda>x. x \<noteq> c) s) in if n < length s then Some n else None)"

lemma str_find_Some:
  assumes "str_find c s = Some n"
  shows "n < length s" and "s ! n = c" and "c \<notin> set (take n s)"
proof -
  have n: "n = length (takeWhile (\<lambda>x. x \<noteq> c) s)" and l: "n < length s"
    using assms by (auto simp: str_find_def Let_def split: if_splits)
  show "n < length s" by (rule l)
  show "s ! n = c" using nth_length_takeWhile [of "\<lambda>x. x \<noteq> c" s] n l by simp
  have "take n s = takeWhile (\<lambda>x. x \<noteq> c) s" unfolding n by (simp add: takeWhile_eq_take [symmetric])
  then show "c \<notin> set (take n s)" by (auto dest: set_takeWhileD)
qed

lemma str_find_None: "str_find c s = None \<Longrightarrow> c \<notin> set s"
proof -
  assume "str_find c s = None"
  then have "length (takeWhile (\<lambda>x. x \<noteq> c) s) = length s"
    using length_takeWhile_le [of "\<lambda>x. x \<noteq> c" s] by (auto simp: str_find_def Let_def split: if_splits)
  then have "takeWhile (\<lambda>x. x \<noteq> c) s = s" by (metis takeWhile_eq_take take_all order_refl)
  then show "c \<notin> set s" by (metis (mono_tags, lifting) set_takeWhileD)
qed

section \<open>Expansion\<close>

datatype hostlist_error =
    HlInvalidPattern string
  | HlInvalidRange string
  | HlTooLarge nat nat

definition max_hostlist_size :: nat where
  "max_hostlist_size = 1000000"

definition usize_max :: nat where
  "usize_max = 2 ^ 64 - 1"

text \<open>\<^verbatim>\<open>{:0>width$}\<close>: pad with zeros on the left.\<close>

definition pad_num :: "nat \<Rightarrow> nat \<Rightarrow> string" where
  "pad_num width n = (let s = show_nat n in replicate (width - length s) (CHR ''0'') @ s)"

fun split_top_level_from :: "nat \<Rightarrow> string \<Rightarrow> string \<Rightarrow> string list" where
  "split_top_level_from depth acc [] = [rev acc]"
| "split_top_level_from depth acc (c # cs) =
     (if c = CHR ''['' then split_top_level_from (depth + 1) (c # acc) cs
      else if c = CHR '']'' then split_top_level_from (depth - 1) (c # acc) cs
      else if c = CHR '','' \<and> depth = 0 then rev acc # split_top_level_from depth [] cs
      else split_top_level_from depth (c # acc) cs)"

definition split_top_level :: "string \<Rightarrow> string list" where
  "split_top_level s = split_top_level_from 0 [] s"

definition parse_range_bounds :: "string \<Rightarrow> hostlist_error + (nat \<times> nat \<times> nat) option" where
  "parse_range_bounds part =
     (case str_find (CHR ''-'') part of
        None \<Rightarrow> Inr None
      | Some dash \<Rightarrow>
          (let start_str = take dash part; end_str = drop (Suc dash) part
           in case parse_uint 64 start_str of
                None \<Rightarrow> Inl (HlInvalidRange part)
              | Some start \<Rightarrow>
                  (case parse_uint 64 end_str of
                     None \<Rightarrow> Inl (HlInvalidRange part)
                   | Some end_n \<Rightarrow>
                       if end_n < start then Inl (HlInvalidRange (show_nat start @ '' > '' @ show_nat end_n))
                       else Inr (Some (start, end_n, length start_str)))))"

type_synonym limits = "nat \<times> nat \<times> nat"

definition push_host :: "limits \<Rightarrow> string \<Rightarrow> string list \<Rightarrow> hostlist_error + string list" where
  "push_host limits name results =
     (case limits of (max_hosts, max_name_bytes, _) \<Rightarrow>
        if max_name_bytes < length name then Inl (HlInvalidPattern ''hostname exceeds length limit'')
        else if max_hosts \<le> length results then Inl (HlTooLarge (length results + 1) max_hosts)
        else Inr (results @ [name]))"

definition range_total :: "nat \<Rightarrow> nat \<Rightarrow> nat \<Rightarrow> nat" where
  "range_total len start end_n = min usize_max (len + min usize_max (end_n - start + 1))"

lemma count_list_mono_notin: "c \<notin> set xs \<Longrightarrow> count_list (xs @ ys) c = count_list ys c"
  by (simp add: count_notin)

lemma set_str_split: "part \<in> set (str_split c s) \<Longrightarrow> set part \<subseteq> set s"
proof (induction s arbitrary: part)
  case (Cons x s)
  obtain w ws where "str_split c s = w # ws" by (meson neq_Nil_conv str_split_nonempty)
  then show ?case using Cons.prems Cons.IH [of w] Cons.IH [of part] by (auto split: if_splits)
qed simp

lemma bracket_not_digit: "d < 10 \<Longrightarrow> CHR '']'' \<noteq> digit_char d"
proof
  assume "d < 10" and "CHR '']'' = digit_char d"
  then have "(of_char (CHR '']'') :: nat) = of_char (digit_char d)" by simp
  then show False using \<open>d < 10\<close> by (simp add: digit_char_def)
qed

lemma bracket_not_in_show_nat: "CHR '']'' \<notin> set (show_nat n)"
proof (induction n rule: show_nat.induct)
  case (1 n)
  show ?case
  proof (cases "n < 10")
    case True
    then show ?thesis using bracket_not_digit [OF True] by (subst show_nat.simps) simp
  next
    case False
    then show ?thesis using 1 bracket_not_digit [of "n mod 10"] by (subst show_nat.simps) simp
  qed
qed

lemma bracket_not_in_pad_num: "CHR '']'' \<notin> set (pad_num w n)"
  using bracket_not_in_show_nat by (auto simp: pad_num_def Let_def)

text \<open>Replacing the first bracket group by a text without closing brackets.\<close>

lemma bracket_group_smaller:
  assumes "str_find (CHR '']'') pattern = Some be" and "bs \<le> be" and "CHR '']'' \<notin> set x"
  shows "count_list (take bs pattern) (CHR '']'') + (count_list x (CHR '']'') +
     count_list (drop (Suc be) pattern) (CHR '']'')) < count_list pattern (CHR '']'')"
proof -
  note be = str_find_Some [OF assms(1)]
  have "CHR '']'' \<notin> set (take bs pattern)"
    using be(3) assms(2) by (meson in_set_takeD set_take_subset_set_take subset_code(1))
  moreover have "count_list pattern (CHR '']'') = Suc (count_list (drop (Suc be) pattern) (CHR '']''))"
  proof -
    have "count_list pattern (CHR '']'') = count_list (take be pattern @ pattern ! be # drop (Suc be) pattern) (CHR '']'')"
      using be(1) by (simp add: id_take_nth_drop [symmetric])
    then show ?thesis using be(2,3) by (simp add: count_notin)
  qed
  ultimately show ?thesis using assms(3) by (simp add: count_notin)
qed

lemma bracket_not_in_part:
  assumes be: "str_find (CHR '']'') pattern = Some be"
    and part: "range_part \<in> set (str_split (CHR '','') (take (be - Suc bs) (drop (Suc bs) pattern)))"
  shows "CHR '']'' \<notin> set range_part"
proof -
  have "take (be - Suc bs) (drop (Suc bs) pattern) = drop (Suc bs) (take be pattern)"
    by (simp add: drop_take)
  then have "set (take (be - Suc bs) (drop (Suc bs) pattern)) \<subseteq> set (take be pattern)"
    using set_drop_subset by metis
  then show ?thesis using set_str_split [OF part] str_find_Some(3) [OF be] by blast
qed

function expand_single :: "limits \<Rightarrow> nat \<Rightarrow> string \<Rightarrow> string list \<Rightarrow> hostlist_error + string list" where
  "expand_single limits depth pattern results =
     (if snd (snd limits) < depth then Inl (HlInvalidPattern ''hostlist nesting exceeds limit'')
      else case str_find (CHR ''['') pattern of
        None \<Rightarrow> push_host limits pattern results
      | Some bs \<Rightarrow>
      (case str_find (CHR '']'') pattern of
        None \<Rightarrow> Inl (HlInvalidPattern ''unmatched ['')
      | Some be \<Rightarrow>
          if be < bs then
            Inl (HlInvalidPattern ([CHR 0x27] @ '']'' @ [CHR 0x27] @ '' before '' @ [CHR 0x27] @ ''['' @ [CHR 0x27] @ '': '' @ pattern))
          else
            fold_err (\<lambda>range_part results.
              case parse_range_bounds range_part of
                Inl e \<Rightarrow> Inl e
              | Inr (Some (start, end_n, width)) \<Rightarrow>
                  if fst limits < range_total (length results) start end_n
                  then Inl (HlTooLarge (range_total (length results) start end_n) (fst limits))
                  else fold_err (\<lambda>i results.
                      case (if CHR ''['' \<in> set (drop (Suc be) pattern)
                            then expand_single limits (depth + 1)
                                   (take bs pattern @ pad_num width i @ drop (Suc be) pattern) results
                            else push_host limits
                                   (take bs pattern @ pad_num width i @ drop (Suc be) pattern) results) of
                        Inl e \<Rightarrow> Inl e
                      | Inr results' \<Rightarrow>
                          if fst limits < length results' then Inl (HlTooLarge (length results') (fst limits))
                          else Inr results') [start..<Suc end_n] results
              | Inr None \<Rightarrow>
                  if CHR ''['' \<in> set (drop (Suc be) pattern)
                  then expand_single limits (depth + 1)
                         (take bs pattern @ range_part @ drop (Suc be) pattern) results
                  else push_host limits (take bs pattern @ range_part @ drop (Suc be) pattern) results)
              (str_split (CHR '','') (take (be - Suc bs) (drop (Suc bs) pattern))) results))"
  by pat_completeness auto

termination
  by (relation "measure (\<lambda>(limits, depth, pattern, results). count_list pattern (CHR '']''))")
    (auto intro!: bracket_group_smaller bracket_not_in_pad_num dest: bracket_not_in_part)

declare expand_single.simps [simp del]

definition expand_with_limits :: "string \<Rightarrow> nat \<Rightarrow> nat \<Rightarrow> nat \<Rightarrow> hostlist_error + string list" where
  "expand_with_limits pattern max_hosts max_name_bytes max_depth =
     (case fold_err (\<lambda>part results. expand_single (max_hosts, max_name_bytes, max_depth) 0 (str_trim part) results)
             (split_top_level pattern) [] of
        Inl e \<Rightarrow> Inl e
      | Inr results \<Rightarrow> Inr (filter (\<lambda>s. s \<noteq> []) results))"

definition expand :: "string \<Rightarrow> hostlist_error + string list" where
  "expand pattern = expand_with_limits pattern max_hostlist_size usize_max usize_max"

definition expand_bounded :: "string \<Rightarrow> nat \<Rightarrow> nat \<Rightarrow> hostlist_error + string list" where
  "expand_bounded pattern max_hosts max_name_bytes = expand_with_limits pattern max_hosts max_name_bytes 64"

definition hostlist_count :: "string \<Rightarrow> hostlist_error + nat" where
  "hostlist_count pattern = (case expand pattern of Inl e \<Rightarrow> Inl e | Inr hosts \<Rightarrow> Inr (length hosts))"

text \<open>
  The first name only. Slicing between the brackets panics when the closing bracket stands
  first, which is the value \<open>FirstPanic\<close>.
\<close>

datatype first_result = FirstPanic | FirstErr hostlist_error | FirstOk "string option"

function first_single :: "string \<Rightarrow> first_result" where
  "first_single pattern =
     (if pattern = [] then FirstOk None
      else case str_find (CHR ''['') pattern of
        None \<Rightarrow> FirstOk (Some pattern)
      | Some bs \<Rightarrow>
      (case str_find (CHR '']'') pattern of
        None \<Rightarrow> FirstErr (HlInvalidPattern ''unmatched ['')
      | Some be \<Rightarrow>
          if be < bs then FirstPanic
          else
            (let first_part = hd (str_split (CHR '','') (take (be - Suc bs) (drop (Suc bs) pattern)))
             in case parse_range_bounds first_part of
                Inl e \<Rightarrow> FirstErr e
              | Inr (Some (start, end_n, width)) \<Rightarrow>
                  if CHR ''['' \<in> set (drop (Suc be) pattern)
                  then first_single (take bs pattern @ pad_num width start @ drop (Suc be) pattern)
                  else FirstOk (Some (take bs pattern @ pad_num width start @ drop (Suc be) pattern))
              | Inr None \<Rightarrow>
                  if CHR ''['' \<in> set (drop (Suc be) pattern)
                  then first_single (take bs pattern @ first_part @ drop (Suc be) pattern)
                  else FirstOk (Some (take bs pattern @ first_part @ drop (Suc be) pattern)))))"
  by pat_completeness auto

termination
  by (relation "measure (\<lambda>pattern. count_list pattern (CHR '']''))")
    (auto intro!: bracket_group_smaller bracket_not_in_pad_num dest: bracket_not_in_part [OF _ list.set_sel(1)])

declare first_single.simps [simp del]

fun first_of_parts :: "string list \<Rightarrow> first_result" where
  "first_of_parts [] = FirstOk None"
| "first_of_parts (part # parts) =
     (case first_single (str_trim part) of
        FirstOk None \<Rightarrow> first_of_parts parts
      | r \<Rightarrow> r)"

definition expand_first :: "string \<Rightarrow> first_result" where
  "expand_first pattern = first_of_parts (split_top_level pattern)"

section \<open>Bounds\<close>

definition host_bounds :: "limits \<Rightarrow> string list \<Rightarrow> bool" where
  "host_bounds limits hosts = (length hosts \<le> fst limits \<and> list_all (\<lambda>h. length h \<le> fst (snd limits)) hosts)"

lemma push_host_bounds: "push_host limits name results = Inr results' \<Longrightarrow> host_bounds limits results \<Longrightarrow> host_bounds limits results'"
  by (auto simp: push_host_def host_bounds_def split: prod.splits if_splits)

text \<open>One part of a bracket group, with \<open>push\<close> for what is done with each text that replaces the group.\<close>

lemma range_part_bounds:
  assumes p: "(case parse_range_bounds part of Inl e \<Rightarrow> Inl e
      | Inr None \<Rightarrow> push part rs
      | Inr (Some (start, stop, width)) \<Rightarrow>
          if fst limits < range_total (length rs) start stop
          then Inl (HlTooLarge (range_total (length rs) start stop) (fst limits))
          else fold_err (\<lambda>i rs. case push (pad_num width i) rs of Inl e \<Rightarrow> Inl e
              | Inr rs' \<Rightarrow> if fst limits < length rs' then Inl (HlTooLarge (length rs') (fst limits)) else Inr rs')
            [start..<Suc stop] rs) = Inr rs'"
    and rs: "host_bounds limits rs"
    and single: "\<And>s t. parse_range_bounds part = Inr None \<Longrightarrow> push part s = Inr t \<Longrightarrow> host_bounds limits s \<Longrightarrow> host_bounds limits t"
    and ranged: "\<And>start stop width i s t. parse_range_bounds part = Inr (Some (start, stop, width))
      \<Longrightarrow> \<not> fst limits < range_total (length rs) start stop \<Longrightarrow> i \<in> set [start..<Suc stop]
      \<Longrightarrow> push (pad_num width i) s = Inr t \<Longrightarrow> host_bounds limits s \<Longrightarrow> host_bounds limits t"
  shows "host_bounds limits rs'"
proof (cases "parse_range_bounds part")
  case (Inr ob)
  show ?thesis
  proof (cases ob)
    case None
    then show ?thesis using single [of rs rs'] p Inr rs by simp
  next
    case (Some b)
    obtain start stop width where b: "b = (start, stop, width)" by (cases b)
    have small: "\<not> fst limits < range_total (length rs) start stop" using p Inr Some b by (simp split: if_split_asm)
    then have "fold_err (\<lambda>i rs. case push (pad_num width i) rs of Inl e \<Rightarrow> Inl e
        | Inr rs' \<Rightarrow> if fst limits < length rs' then Inl (HlTooLarge (length rs') (fst limits)) else Inr rs')
      [start..<Suc stop] rs = Inr rs'" using p Inr Some b by simp
    then show ?thesis
    proof (rule fold_err_invariant [where P = "host_bounds limits", OF _ rs])
      fix i s t
      assume i: "i \<in> set [start..<Suc stop]" "host_bounds limits s"
        and "(case push (pad_num width i) s of Inl e \<Rightarrow> Inl e
          | Inr rs' \<Rightarrow> if fst limits < length rs' then Inl (HlTooLarge (length rs') (fst limits)) else Inr rs') = Inr t"
      then have "push (pad_num width i) s = Inr t" by (auto split: sum.splits if_split_asm)
      then show "host_bounds limits t" using ranged [OF _ small i(1) _ i(2)] Inr Some b by simp
    qed
  qed
qed (use p in simp)

lemma expand_single_bounds:
  "expand_single limits depth pattern results = Inr results' \<Longrightarrow> host_bounds limits results \<Longrightarrow> host_bounds limits results'"
proof (induction limits depth pattern results arbitrary: results' rule: expand_single.induct)
  case (1 limits depth pattern results)
  show ?case
  proof (cases "str_find (CHR ''['') pattern")
    case None
    then have "push_host limits pattern results = Inr results'"
      using "1.prems"(1) by (simp add: expand_single.simps [of limits depth pattern results] split: if_split_asm)
    then show ?thesis using "1.prems"(2) by (rule push_host_bounds)
  next
    case (Some bs)
    then obtain be where be: "str_find (CHR '']'') pattern = Some be" "\<not> be < bs" "\<not> snd (snd limits) < depth"
      using "1.prems"(1) by (subst (asm) expand_single.simps) (auto split: if_splits option.splits)
    note IH = "1.IH" [OF be(3) Some be(1,2)]
    define push where "push = (\<lambda>x rs. if CHR ''['' \<in> set (drop (Suc be) pattern)
        then expand_single limits (depth + 1) (take bs pattern @ x @ drop (Suc be) pattern) rs
        else push_host limits (take bs pattern @ x @ drop (Suc be) pattern) rs)"
    have pushed: "host_bounds limits t"
      if "push x s = Inr t" "host_bounds limits s"
        and "CHR ''['' \<in> set (drop (Suc be) pattern) \<Longrightarrow>
          expand_single limits (depth + 1) (take bs pattern @ x @ drop (Suc be) pattern) s = Inr t \<Longrightarrow> host_bounds limits t" for x s t
      using that push_host_bounds [of limits _ s t] by (simp add: push_def split: if_split_asm)
    have step: "host_bounds limits rs'"
      if part: "part \<in> set (str_split (CHR '','') (take (be - Suc bs) (drop (Suc bs) pattern)))" "host_bounds limits rs"
        and p: "(case parse_range_bounds part of Inl e \<Rightarrow> Inl e
          | Inr None \<Rightarrow> push part rs
          | Inr (Some (start, stop, width)) \<Rightarrow>
              if fst limits < range_total (length rs) start stop
              then Inl (HlTooLarge (range_total (length rs) start stop) (fst limits))
              else fold_err (\<lambda>i rs. case push (pad_num width i) rs of Inl e \<Rightarrow> Inl e
                  | Inr rs' \<Rightarrow> if fst limits < length rs' then Inl (HlTooLarge (length rs') (fst limits)) else Inr rs')
                [start..<Suc stop] rs) = Inr rs'" for part rs rs'
      by (rule range_part_bounds [OF p part(2)]; erule (1) pushed)
        (rule IH(1) [OF part(1) _ refl] IH(2) [OF part(1) _ refl refl refl]; assumption)+
    show ?thesis
      using "1.prems"(1) Some be
      apply (subst (asm) expand_single.simps)
      apply simp
      apply (erule fold_err_invariant [where P = "host_bounds limits", OF _ "1.prems"(2)])
      apply (rule step [unfolded push_def]; assumption)
      done
  qed
qed

lemma expand_with_limits_bounds:
  assumes "expand_with_limits pattern mh mn md = Inr hosts"
  shows "host_bounds (mh, mn, md) hosts" and "[] \<notin> set hosts"
proof -
  obtain results where fold: "fold_err (\<lambda>part results. expand_single (mh, mn, md) 0 (str_trim part) results)
      (split_top_level pattern) [] = Inr results" and hosts: "hosts = filter (\<lambda>s. s \<noteq> []) results"
    using assms by (auto simp: expand_with_limits_def split: sum.splits)
  have "host_bounds (mh, mn, md) results"
    using fold_err_invariant [OF fold, where P = "host_bounds (mh, mn, md)"] expand_single_bounds [of "(mh, mn, md)"]
    by (simp add: host_bounds_def)
  then show "host_bounds (mh, mn, md) hosts"
    by (auto simp: host_bounds_def hosts list_all_iff intro: order_trans [OF length_filter_le])
  show "[] \<notin> set hosts" using hosts by simp
qed

section \<open>Reversed brackets\<close>

lemma blank_part: "first_single [] = FirstOk None"
  by (subst first_single.simps) simp

lemma reversed_part:
  assumes "str_find (CHR ''['') p = Some bs" and "str_find (CHR '']'') p = Some be" and "be < bs"
  shows "\<exists>e. expand_single limits depth p results = Inl e" and "first_single p = FirstPanic"
proof -
  have "p \<noteq> []" using str_find_Some(1) [OF assms(1)] by auto
  then show "first_single p = FirstPanic" using assms by (simp add: first_single.simps)
  show "\<exists>e. expand_single limits depth p results = Inl e" using assms by (simp add: expand_single.simps)
qed

lemma fold_err_fails:
  assumes "\<And>s. \<exists>e. f x s = Inl e"
  shows "\<exists>e. fold_err f (xs @ x # ys) s = Inl e"
proof (induction xs arbitrary: s)
  case Nil
  then show ?case using assms [of s] by auto
qed (auto split: sum.split)

section \<open>Properties\<close>

text \<open>
  C30. A bounded expansion that returns gives at most as many names as its limit, none of them empty and none
  longer than the limit on names, whatever ranges the pattern multiplies together.
\<close>

theorem expand_bounded_result:
  assumes "expand_bounded pattern max_hosts max_name_bytes = Inr hosts"
  shows "length hosts \<le> max_hosts \<and> (\<forall>h \<in> set hosts. h \<noteq> [] \<and> length h \<le> max_name_bytes)"
  using expand_with_limits_bounds [OF assms [unfolded expand_bounded_def]] by (auto simp: host_bounds_def list_all_iff)

lemma sample_hosts: "expand_bounded ''n[a,b],m'' 5 4 = Inr [''na'', ''nb'', ''m'']"
proof -
  have split: "split_top_level ''n[a,b],m'' = [''n[a,b]'', ''m'']" "str_trim ''n[a,b]'' = ''n[a,b]''" "str_trim ''m'' = ''m''"
    by code_simp+
  have find: "str_find (CHR ''['') ''n[a,b]'' = Some 1" "str_find (CHR '']'') ''n[a,b]'' = Some 5" "str_find (CHR ''['') ''m'' = None"
    "str_find (CHR ''-'') ''a'' = None" "str_find (CHR ''-'') ''b'' = None" "str_split (CHR '','') ''a,b'' = [''a'', ''b'']"
    by code_simp+
  have "expand_single (5, 4, 64) 0 ''n[a,b]'' [] = Inr [''na'', ''nb'']"
    using find by (simp add: expand_single.simps [of _ _ "''n[a,b]''"] push_host_def parse_range_bounds_def)
  moreover have "expand_single (5, 4, 64) 0 ''m'' [''na'', ''nb''] = Inr [''na'', ''nb'', ''m'']"
    using find(3) by (simp add: expand_single.simps [of _ _ "''m''"] push_host_def)
  ultimately show ?thesis using split by (simp add: expand_bounded_def expand_with_limits_def)
qed

theorem expand_bounded_result_witness:
  "expand_bounded ''n[a,b],m'' 5 4 = Inr [''na'', ''nb'', ''m''] \<and> list_all (\<lambda>h. length h \<le> 4) [''na'', ''nb'', ''m'']"
  using expand_bounded_result [OF sample_hosts] sample_hosts by simp

text \<open>
  C31. The short cut for the first name is not the equivalent its description states: when the first item of a
  pattern that is not blank has a closing bracket before its first opening one, \<^verbatim>\<open>expand\<close> returns an
  error while \<^verbatim>\<open>expand_first\<close> slices a reversed range and panics.
\<close>

theorem expand_first_panics_on_reversed_brackets:
  assumes "split_top_level pattern = blanks @ part # rest" and "\<forall>b \<in> set blanks. str_trim b = []"
    and "str_find (CHR ''['') (str_trim part) = Some bs" and "str_find (CHR '']'') (str_trim part) = Some be" and "be < bs"
  shows "(\<exists>e. expand pattern = Inl e) \<and> expand_first pattern = FirstPanic"
proof
  obtain e where "fold_err (\<lambda>part results. expand_single (max_hostlist_size, usize_max, usize_max) 0 (str_trim part) results)
      (blanks @ part # rest) [] = Inl e"
    using fold_err_fails [of "\<lambda>part results. expand_single (max_hostlist_size, usize_max, usize_max) 0 (str_trim part) results"]
      reversed_part(1) [OF assms(3-5)] by blast
  then show "\<exists>e. expand pattern = Inl e" by (simp add: expand_def expand_with_limits_def assms(1))
  have "first_of_parts (blanks @ part # rest) = FirstPanic"
    using assms(2) by (induction blanks) (simp_all add: reversed_part(2) [OF assms(3-5)] blank_part)
  then show "expand_first pattern = FirstPanic" by (simp add: expand_first_def assms(1))
qed

theorem expand_first_panics_on_reversed_brackets_witness:
  "(\<exists>e. expand '' ,a]b[1'' = Inl e) \<and> expand_first '' ,a]b[1'' = FirstPanic"
proof (rule expand_first_panics_on_reversed_brackets)
  show "split_top_level '' ,a]b[1'' = [CHR '' '' # []] @ ''a]b[1'' # []" by code_simp
  show "str_find (CHR ''['') (str_trim ''a]b[1'') = Some 3" "str_find (CHR '']'') (str_trim ''a]b[1'') = Some 1" by code_simp+
  show "\<forall>b \<in> set [CHR '' '' # []]. str_trim b = []" by code_simp
qed simp

end
