(* ===== verification/Node.thy ===== *)
theory Node
  imports Cpu_Layout Hostlist Job
begin

text \<open>
  Nodes (\<^verbatim>\<open>spur-core/src/node.rs\<close>), the configuration entries that apply to them
  (\<^verbatim>\<open>NodeConfig\<close> of \<^verbatim>\<open>config.rs\<close>) and the controller functions that
  derive a node's schedulable inventory, layout and partitions from the configuration
  (\<^verbatim>\<open>spurctld/src/cluster.rs\<close>). Constructors of \<^verbatim>\<open>NodeState\<close> carry the
  prefix \<open>NS_\<close>.
\<close>

section \<open>Node states\<close>

datatype node_state =
    NS_Idle | NS_Allocated | NS_Mixed | NS_Down | NS_Drain | NS_Draining | NS_Error | NS_Unknown | NS_Suspended

datatype node_event =
    Register | HeartbeatTimeout | HeartbeatRecovered | AdminSetState node_state | PowerSuspend | PowerResume

fun node_transition :: "node_state \<Rightarrow> node_event \<Rightarrow> bool \<Rightarrow> node_state option" where
  "node_transition s Register admin_locked = (if s = NS_Unknown then Some NS_Idle else None)"
| "node_transition s HeartbeatTimeout admin_locked =
     (if s = NS_Down \<or> s = NS_Drain then None else Some NS_Down)"
| "node_transition s HeartbeatRecovered admin_locked =
     (if (s = NS_Down \<or> s = NS_Error) \<and> \<not> admin_locked then Some NS_Idle else None)"
| "node_transition s PowerSuspend admin_locked = Some NS_Suspended"
| "node_transition s PowerResume admin_locked = (if s = NS_Suspended then Some NS_Idle else None)"
| "node_transition s (AdminSetState target) admin_locked = Some target"

definition is_admin_hold :: "node_state \<Rightarrow> bool" where
  "is_admin_hold s = (s \<in> {NS_Down, NS_Drain, NS_Draining, NS_Error, NS_Suspended})"

definition is_unavailable :: "node_state \<Rightarrow> bool" where
  "is_unavailable s = (s \<in> {NS_Down, NS_Drain, NS_Draining, NS_Error})"

fun ns_display :: "node_state \<Rightarrow> string" where
  "ns_display NS_Idle = ''idle''"
| "ns_display NS_Allocated = ''allocated''"
| "ns_display NS_Mixed = ''mixed''"
| "ns_display NS_Down = ''down''"
| "ns_display NS_Drain = ''drained''"
| "ns_display NS_Draining = ''draining''"
| "ns_display NS_Error = ''error''"
| "ns_display NS_Unknown = ''unknown''"
| "ns_display NS_Suspended = ''suspended''"

fun ns_display_upper :: "node_state \<Rightarrow> string" where
  "ns_display_upper NS_Idle = ''IDLE''"
| "ns_display_upper NS_Allocated = ''ALLOCATED''"
| "ns_display_upper NS_Mixed = ''MIXED''"
| "ns_display_upper NS_Down = ''DOWN''"
| "ns_display_upper NS_Drain = ''DRAINED''"
| "ns_display_upper NS_Draining = ''DRAINING''"
| "ns_display_upper NS_Error = ''ERROR''"
| "ns_display_upper NS_Unknown = ''UNKNOWN''"
| "ns_display_upper NS_Suspended = ''SUSPENDED''"

fun ns_short :: "node_state \<Rightarrow> string" where
  "ns_short NS_Idle = ''idle''"
| "ns_short NS_Allocated = ''alloc''"
| "ns_short NS_Mixed = ''mix''"
| "ns_short NS_Down = ''down''"
| "ns_short NS_Drain = ''drain''"
| "ns_short NS_Draining = ''drng''"
| "ns_short NS_Error = ''err''"
| "ns_short NS_Unknown = ''unk''"
| "ns_short NS_Suspended = ''susp''"

definition is_available :: "node_state \<Rightarrow> bool" where
  "is_available s = (s \<in> {NS_Idle, NS_Mixed})"

definition is_up :: "node_state \<Rightarrow> bool" where
  "is_up s = (s \<in> {NS_Idle, NS_Mixed, NS_Allocated})"

definition all_node_states :: "node_state list" where
  "all_node_states = [NS_Idle, NS_Allocated, NS_Mixed, NS_Down, NS_Drain, NS_Draining, NS_Error, NS_Unknown, NS_Suspended]"

datatype proto_node_state =
    NodeIdle | NodeAllocated | NodeMixed | NodeDown | NodeDrain | NodeDraining | NodeError | NodeUnknown | NodeSuspended

fun ns_from_proto :: "proto_node_state \<Rightarrow> node_state" where
  "ns_from_proto NodeIdle = NS_Idle"
| "ns_from_proto NodeAllocated = NS_Allocated"
| "ns_from_proto NodeMixed = NS_Mixed"
| "ns_from_proto NodeDown = NS_Down"
| "ns_from_proto NodeDrain = NS_Drain"
| "ns_from_proto NodeDraining = NS_Draining"
| "ns_from_proto NodeError = NS_Error"
| "ns_from_proto NodeUnknown = NS_Unknown"
| "ns_from_proto NodeSuspended = NS_Suspended"

fun ns_to_proto :: "node_state \<Rightarrow> proto_node_state" where
  "ns_to_proto NS_Idle = NodeIdle"
| "ns_to_proto NS_Allocated = NodeAllocated"
| "ns_to_proto NS_Mixed = NodeMixed"
| "ns_to_proto NS_Down = NodeDown"
| "ns_to_proto NS_Drain = NodeDrain"
| "ns_to_proto NS_Draining = NodeDraining"
| "ns_to_proto NS_Error = NodeError"
| "ns_to_proto NS_Unknown = NodeUnknown"
| "ns_to_proto NS_Suspended = NodeSuspended"

fun node_discriminant :: "proto_node_state \<Rightarrow> int" where
  "node_discriminant NodeIdle = 0"
| "node_discriminant NodeAllocated = 1"
| "node_discriminant NodeMixed = 2"
| "node_discriminant NodeDown = 3"
| "node_discriminant NodeDrain = 4"
| "node_discriminant NodeDraining = 5"
| "node_discriminant NodeError = 6"
| "node_discriminant NodeUnknown = 7"
| "node_discriminant NodeSuspended = 8"

definition ns_from_proto_i32 :: "int \<Rightarrow> node_state option" where
  "ns_from_proto_i32 v =
     map_option ns_from_proto (find (\<lambda>p. node_discriminant p = v) (map ns_to_proto all_node_states))"

definition ns_to_proto_i32 :: "node_state \<Rightarrow> int" where
  "ns_to_proto_i32 s = node_discriminant (ns_to_proto s)"

definition from_short_or_name :: "string \<Rightarrow> node_state option" where
  "from_short_or_name s =
     (let lower = to_lowercase s in find (\<lambda>st. ns_short st = lower \<or> ns_display st = lower) all_node_states)"

text \<open>The fields of the wire message that \<^verbatim>\<open>node_overlay\<close> reads.\<close>

record node_info =
  ni_state :: int
  ni_in_reservation :: bool
  ni_active_reservation :: string
  ni_reservation_maint :: bool
  ni_planned_job_id :: u32

datatype node_overlay = OverlayReserved bool | OverlayPlanned

definition node_overlay_of :: "node_info \<Rightarrow> node_overlay option" where
  "node_overlay_of node =
     (if ni_state node \<noteq> node_discriminant NodeIdle then None
      else if ni_in_reservation node \<or> ni_active_reservation node \<noteq> [] then
        Some (OverlayReserved (ni_reservation_maint node))
      else if ni_planned_job_id node \<noteq> 0 then Some OverlayPlanned
      else None)"

section \<open>Node sources\<close>

datatype node_source = NativeHost | Kubernetes string

definition k8s_operator_version :: string where
  "k8s_operator_version = ''spur-k8s-operator''"

definition k8s_namespace_label :: string where
  "k8s_namespace_label = ''spur.amd.com/k8s-namespace''"

definition node_source_from_registration :: "string \<Rightarrow> (string, string) hashmap \<Rightarrow> node_source" where
  "node_source_from_registration version labels =
     (if version = k8s_operator_version then
        Kubernetes (case hm_get labels k8s_namespace_label of
            None \<Rightarrow> ''default''
          | Some ns \<Rightarrow> if ns = [] then ''default'' else ns)
      else NativeHost)"

definition resolve_wal_node_source :: "node_source \<Rightarrow> string \<Rightarrow> (string, string) hashmap \<Rightarrow> node_source" where
  "resolve_wal_node_source source version labels =
     (case source of
        NativeHost \<Rightarrow> node_source_from_registration version labels
      | Kubernetes _ \<Rightarrow> source)"

section \<open>Nodes\<close>

datatype k0s_role = K0sController | K0sWorker | K0sSingle

record node =
  n_name :: string
  n_hostname :: string
  n_state :: node_state
  n_state_reason :: "string option"
  n_reason_uid :: "u32 option"
  n_reason_time :: "instant option"
  n_admin_locked :: bool
  n_partitions :: "string list"
  n_source :: node_source
  n_total_resources :: resource_set
  n_detected_resources :: resource_set
  n_alloc_resources :: resource_allocations
  n_features :: "string list"
  n_labels :: "(string, string) hashmap"
  n_arch :: string
  n_os :: string
  n_cpu_load :: u32
  n_free_memory_mb :: u64
  n_boot_time :: "instant option"
  n_last_busy :: "instant option"
  n_agent_start_time :: "instant option"
  n_last_heartbeat :: "instant option"
  n_address :: "string option"
  n_port :: u16
  n_wg_pubkey :: "string option"
  n_version :: "string option"
  n_weight :: u32
  n_switch_name :: "string option"
  n_k0s_role :: "k0s_role option"
  n_k0s_mesh_ip :: "string option"
  n_k0s_pod_cidr :: "string option"
  n_k0s_last_error :: "string option"
  n_core_layout :: "core_layout option"
  n_layout_error :: "string option"
  n_spec_memory_mb :: u64
  n_layout_seq :: u64
  n_layout_enforce_error :: "string option"
  n_capabilities :: "string list"

definition default_weight :: u32 where
  "default_weight = 1"

definition node_new :: "string \<Rightarrow> resource_set \<Rightarrow> node" where
  "node_new name resources = \<lparr>
     n_name = name, n_hostname = [], n_state = NS_Unknown, n_state_reason = None,
     n_reason_uid = None, n_reason_time = None, n_admin_locked = False, n_partitions = [],
     n_source = NativeHost, n_total_resources = resources, n_detected_resources = resources,
     n_alloc_resources = ra_default, n_features = [], n_labels = [], n_arch = [], n_os = [],
     n_cpu_load = 0, n_free_memory_mb = 0, n_boot_time = None, n_last_busy = None,
     n_agent_start_time = None, n_last_heartbeat = None, n_address = None, n_port = 6818,
     n_wg_pubkey = None, n_version = None, n_weight = default_weight, n_switch_name = None,
     n_k0s_role = None, n_k0s_mesh_ip = None, n_k0s_pod_cidr = None, n_k0s_last_error = None,
     n_core_layout = None, n_layout_error = None, n_spec_memory_mb = 0, n_layout_seq = 0,
     n_layout_enforce_error = None, n_capabilities = []\<rparr>"

definition node_supports :: "node \<Rightarrow> string \<Rightarrow> bool" where
  "node_supports node capability = (capability \<in> set (n_capabilities node))"

definition reset_config_policy :: "node \<Rightarrow> node" where
  "reset_config_policy node = node\<lparr>n_features := [], n_weight := default_weight\<rparr>"

definition can_satisfy_request :: "node \<Rightarrow> resource_set \<Rightarrow> bool" where
  "can_satisfy_request node request =
     can_satisfy_with_allocated (n_total_resources node) (n_alloc_resources node) request"

definition has_free_cpu_capacity :: "node \<Rightarrow> bool" where
  "has_free_cpu_capacity node =
     (\<not> (rs_cpus (n_total_resources node) \<le> ra_cpus (n_alloc_resources node)
         \<and> 0 < rs_cpus (n_total_resources node)))"

definition layout_block_reason :: "node \<Rightarrow> string option" where
  "layout_block_reason node =
     (case n_layout_error node of
        Some e \<Rightarrow> Some (''core-layout: '' @ e)
      | None \<Rightarrow> map_option (\<lambda>e. ''core-layout: not enforced: '' @ e) (n_layout_enforce_error node))"

definition is_schedulable :: "node \<Rightarrow> bool" where
  "is_schedulable node = (is_available (n_state node) \<and> layout_block_reason node = None)"

definition cpu_tot :: "node \<Rightarrow> u32" where
  "cpu_tot node =
     rs_cpus (n_total_resources node) +
       (case n_core_layout node of None \<Rightarrow> 0 | Some l \<Rightarrow> of_nat (length (cl_spec_cpus l)))"

definition layout_drain_reason :: "node \<Rightarrow> string option" where
  "layout_drain_reason node = (if is_available (n_state node) then layout_block_reason node else None)"

definition is_k0s_reserved :: "node \<Rightarrow> bool" where
  "is_k0s_reserved node = (n_k0s_role node \<noteq> None)"

definition nothing_allocated :: "node \<Rightarrow> bool" where
  "nothing_allocated node =
     (ra_cpus (n_alloc_resources node) = 0 \<and> \<not> has_devices (n_alloc_resources node))"

definition update_state_from_alloc :: "node \<Rightarrow> node" where
  "update_state_from_alloc node =
     (if n_state node = NS_Draining then
        (if nothing_allocated node then node\<lparr>n_state := NS_Drain\<rparr> else node)
      else if is_admin_hold (n_state node) then node
      else if nothing_allocated node then node\<lparr>n_state := NS_Idle\<rparr>
      else if rs_cpus (n_total_resources node) \<le> ra_cpus (n_alloc_resources node)
      then node\<lparr>n_state := NS_Allocated\<rparr>
      else node\<lparr>n_state := NS_Mixed\<rparr>)"

section \<open>Configuration policy\<close>

record node_config =
  cf_names :: string
  cf_selector :: "(string, string) hashmap"
  cf_cpus :: u32
  cf_memory_mb :: u64
  cf_reserved_memory_mb :: u64
  cf_gres :: "string list"
  cf_features :: "string list"
  cf_address :: "string option"
  cf_weight :: u32
  cf_core_spec_count :: "u32 option"
  cf_cpu_spec_list :: "string option"
  cf_daemons_off_spec :: bool

definition settings_from_config :: "node_config \<Rightarrow> node_core_settings" where
  "settings_from_config nc =
     \<lparr>cs_core_spec_count = cf_core_spec_count nc, cs_cpu_spec_list = cf_cpu_spec_list nc,
      cs_reserved_memory_mb = cf_reserved_memory_mb nc, cs_daemons_off_spec = cf_daemons_off_spec nc\<rparr>"

definition hostlist_names :: "string \<Rightarrow> string \<Rightarrow> bool" where
  "hostlist_names pattern name =
     (if pattern = [] then False
      else if to_lowercase pattern = ''all'' then True
      else case expand pattern of Inl _ \<Rightarrow> False | Inr hosts \<Rightarrow> name \<in> set hosts)"

definition selector_matches :: "(string, string) hashmap \<Rightarrow> (string, string) hashmap \<Rightarrow> bool" where
  "selector_matches selector labels =
     (selector \<noteq> [] \<and> list_all (\<lambda>(k, v). hm_get labels k = Some v) selector)"

definition partition_matches_node :: "partition \<Rightarrow> string \<Rightarrow> (string, string) hashmap \<Rightarrow> bool" where
  "partition_matches_node p node_name labels =
     (selector_matches (p_selector p) labels \<or> hostlist_names (p_nodes p) node_name)"

definition node_config_matches :: "node_config \<Rightarrow> string \<Rightarrow> (string, string) hashmap \<Rightarrow> bool" where
  "node_config_matches nc node_name labels =
     (hostlist_names (cf_names nc) node_name \<or> selector_matches (cf_selector nc) labels)"

text \<open>
  The text of a layout error. \<^verbatim>\<open>{:?}\<close> quotes a string; \<open>str_debug\<close> gives the
  escapes of the printable range, which is what configuration files contain.
\<close>

definition str_debug :: "string \<Rightarrow> string" where
  "str_debug s = [CHR 0x22] @ concat (map (\<lambda>c.
      if c = CHR 0x22 then [CHR 0x5C, CHR 0x22]
      else if c = CHR 0x5C then [CHR 0x5C, CHR 0x5C]
      else if c = CHR 0x0A then [CHR 0x5C, CHR ''n'']
      else if c = CHR 0x0D then [CHR 0x5C, CHR ''r'']
      else if c = CHR 0x09 then [CHR 0x5C, CHR ''t'']
      else [c]) s) @ [CHR 0x22]"

fun cpu_list_error_text :: "cpu_list_error \<Rightarrow> string" where
  "cpu_list_error_text (BadItem i) = ''invalid CPU list item '' @ str_debug i"
| "cpu_list_error_text (Reversed a b) = ''CPU range '' @ show_word a @ ''-'' @ show_word b @ '' is reversed''"
| "cpu_list_error_text (CpuTooLarge i) = ''CPU ID '' @ show_word i @ '' is out of range''"

fun layout_error_text :: "layout_error \<Rightarrow> string" where
  "layout_error_text MissingTopology = ''no CPU topology from spurd; restart or upgrade spurd''"
| "layout_error_text (BadSpecList e) = ''cpu_spec_list: '' @ cpu_list_error_text e"
| "layout_error_text (SpecCpuNotOnline c) = ''cpu_spec_list names CPU '' @ show_word c @ '', which is not online''"
| "layout_error_text (SpecTakesAllCores n) =
     ''spec cores would take all '' @ show_nat n @ '' cores, leaving none for jobs''"
| "layout_error_text (ReservedMemoryTakesAll r m) =
     ''reserved_memory_mb '' @ show_word r @ '' would leave none of the node'' @ [CHR 0x27] @ ''s ''
       @ show_word m @ '' MB for jobs''"

definition derive_core_layout :: "node_config option \<Rightarrow> node \<Rightarrow> node" where
  "derive_core_layout nc_opt node =
     (case nc_opt of
        None \<Rightarrow> node\<lparr>n_core_layout := None, n_layout_error := None, n_spec_memory_mb := 0\<rparr>
      | Some nc \<Rightarrow>
          (let node1 = node\<lparr>n_spec_memory_mb := cf_reserved_memory_mb nc\<rparr>
           in case n_source node1 of
                Kubernetes _ \<Rightarrow> node1\<lparr>n_core_layout := None, n_layout_error := None\<rparr>
              | NativeHost \<Rightarrow>
                  (case layout_compute (rs_topology (n_detected_resources node1)) (settings_from_config nc)
                          (rs_memory_mb (n_detected_resources node1)) of
                     Inr layout \<Rightarrow> node1\<lparr>n_core_layout := layout, n_layout_error := None\<rparr>
                   | Inl e \<Rightarrow> node1\<lparr>n_layout_error := Some (layout_error_text e)\<rparr>)))"

definition recompute_core_layout :: "node_config option \<Rightarrow> node \<Rightarrow> node" where
  "recompute_core_layout nc_opt node =
     (let before = map_option fingerprint (n_core_layout node);
          node' = derive_core_layout nc_opt node
      in if map_option fingerprint (n_core_layout node') \<noteq> before
         then node'\<lparr>n_layout_seq := n_layout_seq node' + 1\<rparr> else node')"

definition apply_node_config_policy :: "node_config list \<Rightarrow> node \<Rightarrow> node" where
  "apply_node_config_policy configs node =
     (let node1 =
        (case find (\<lambda>nc. node_config_matches nc (n_name node) (n_labels node)) configs of
           Some nc \<Rightarrow>
             (let a = recompute_core_layout (Some nc) (node\<lparr>n_features := cf_features nc, n_weight := cf_weight nc\<rparr>);
                  spec_cpus = (case n_core_layout a of None \<Rightarrow> 0 | Some l \<Rightarrow> of_nat (length (cl_spec_cpus l)));
                  b = a\<lparr>n_total_resources := clamped (n_detected_resources a) (cf_cpus nc) (cf_memory_mb nc)
                         (cf_reserved_memory_mb nc) spec_cpus\<rparr>
              in if n_address b = None \<and> cf_address nc \<noteq> None then b\<lparr>n_address := cf_address nc\<rparr> else b)
         | None \<Rightarrow>
             recompute_core_layout None
               (reset_config_policy (node\<lparr>n_total_resources := n_detected_resources node\<rparr>)))
      in if is_up (n_state node1) then update_state_from_alloc node1 else node1)"

text \<open>The partitions a node belongs to: those that match, else the default, else the first.\<close>

definition matched_partition_names :: "partition list \<Rightarrow> string \<Rightarrow> (string, string) hashmap \<Rightarrow> string list" where
  "matched_partition_names partitions name labels =
     (let matched = map p_name (filter (\<lambda>p. partition_matches_node p name labels) partitions)
      in if matched \<noteq> [] then matched
         else case find p_is_default partitions of
             Some dp \<Rightarrow> [p_name dp]
           | None \<Rightarrow> (case partitions of [] \<Rightarrow> [] | p # _ \<Rightarrow> [p_name p]))"

definition reconcile_partitions :: "partition list \<Rightarrow> node_config list \<Rightarrow> (string, node) hashmap \<Rightarrow> (string, node) hashmap" where
  "reconcile_partitions partitions configs nodes =
     map (\<lambda>(k, node). (k, apply_node_config_policy configs
        (node\<lparr>n_partitions := matched_partition_names partitions (n_name node) (n_labels node)\<rparr>))) nodes"

section \<open>Lemmas\<close>

lemma update_state_from_alloc_alloc [simp]:
  "n_alloc_resources (update_state_from_alloc node) = n_alloc_resources node"
  "n_name (update_state_from_alloc node) = n_name node"
  by (simp_all add: update_state_from_alloc_def)

lemma derive_core_layout_alloc [simp]:
  "n_alloc_resources (derive_core_layout nc node) = n_alloc_resources node"
  "n_state (derive_core_layout nc node) = n_state node"
  "n_detected_resources (derive_core_layout nc node) = n_detected_resources node"
  "n_name (derive_core_layout nc node) = n_name node"
  by (simp_all add: derive_core_layout_def Let_def split: option.splits node_source.splits sum.splits)

lemma recompute_core_layout_alloc [simp]:
  "n_alloc_resources (recompute_core_layout nc node) = n_alloc_resources node"
  "n_state (recompute_core_layout nc node) = n_state node"
  "n_detected_resources (recompute_core_layout nc node) = n_detected_resources node"
  "n_name (recompute_core_layout nc node) = n_name node"
  by (simp_all add: recompute_core_layout_def Let_def)

lemma apply_node_config_policy_alloc [simp]:
  "n_alloc_resources (apply_node_config_policy configs node) = n_alloc_resources node"
  "n_name (apply_node_config_policy configs node) = n_name node"
  by (simp_all add: apply_node_config_policy_def Let_def reset_config_policy_def split: option.splits)

end
