(* ===== verification/Wal.thy ===== *)
theory Wal
  imports Job_Props Node Reservation
begin

text \<open>
  The replicated log: every state-mutating operation (\<^verbatim>\<open>spur-core/src/wal.rs\<close>), its
  constructors and the leader's time stamp, with the admission-token and managed-cluster data
  it carries (\<^verbatim>\<open>admission.rs\<close>, \<^verbatim>\<open>k0s.rs\<close>). The struct-like variants with many
  fields are records.
\<close>

section \<open>Carried data\<close>

record admission_token =
  at_id :: string
  at_secret_hash :: string
  at_created_at :: instant
  at_expires_at :: "instant option"
  at_revoked :: bool

datatype k0s_phase = PhaseDown | PhaseProvisioning | PhaseReady | PhaseDegraded

record k0s_cluster_state =
  ks_phase :: k0s_phase
  ks_control_plane_node :: "string option"
  ks_control_plane_nodes :: "string list"
  ks_member_nodes :: "string list"
  ks_reset_requested :: bool

definition k0s_default :: k0s_cluster_state where
  "k0s_default = \<lparr>ks_phase = PhaseDown, ks_control_plane_node = None, ks_control_plane_nodes = [],
     ks_member_nodes = [], ks_reset_requested = False\<rparr>"

definition controllers :: "k0s_cluster_state \<Rightarrow> string list" where
  "controllers k =
     (if ks_control_plane_nodes k \<noteq> [] then ks_control_plane_nodes k
      else case ks_control_plane_node k of None \<Rightarrow> [] | Some n \<Rightarrow> [n])"

definition bootstrap :: "k0s_cluster_state \<Rightarrow> string option" where
  "bootstrap k =
     (case ks_control_plane_node k of
        Some n \<Rightarrow> Some n
      | None \<Rightarrow> (case ks_control_plane_nodes k of [] \<Rightarrow> None | n # _ \<Rightarrow> Some n))"

definition is_member :: "k0s_cluster_state \<Rightarrow> string \<Rightarrow> bool" where
  "is_member k name = (ks_member_nodes k = [] \<or> name \<in> set (ks_member_nodes k))"

section \<open>Operations\<close>

record job_state_change =
  sc_job_id :: job_id
  sc_old_state :: job_state
  sc_new_state :: job_state
  sc_pending_reason :: "pending_reason option"
  sc_pending_priority :: "u32 option"
  sc_begin_time :: "instant option"
  sc_pending_reason_desc :: "string option"
  sc_expected_run_attempt :: "u32 option"
  sc_at :: "instant option"

record job_start =
  sr_job_id :: job_id
  sr_nodes :: "string list"
  sr_resources :: resource_allocations
  sr_per_node_alloc :: "(string, resource_allocations) hashmap"
  sr_srun_step_dispatch :: bool
  sr_run_attempt :: u32
  sr_idle_fill :: bool
  sr_at :: "instant option"

record job_complete =
  jc_job_id :: job_id
  jc_exit_code :: int
  jc_state :: job_state
  jc_unreported_nodes :: "string list"
  jc_cancel :: "cancel_provenance option"
  jc_controller_initiated :: bool
  jc_at :: "instant option"

record job_priority_change =
  pc_job_id :: job_id
  pc_old_priority :: u32
  pc_new_priority :: u32
  pc_pending_reason :: "pending_reason option"
  pc_pending_reason_desc :: "string option"
  pc_reset_requeue_count :: bool
  pc_clear_reservation :: bool
  pc_run_attempt :: "u32 option"

record job_preempt_requeue =
  pq_job_id :: job_id
  pq_begin_time :: instant
  pq_preempted_by :: "job_id option"
  pq_preempt_qos :: "string option"
  pq_at :: "instant option"
  pq_run_attempt :: "u32 option"
  pq_handoff :: bool

record node_register =
  nr_name :: string
  nr_hostname :: string
  nr_resources :: resource_set
  nr_address :: string
  nr_port :: u16
  nr_wg_pubkey :: string
  nr_version :: string
  nr_labels :: "(string, string) hashmap"
  nr_source :: node_source
  nr_capabilities :: "string list"

record node_update =
  nu_name :: string
  nu_hostname :: string
  nu_resources :: resource_set
  nu_address :: string
  nu_port :: u16
  nu_wg_pubkey :: string
  nu_version :: string
  nu_source :: node_source
  nu_capabilities :: "string list"

record node_state_change =
  ns_name :: string
  ns_old_state :: node_state
  ns_new_state :: node_state
  ns_reason :: "string option"
  ns_admin_locked :: bool
  ns_reason_uid :: "u32 option"
  ns_reason_time :: "instant option"
  ns_at :: "instant option"

record partition_update =
  pu_name :: string
  pu_nodes :: "string option"
  pu_selector :: "(string, string) hashmap option"
  pu_state :: "string option"
  pu_max_time_minutes :: "u32 option option"
  pu_default_time_minutes :: "u32 option option"
  pu_max_nodes :: "u32 option option"
  pu_min_nodes :: "u32 option"
  pu_allow_accounts :: "string list option"
  pu_allow_groups :: "string list option"
  pu_deny_accounts :: "string list option"
  pu_deny_qos :: "string list option"
  pu_allow_qos :: "string list option"
  pu_priority_tier :: "u32 option"
  pu_preempt_mode :: "string option"
  pu_is_default :: "bool option"
  pu_preempt_exempt_time :: "u32 option option"
  pu_grace_time :: "u32 option option"

record reservation_update =
  ru_name :: string
  ru_duration_minutes :: u32
  ru_add_nodes :: "string list"
  ru_remove_nodes :: "string list"
  ru_add_users :: "string list"
  ru_remove_users :: "string list"
  ru_add_accounts :: "string list"
  ru_remove_accounts :: "string list"

record k0s_set_phase =
  kp_phase :: k0s_phase
  kp_control_plane_node :: "string option"
  kp_control_plane_nodes :: "string list"
  kp_member_nodes :: "string list"
  kp_reset_requested :: bool

text \<open>
  The positional variants list their fields in the order of the source:
  \<^verbatim>\<open>JobNodeComplete\<close> job, node, exit code, signal, run attempt, stamp;
  \<^verbatim>\<open>JobDispatchBackoff\<close> job, begin time, spare budget, run attempt, at maximum;
  \<^verbatim>\<open>JobPreemptCancel\<close> job, preempting job, its QOS, stamp, run attempt;
  \<^verbatim>\<open>JobUserRequeue\<close> job, hold, begin time, actor, stamp;
  \<^verbatim>\<open>JobSuspend\<close> job, stamp, preempting job, its QOS, actor.
\<close>

datatype (plugins only: code) wal_operation =
    JobSubmit job_id job_spec
  | JobStateChange job_state_change
  | JobStart job_start
  | JobComplete job_complete
  | JobNodeComplete job_id string int int u32 "instant option"
  | JobTimeLimitSignaled job_id instant
  | JobCancelSignaled job_id instant "cancel_provenance option"
  | JobStepComplete job_id u32 int
  | JobStepCreate job_step
  | JobPriorityChange job_priority_change
  | JobExcludeUpdate job_id "string option"
  | JobDispatchBackoff job_id instant bool u32 bool
  | JobPreemptRequeue job_preempt_requeue
  | JobPreemptCancel job_id "job_id option" "string option" "instant option" "u32 option"
  | JobUserRequeue job_id bool "instant option" "actor option" "instant option"
  | JobSuspend job_id instant "job_id option" "string option" "actor option"
  | JobResume job_id instant
  | JobEvict job_id "string option" "instant option"
  | JobLaunchFailureDetail job_id string
  | NodeRegister node_register
  | NodeUpdate node_update
  | NodeStateChange node_state_change
  | NodeLabelsUpdate string "(string, string) hashmap" "string list"
  | NodeRemove string "string option" "instant option"
  | TokenCreate admission_token
  | TokenRevoke string
  | PartitionCreate partition
  | PartitionUpdate partition_update
  | PartitionDelete string
  | ReservationCreate reservation
  | ReservationUpdate reservation_update
  | ReservationDelete string
  | NodeK0sAssign string k0s_role string string
  | K0sSetPhase k0s_set_phase
  | NodeK0sClear string
  | EvictTerminalJobs "job_id list"
  | NodeK0sSetError string "string option"
  | K0sMemberNodesAdd "string list"
  | K0sMemberNodesRemove "string list"
  | JobTimeLimitExpired job_id u32 instant
  | JobPreemptSignaled job_id preempt_pending

section \<open>Constructors\<close>

definition job_complete_op :: "job_id \<Rightarrow> int \<Rightarrow> job_state \<Rightarrow> wal_operation" where
  "job_complete_op i exit_code state =
     JobComplete \<lparr>jc_job_id = i, jc_exit_code = exit_code, jc_state = state, jc_unreported_nodes = [],
       jc_cancel = None, jc_controller_initiated = False, jc_at = None\<rparr>"

definition job_failed_by_controller :: "job_id \<Rightarrow> wal_operation" where
  "job_failed_by_controller i =
     JobComplete \<lparr>jc_job_id = i, jc_exit_code = -1, jc_state = Failed, jc_unreported_nodes = [],
       jc_cancel = None, jc_controller_initiated = True, jc_at = None\<rparr>"

definition job_cancelled :: "job_id \<Rightarrow> cancel_provenance \<Rightarrow> wal_operation" where
  "job_cancelled i cancel =
     JobComplete \<lparr>jc_job_id = i, jc_exit_code = -1, jc_state = Cancelled, jc_unreported_nodes = [],
       jc_cancel = Some cancel, jc_controller_initiated = False, jc_at = None\<rparr>"

definition state_change_of :: "job_id \<Rightarrow> job_state \<Rightarrow> job_state \<Rightarrow> job_state_change" where
  "state_change_of i old new =
     \<lparr>sc_job_id = i, sc_old_state = old, sc_new_state = new, sc_pending_reason = None,
      sc_pending_priority = None, sc_begin_time = None, sc_pending_reason_desc = None,
      sc_expected_run_attempt = None, sc_at = None\<rparr>"

definition job_state_change_op :: "job_id \<Rightarrow> job_state \<Rightarrow> job_state \<Rightarrow> wal_operation" where
  "job_state_change_op i old new = JobStateChange (state_change_of i old new)"

definition job_state_change_activating :: "job_id \<Rightarrow> u32 \<Rightarrow> wal_operation" where
  "job_state_change_activating i run_attempt =
     JobStateChange ((state_change_of i Pending Running)\<lparr>sc_expected_run_attempt := Some run_attempt\<rparr>)"

definition job_state_change_held_pending :: "job_id \<Rightarrow> job_state \<Rightarrow> pending_reason \<Rightarrow> wal_operation" where
  "job_state_change_held_pending i old reason =
     JobStateChange ((state_change_of i old Pending)\<lparr>sc_pending_reason := Some reason, sc_pending_priority := Some 0\<rparr>)"

definition job_state_change_held_pending_desc ::
  "job_id \<Rightarrow> job_state \<Rightarrow> pending_reason \<Rightarrow> string \<Rightarrow> wal_operation" where
  "job_state_change_held_pending_desc i old reason desc =
     JobStateChange ((state_change_of i old Pending)\<lparr>sc_pending_reason := Some reason, sc_pending_priority := Some 0,
       sc_pending_reason_desc := Some desc\<rparr>)"

definition job_state_change_backoff_pending ::
  "job_id \<Rightarrow> job_state \<Rightarrow> pending_reason \<Rightarrow> instant \<Rightarrow> wal_operation" where
  "job_state_change_backoff_pending i old reason begin_time =
     JobStateChange ((state_change_of i old Pending)\<lparr>sc_pending_reason := Some reason, sc_begin_time := Some begin_time\<rparr>)"

definition job_start_op ::
  "job_id \<Rightarrow> string list \<Rightarrow> resource_allocations \<Rightarrow> (string, resource_allocations) hashmap \<Rightarrow> wal_operation" where
  "job_start_op i nodes resources per_node_alloc =
     JobStart \<lparr>sr_job_id = i, sr_nodes = nodes, sr_resources = resources, sr_per_node_alloc = per_node_alloc,
       sr_srun_step_dispatch = False, sr_run_attempt = 0, sr_idle_fill = False, sr_at = None\<rparr>"

section \<open>Time stamps\<close>

definition occurred_at :: "wal_operation \<Rightarrow> instant option" where
  "occurred_at op =
     (case op of
        JobStart p \<Rightarrow> sr_at p
      | JobStateChange p \<Rightarrow> sc_at p
      | JobComplete p \<Rightarrow> jc_at p
      | JobNodeComplete _ _ _ _ _ at \<Rightarrow> at
      | JobPreemptRequeue p \<Rightarrow> pq_at p
      | JobUserRequeue _ _ _ _ at \<Rightarrow> at
      | JobEvict _ _ at \<Rightarrow> at
      | NodeStateChange p \<Rightarrow> ns_at p
      | NodeRemove _ _ at \<Rightarrow> at
      | JobSuspend _ at _ _ _ \<Rightarrow> Some at
      | JobResume _ at \<Rightarrow> Some at
      | JobTimeLimitSignaled _ at \<Rightarrow> Some at
      | JobTimeLimitExpired _ _ at \<Rightarrow> Some at
      | JobCancelSignaled _ at _ \<Rightarrow> Some at
      | JobPreemptSignaled _ pending \<Rightarrow> Some (pp_signaled_at pending)
      | _ \<Rightarrow> None)"

definition get_or_insert :: "'a \<Rightarrow> 'a option \<Rightarrow> 'a option" where
  "get_or_insert v slot = (case slot of None \<Rightarrow> Some v | Some w \<Rightarrow> Some w)"

definition stamp_occurred_at :: "instant \<Rightarrow> wal_operation \<Rightarrow> wal_operation" where
  "stamp_occurred_at now op =
     (case op of
        JobStart p \<Rightarrow> JobStart (p\<lparr>sr_at := get_or_insert now (sr_at p)\<rparr>)
      | JobStateChange p \<Rightarrow> JobStateChange (p\<lparr>sc_at := get_or_insert now (sc_at p)\<rparr>)
      | JobComplete p \<Rightarrow> JobComplete (p\<lparr>jc_at := get_or_insert now (jc_at p)\<rparr>)
      | JobNodeComplete i n c s r at \<Rightarrow> JobNodeComplete i n c s r (get_or_insert now at)
      | JobPreemptRequeue p \<Rightarrow> JobPreemptRequeue (p\<lparr>pq_at := get_or_insert now (pq_at p)\<rparr>)
      | JobUserRequeue i h b who at \<Rightarrow> JobUserRequeue i h b who (get_or_insert now at)
      | JobEvict i d at \<Rightarrow> JobEvict i d (get_or_insert now at)
      | NodeStateChange p \<Rightarrow> NodeStateChange (p\<lparr>ns_at := get_or_insert now (ns_at p)\<rparr>)
      | NodeRemove n r at \<Rightarrow> NodeRemove n r (get_or_insert now at)
      | _ \<Rightarrow> op)"

section \<open>Lemmas\<close>

lemma get_or_insert_Some [simp]: "get_or_insert v (Some w) = Some w" "get_or_insert v None = Some v"
  by (simp_all add: get_or_insert_def)

lemma get_or_insert_not_None [simp]: "get_or_insert v slot \<noteq> None"
  by (cases slot) simp_all

lemma get_or_insert_idem [simp]: "get_or_insert v (get_or_insert w slot) = get_or_insert w slot"
  by (cases slot) simp_all

lemma stamp_occurred_at_idem: "stamp_occurred_at later (stamp_occurred_at now op) = stamp_occurred_at now op"
  by (cases op) (simp_all add: stamp_occurred_at_def)

lemma stamp_keeps: "occurred_at op = Some t \<Longrightarrow> stamp_occurred_at now op = op"
  by (cases op) (simp_all add: stamp_occurred_at_def occurred_at_def)

end
