(* ===== verification/Bindings.thy ===== *)
theory Bindings
  imports Resource
begin

text \<open>
  GPU identities (\<^verbatim>\<open>spur-core/src/gpu_identity.rs\<close>), GPU property bindings
  (\<^verbatim>\<open>gpu_binding.rs\<close>) and fabric bindings (\<^verbatim>\<open>fabric_binding.rs\<close>). A hash or
  tree set that is only compared or searched is a set. The lemmas show that a binding accepted at dispatch
  is accepted by the weaker check made for steps, so a step is never refused on facts that
  were good enough to place the job.
\<close>

unbundle bit_operations_syntax

section \<open>GPU identities\<close>

definition stable_id_partition_mask :: u64 where
  "stable_id_partition_mask = 0xFF"

definition function_mask :: u64 where
  "function_mask = push_bit 8 0x7"

definition anchor :: "u64 \<Rightarrow> u64" where
  "anchor i = i AND NOT stable_id_partition_mask"

definition gpu_rank :: "u64 \<Rightarrow> u64" where
  "gpu_rank i = i AND stable_id_partition_mask"

definition gpu_function :: "u64 \<Rightarrow> u64" where
  "gpu_function i = drop_bit 8 (i AND function_mask)"

definition device_anchor :: "u64 \<Rightarrow> u64" where
  "device_anchor i = i AND NOT (stable_id_partition_mask OR function_mask)"

definition is_bdf_anchor :: "u64 \<Rightarrow> bool" where
  "is_bdf_anchor a = (a \<noteq> 0)"

definition legacy_normalized :: "u64 \<Rightarrow> u64 set \<Rightarrow> u64 option" where
  "legacy_normalized old anchors =
     (let f = gpu_function old; base = device_anchor old
      in if f \<noteq> 0 \<and> gpu_rank old = 0 \<and> is_bdf_anchor base \<and> anchor old \<notin> anchors \<and> base \<in> anchors
         then Some (base OR f) else None)"

definition or_self :: "u64 \<Rightarrow> u64 option \<Rightarrow> u64" where
  "or_self i opt = (case opt of None \<Rightarrow> i | Some j \<Rightarrow> j)"

definition current_anchor :: "u64 \<Rightarrow> u64 set \<Rightarrow> u64" where
  "current_anchor i anchors = anchor (or_self i (legacy_normalized i anchors))"

definition held_anchors :: "u64 set \<Rightarrow> u64 list \<Rightarrow> u64 set" where
  "held_anchors held current =
     (let anchors = set (map anchor current) in (\<lambda>i. current_anchor i anchors) ` held)"

definition legacy_partition_id :: "u64 \<Rightarrow> u64 set \<Rightarrow> u64 option" where
  "legacy_partition_id old current =
     (case legacy_normalized old (anchor ` current) of
        None \<Rightarrow> None | Some i \<Rightarrow> if i \<in> current then Some i else None)"

record layout_diff =
  ld_renamed :: "(u64, u64) hashmap"
  ld_repartitioned :: "u64 set"

definition current_id :: "layout_diff \<Rightarrow> u64 \<Rightarrow> u64" where
  "current_id d old = or_self old (hm_get (ld_renamed d) old)"

definition safe_renames :: "layout_diff \<Rightarrow> (u64, u64) hashmap" where
  "safe_renames d = filter (\<lambda>(_, to). anchor to \<notin> ld_repartitioned d) (ld_renamed d)"

definition is_intact :: "layout_diff \<Rightarrow> u64 \<Rightarrow> u64 set \<Rightarrow> bool" where
  "is_intact d old current =
     (let i = current_id d old in i \<in> current \<and> anchor i \<notin> ld_repartitioned d)"

definition ranks_of_anchor :: "u64 list \<Rightarrow> u64 \<Rightarrow> u64 set" where
  "ranks_of_anchor ids a = set (map gpu_rank (filter (\<lambda>i. anchor i = a) ids))"

definition diff_layout :: "u64 list \<Rightarrow> u64 list \<Rightarrow> layout_diff" where
  "diff_layout old new =
     (let anchors = set (map anchor new);
          normalized = map (\<lambda>i. (i, or_self i (legacy_normalized i anchors))) old;
          before = map snd normalized
      in \<lparr>ld_renamed = foldl (\<lambda>m (o', i). hm_insert o' i m) [] (filter (\<lambda>(o', i). o' \<noteq> i) normalized),
          ld_repartitioned = set (filter (\<lambda>a. is_bdf_anchor a \<and> a \<in> anchors
              \<and> ranks_of_anchor new a \<noteq> ranks_of_anchor before a) (map anchor before))\<rparr>)"

section \<open>GPU property bindings\<close>

definition gpu_properties_capability :: u32 where
  "gpu_properties_capability = 3"

datatype binding_check = CheckDispatch | CheckStep

definition map_fabric :: "(fabric_observation \<Rightarrow> fabric_observation) \<Rightarrow> bound_gpu \<Rightarrow> bound_gpu" where
  "map_fabric f g =
     g\<lparr>bg_topology := map_option (\<lambda>t. t\<lparr>dt_fabric := map_option f (dt_fabric t)\<rparr>) (bg_topology g)\<rparr>"

definition device_facts :: "bound_gpu \<Rightarrow> bound_gpu" where
  "device_facts g = map_fabric without_peer_conflicts g"

definition keep_own_endpoints :: "fabric_observation \<Rightarrow> fabric_observation" where
  "keep_own_endpoints f =
     f\<lparr>fo_active_endpoints := filter (\<lambda>e. Some e = fo_endpoint_id f) (fo_active_endpoints f),
       fo_local_endpoints := filter (\<lambda>e. Some e = fo_endpoint_id f) (fo_local_endpoints f),
       fo_physical_capacity := None, fo_fabric_capacity := None\<rparr>"

definition own_facts :: "bound_gpu \<Rightarrow> bound_gpu" where
  "own_facts g = map_fabric keep_own_endpoints (device_facts g)"

definition bound_gpu_from :: "gpu_resource \<Rightarrow> bound_gpu" where
  "bound_gpu_from gpu =
     \<lparr>bg_stable_id = gr_stable_id gpu, bg_gpu_type = gr_gpu_type gpu, bg_topology = gr_topology gpu\<rparr>"

definition binding_generation_matches :: "u64 \<Rightarrow> resource_set \<Rightarrow> resource_allocations \<Rightarrow> bool" where
  "binding_generation_matches generation inventory allocation =
     (generation \<noteq> 0 \<and> generation = rs_generation inventory \<and> generation = ra_generation allocation)"

definition binding_gpu_ids_match :: "resource_allocations \<Rightarrow> u64 list \<Rightarrow> bool" where
  "binding_gpu_ids_match allocation bound_ids =
     (let devices = (case hm_get (ra_devices allocation) gpu_gres of None \<Rightarrow> [] | Some ds \<Rightarrow> ds)
      in distinct bound_ids \<and> set (map ad_device_id devices) = set bound_ids
         \<and> distinct (map ad_device_id devices) \<and> list_all (\<lambda>d. ad_count d = 1) devices)"

definition same_gpu :: "binding_check \<Rightarrow> gpu_resource \<Rightarrow> bound_gpu \<Rightarrow> bool" where
  "same_gpu check gpu expected =
     (case check of
        CheckDispatch \<Rightarrow> device_facts (bound_gpu_from gpu) = device_facts expected
      | CheckStep \<Rightarrow> own_facts (bound_gpu_from gpu) = own_facts expected)"

definition gpu_still_bound :: "binding_check \<Rightarrow> resource_set \<Rightarrow> bound_gpu \<Rightarrow> bool" where
  "gpu_still_bound check inventory expected =
     (case filter (\<lambda>g. gr_stable_id g = bg_stable_id expected) (rs_gpus inventory) of
        [g] \<Rightarrow> same_gpu check g expected
      | _ \<Rightarrow> False)"

definition gb_check :: "gpu_binding \<Rightarrow> string \<Rightarrow> resource_set \<Rightarrow> resource_allocations \<Rightarrow> binding_check \<Rightarrow> string + unit" where
  "gb_check b node inventory allocation check =
     (if node = [] \<or> gb_node b \<noteq> node \<or> rs_fabric_binding_version inventory < gpu_properties_capability then
        Inl ''GPU property binding has an invalid node or unsupported agent capability''
      else if gb_generation b \<noteq> ra_generation allocation
           \<or> (check = CheckDispatch \<and> \<not> binding_generation_matches (gb_generation b) inventory allocation) then
        Inl ''stale GPU property binding inventory generation''
      else if \<not> binding_gpu_ids_match allocation (map bg_stable_id (gb_gpus b)) then
        Inl ''GPU property binding does not match exact allocated devices''
      else if \<not> list_all (gpu_still_bound check inventory) (gb_gpus b) then
        Inl ''GPU properties changed or the allocated device disappeared''
      else Inr ())"

definition gb_validate :: "gpu_binding \<Rightarrow> string \<Rightarrow> resource_set \<Rightarrow> resource_allocations \<Rightarrow> string + unit" where
  "gb_validate b node inventory allocation = gb_check b node inventory allocation CheckDispatch"

definition gb_validate_step :: "gpu_binding \<Rightarrow> string \<Rightarrow> resource_set \<Rightarrow> resource_allocations \<Rightarrow> string + unit" where
  "gb_validate_step b node inventory allocation = gb_check b node inventory allocation CheckStep"

definition gb_new :: "string \<Rightarrow> resource_set \<Rightarrow> resource_allocations \<Rightarrow> string + gpu_binding" where
  "gb_new node inventory allocation =
     (let b = \<lparr>gb_node = node, gb_generation = ra_generation allocation,
               gb_gpus = map bound_gpu_from
                 (filter (\<lambda>g. gr_stable_id g \<in> set (device_ids allocation gpu_gres)) (rs_gpus inventory))\<rparr>
      in case gb_validate b node inventory allocation of Inl e \<Rightarrow> Inl e | Inr _ \<Rightarrow> Inr b)"

definition gb_rename_gpus :: "(u64, u64) hashmap \<Rightarrow> gpu_binding \<Rightarrow> gpu_binding" where
  "gb_rename_gpus renamed b =
     b\<lparr>gb_gpus := map (\<lambda>g. g\<lparr>bg_stable_id := or_self (bg_stable_id g) (hm_get renamed (bg_stable_id g))\<rparr>) (gb_gpus b)\<rparr>"

section \<open>Fabric bindings\<close>

definition fabric_binding_version :: u32 where
  "fabric_binding_version = 1"

definition file_binding_version :: u32 where
  "file_binding_version = 2"

definition declared_endpoint :: "string \<Rightarrow> u64 \<Rightarrow> string" where
  "declared_endpoint node stable_id = node @ ''/'' @ show_word stable_id"

definition fb_for_allocation :: "fabric_block \<Rightarrow> string \<Rightarrow> resource_allocations \<Rightarrow> string + fabric_binding" where
  "fb_for_allocation block node allocation =
     (if blk_issues block \<noteq> [] then Inl ''fabric block is not consistent''
      else
        (let ids = device_ids allocation gpu_gres;
             members = filter (\<lambda>m. fd_node (fm_device m) = node \<and> fd_stable_id (fm_device m) \<in> set ids) (blk_members block)
         in if length members \<noteq> card (set ids) then Inl ''allocated GPUs are outside the fabric block''
            else Inr \<lparr>fb_version = (if blk_file_revision block \<noteq> None then file_binding_version else fabric_binding_version),
                      fb_node = node, fb_inventory_generation = ra_generation allocation,
                      fb_key = blk_key block, fb_active_endpoints = blk_active_endpoints block,
                      fb_members = members, fb_file_revision = blk_file_revision block\<rparr>))"

definition fb_rename_gpus :: "(u64, u64) hashmap \<Rightarrow> fabric_binding \<Rightarrow> fabric_binding" where
  "fb_rename_gpus renamed b =
     (let endpoints = (case fb_file_revision b of
              None \<Rightarrow> []
            | Some _ \<Rightarrow> foldl (\<lambda>m (from, to).
                hm_insert (declared_endpoint (fb_node b) from) (declared_endpoint (fb_node b) to) m) [] renamed);
          rename_endpoint = (\<lambda>e. case hm_get endpoints e of None \<Rightarrow> e | Some to \<Rightarrow> to)
      in b\<lparr>fb_members := map (\<lambda>m. m\<lparr>
               fm_device := (fm_device m)\<lparr>fd_stable_id :=
                 or_self (fd_stable_id (fm_device m)) (hm_get renamed (fd_stable_id (fm_device m)))\<rparr>,
               fm_endpoint := rename_endpoint (fm_endpoint m)\<rparr>) (fb_members b),
           fb_active_endpoints := map rename_endpoint (fb_active_endpoints b)\<rparr>)"

definition is_hex_digit :: "char \<Rightarrow> bool" where
  "is_hex_digit c = (let n = of_char c :: nat in
     (48 \<le> n \<and> n \<le> 57) \<or> (65 \<le> n \<and> n \<le> 70) \<or> (97 \<le> n \<and> n \<le> 102))"

text \<open>The observation of a bound GPU against the binding, for a block that is not declared in a file.\<close>

definition observation_matches :: "fabric_binding \<Rightarrow> fabric_member \<Rightarrow> fabric_observation \<Rightarrow> binding_check \<Rightarrow> bool" where
  "observation_matches b m observation0 check =
     (let observation = (case check of CheckDispatch \<Rightarrow> observation0 | CheckStep \<Rightarrow> without_peer_conflicts observation0);
          endpoints_hold = (case check of
              CheckDispatch \<Rightarrow> set (fo_active_endpoints observation) = set (fb_active_endpoints b)
            | CheckStep \<Rightarrow> fm_endpoint m \<in> set (fo_active_endpoints observation))
      in fo_status observation = Consistent \<and> fo_issues observation = []
         \<and> fo_physical_domain_id observation = Some (fk_physical_domain (fb_key b))
         \<and> fo_fabric_domain_id observation = Some (fk_fabric_domain (fb_key b))
         \<and> fo_endpoint_id observation = Some (fm_endpoint m)
         \<and> fm_endpoint m \<in> set (fb_active_endpoints b)
         \<and> fm_endpoint m \<in> set (fo_local_endpoints observation)
         \<and> endpoints_hold)"

definition fb_check_member ::
  "fabric_binding \<Rightarrow> string \<Rightarrow> resource_set \<Rightarrow> resource_allocations \<Rightarrow> binding_check \<Rightarrow> fabric_member \<Rightarrow> string + unit" where
  "fb_check_member b node inventory allocation check m =
     (if fd_node (fm_device m) \<noteq> node \<or> fm_inventory_generation m \<noteq> ra_generation allocation then
        Inl ''fabric binding has a different node or inventory generation''
      else case filter (\<lambda>g. gr_stable_id g = fd_stable_id (fm_device m)) (rs_gpus inventory) of
          [] \<Rightarrow> Inl ''fabric binding GPU is missing''
        | g # rest \<Rightarrow>
            if rest \<noteq> [] then Inl ''fabric binding GPU identity is ambiguous''
            else
              (let observation = (case gr_topology g of None \<Rightarrow> None | Some t \<Rightarrow> dt_fabric t)
               in if fb_file_revision b \<noteq> None then
                    (if observation \<noteq> None
                        \<or> fm_endpoint m \<noteq> declared_endpoint node (fd_stable_id (fm_device m))
                        \<or> fm_endpoint m \<notin> set (fb_active_endpoints b)
                     then Inl ''declared membership no longer matches local inventory'' else Inr ())
                  else case observation of
                      None \<Rightarrow> Inl ''fabric observation is missing''
                    | Some obs \<Rightarrow>
                        if observation_matches b m obs check then Inr ()
                        else Inl ''fabric observation no longer matches the bound membership''))"

fun fb_check_members ::
  "fabric_binding \<Rightarrow> string \<Rightarrow> resource_set \<Rightarrow> resource_allocations \<Rightarrow> binding_check \<Rightarrow> fabric_member list \<Rightarrow> string + unit" where
  "fb_check_members b node inventory allocation check [] = Inr ()"
| "fb_check_members b node inventory allocation check (m # ms) =
     (case fb_check_member b node inventory allocation check m of
        Inl e \<Rightarrow> Inl e
      | Inr _ \<Rightarrow> fb_check_members b node inventory allocation check ms)"

definition fb_check ::
  "fabric_binding \<Rightarrow> string \<Rightarrow> string \<Rightarrow> resource_set \<Rightarrow> resource_allocations \<Rightarrow> binding_check \<Rightarrow> string + unit" where
  "fb_check b namespace node inventory allocation check =
     (let expected_version = (if fb_file_revision b \<noteq> None then file_binding_version else fabric_binding_version)
      in if fb_version b \<noteq> expected_version \<or> rs_fabric_binding_version inventory < fb_version b then
           Inl ''unsupported fabric binding version''
         else if fk_namespace (fb_key b) \<noteq> namespace \<or> namespace = []
              \<or> fk_physical_domain (fb_key b) = [] \<or> fk_fabric_domain (fb_key b) = [] then
           Inl ''invalid fabric binding scope''
         else if fb_node b \<noteq> node \<or> fb_inventory_generation b \<noteq> ra_generation allocation then
           Inl ''fabric binding targets a different node or generation''
         else if check = CheckDispatch \<and> \<not> binding_generation_matches (fb_inventory_generation b) inventory allocation then
           Inl ''stale fabric binding inventory generation''
         else if (case fb_file_revision b of None \<Rightarrow> False
                  | Some revision \<Rightarrow> length revision \<noteq> 64 \<or> \<not> list_all is_hex_digit revision) then
           Inl ''invalid block file revision''
         else if fb_file_revision b \<noteq> None \<and> check = CheckDispatch
              \<and> rs_block_file_revision inventory \<noteq> fb_file_revision b then
           Inl ''stale block file revision''
         else if fb_active_endpoints b = [] \<or> \<not> distinct (fb_active_endpoints b) then
           Inl ''invalid fabric binding endpoints''
         else if \<not> binding_gpu_ids_match allocation (map (fd_stable_id \<circ> fm_device) (fb_members b)) then
           Inl ''fabric binding does not match exact allocated GPUs''
         else fb_check_members b node inventory allocation check (fb_members b))"

definition fb_validate :: "fabric_binding \<Rightarrow> string \<Rightarrow> string \<Rightarrow> resource_set \<Rightarrow> resource_allocations \<Rightarrow> string + unit" where
  "fb_validate b namespace node inventory allocation = fb_check b namespace node inventory allocation CheckDispatch"

definition fb_validate_step :: "fabric_binding \<Rightarrow> string \<Rightarrow> string \<Rightarrow> resource_set \<Rightarrow> resource_allocations \<Rightarrow> string + unit" where
  "fb_validate_step b namespace node inventory allocation = fb_check b namespace node inventory allocation CheckStep"

section \<open>Lemmas\<close>

lemma checked_Inr_iff: "((if c then Inl e else r) = Inr u) \<longleftrightarrow> \<not> c \<and> r = Inr u"
  by simp

lemma own_facts_cong: "device_facts g = device_facts h \<Longrightarrow> own_facts g = own_facts h"
  by (simp add: own_facts_def)

lemma gpu_still_bound_weaken: "gpu_still_bound CheckDispatch inventory e \<Longrightarrow> gpu_still_bound CheckStep inventory e"
  by (auto simp: gpu_still_bound_def same_gpu_def intro: own_facts_cong split: list.splits)

lemma observation_matches_weaken:
  "observation_matches b m obs CheckDispatch \<Longrightarrow> observation_matches b m obs CheckStep"
  unfolding observation_matches_def Let_def binding_check.case
  by (simp add: without_peer_conflicts_consistent)

lemma fb_check_member_weaken:
  assumes "fb_check_member b node inventory allocation CheckDispatch m = Inr ()"
  shows "fb_check_member b node inventory allocation CheckStep m = Inr ()"
proof (cases "filter (\<lambda>g. gr_stable_id g = fd_stable_id (fm_device m)) (rs_gpus inventory)")
  case Nil
  show ?thesis
    using assms unfolding fb_check_member_def checked_Inr_iff Nil list.case by blast
next
  case (Cons g rest)
  let ?obs = "case gr_topology g of None \<Rightarrow> None | Some t \<Rightarrow> dt_fabric t"
  show ?thesis
  proof (cases ?obs)
    case None
    show ?thesis
      using assms unfolding fb_check_member_def checked_Inr_iff Cons list.case Let_def None option.case .
  next
    case (Some obs)
    show ?thesis
      using assms observation_matches_weaken [of b m obs]
      unfolding fb_check_member_def checked_Inr_iff Cons list.case Let_def Some option.case
      by (auto split: if_split_asm)
  qed
qed

lemma fb_check_members_weaken:
  "fb_check_members b node inventory allocation CheckDispatch ms = Inr () \<Longrightarrow>
     fb_check_members b node inventory allocation CheckStep ms = Inr ()"
  by (induction ms) (auto simp: fb_check_member_weaken split: sum.splits)

lemma gb_validate_Inr:
  "gb_validate g node inventory allocation = Inr () \<Longrightarrow> gb_validate_step g node inventory allocation = Inr ()"
  unfolding gb_validate_def gb_validate_step_def gb_check_def checked_Inr_iff
  by (simp add: list_all_iff gpu_still_bound_weaken)

lemma fb_validate_Inr:
  "fb_validate f namespace node inventory allocation = Inr () \<Longrightarrow>
     fb_validate_step f namespace node inventory allocation = Inr ()"
  unfolding fb_validate_def fb_validate_step_def fb_check_def Let_def checked_Inr_iff
  by (simp add: fb_check_members_weaken)

subsection \<open>Identities under a changed encoding\<close>

lemma partition_mask_eq: "stable_id_partition_mask = mask 8"
  by (simp add: stable_id_partition_mask_def mask_eq_exp_minus_1)

lemma function_mask_eq: "function_mask = push_bit 8 (mask 3)"
  by (simp add: function_mask_def mask_eq_exp_minus_1)

lemma anchor_of_legacy: "anchor (device_anchor i OR gpu_function i) = device_anchor i"
proof (rule bit_word_eqI)
  fix n
  assume "n < LENGTH(64)"
  then show "bit (anchor (device_anchor i OR gpu_function i)) n \<longleftrightarrow> bit (device_anchor i) n"
    by (auto simp: anchor_def device_anchor_def gpu_function_def partition_mask_eq function_mask_eq bit_simps)
qed

lemma legacy_normalized_Some:
  assumes "legacy_normalized i anchors = Some j"
  shows "anchor i \<notin> anchors \<and> anchor j \<in> anchors"
  using assms anchor_of_legacy by (auto simp: legacy_normalized_def Let_def split: if_splits)

lemma legacy_normalized_known: "anchor i \<in> anchors \<Longrightarrow> legacy_normalized i anchors = None"
  by (simp add: legacy_normalized_def Let_def)

lemma or_self_legacy_idem:
  "or_self (or_self i (legacy_normalized i anchors)) (legacy_normalized (or_self i (legacy_normalized i anchors)) anchors)
     = or_self i (legacy_normalized i anchors)"
  by (cases "legacy_normalized i anchors")
    (auto simp: or_self_def dest: legacy_normalized_Some split: option.splits)

lemma diff_layout_renamed:
  "hm_get (ld_renamed (diff_layout old new)) i =
     (let j = or_self i (legacy_normalized i (set (map anchor new)))
      in if i \<in> set old \<and> i \<noteq> j then Some j else None)"
proof -
  let ?f = "\<lambda>i. or_self i (legacy_normalized i (set (map anchor new)))"
  have "hm_get (foldl (\<lambda>m (o', i). hm_insert o' i m) m (filter (\<lambda>(o', i). o' \<noteq> i) (map (\<lambda>i. (i, ?f i)) ids))) i
          = (if i \<in> set ids \<and> i \<noteq> ?f i then Some (?f i) else hm_get m i)" for ids m
    by (induction ids arbitrary: m) (auto simp: hm_get_insert)
  from this [of "[]" old] show ?thesis
    by (simp add: diff_layout_def Let_def)
qed

lemma current_id_diff_layout:
  "current_id (diff_layout old new) i =
     (if i \<in> set old then or_self i (legacy_normalized i (set (map anchor new))) else i)"
  by (simp add: current_id_def diff_layout_renamed Let_def or_self_def)

lemma diff_layout_same: "diff_layout ids ids = \<lparr>ld_renamed = [], ld_repartitioned = {}\<rparr>"
proof -
  have n: "or_self i (legacy_normalized i (set (map anchor ids))) = i" if "i \<in> set ids" for i
    using that by (simp add: legacy_normalized_known or_self_def)
  have m: "map (\<lambda>i. (i, or_self i (legacy_normalized i (set (map anchor ids))))) ids = map (\<lambda>i. (i, i)) ids"
    using n by (intro map_cong) auto
  show ?thesis
    unfolding diff_layout_def Let_def m by (simp add: filter_map comp_def)
qed

section \<open>Properties\<close>

text \<open>
  C27. The step checks are weaker than the dispatch checks: whenever a job's GPU and fabric
  bindings pass validation for dispatch, they pass the validation of its steps against the
  same inventory and allocation.
\<close>

theorem dispatch_validation_implies_step_validation:
  "(gb_validate g node inventory allocation = Inr () \<longrightarrow> gb_validate_step g node inventory allocation = Inr ())
   \<and> (fb_validate f namespace node inventory allocation = Inr () \<longrightarrow>
        fb_validate_step f namespace node inventory allocation = Inr ())"
  by (simp add: gb_validate_Inr fb_validate_Inr)

definition sample_binding_gpu :: gpu_resource where
  "sample_binding_gpu = (sample_gpu 7 ''mi300x'')\<lparr>gr_topology := Some \<lparr>dt_pci_bdf = None, dt_numa_node = None,
     dt_pci_root = None, dt_vram_bytes = None, dt_fabric = Some (fabric_observation_default\<lparr>
       fo_status := Consistent, fo_physical_domain_id := Some ''p'', fo_fabric_domain_id := Some ''f'',
       fo_endpoint_id := Some ''e7'', fo_active_endpoints := [''e7'', ''e8''], fo_local_endpoints := [''e7'']\<rparr>)\<rparr>\<rparr>"

definition sample_binding_inventory :: resource_set where
  "sample_binding_inventory = rs_default\<lparr>rs_gpus := [sample_binding_gpu], rs_generation := 4, rs_fabric_binding_version := 3\<rparr>"

definition sample_binding_allocation :: resource_allocations where
  "sample_binding_allocation = ra_default\<lparr>ra_devices := [(gpu_gres, [injectable 7])], ra_generation := 4\<rparr>"

definition sample_gpu_binding :: gpu_binding where
  "sample_gpu_binding = \<lparr>gb_node = ''n1'', gb_generation = 4, gb_gpus = [bound_gpu_from sample_binding_gpu]\<rparr>"

definition sample_fabric_binding :: fabric_binding where
  "sample_fabric_binding = \<lparr>fb_version = 1, fb_node = ''n1'', fb_inventory_generation = 4,
     fb_key = \<lparr>fk_namespace = ''ns'', fk_physical_domain = ''p'', fk_fabric_domain = ''f''\<rparr>,
     fb_active_endpoints = [''e8'', ''e7''],
     fb_members = [\<lparr>fm_device = \<lparr>fd_node = ''n1'', fd_stable_id = 7\<rparr>, fm_endpoint = ''e7'', fm_inventory_generation = 4\<rparr>],
     fb_file_revision = None\<rparr>"

lemmas sample_binding_defs = sample_binding_gpu_def sample_binding_inventory_def sample_binding_allocation_def
  sample_gpu_binding_def sample_fabric_binding_def sample_gpu_def

theorem dispatch_validation_implies_step_validation_witness:
  "gb_validate sample_gpu_binding ''n1'' sample_binding_inventory sample_binding_allocation = Inr ()
   \<and> gb_validate_step sample_gpu_binding ''n1'' sample_binding_inventory sample_binding_allocation = Inr ()
   \<and> fb_validate sample_fabric_binding ''ns'' ''n1'' sample_binding_inventory sample_binding_allocation = Inr ()
   \<and> fb_validate_step sample_fabric_binding ''ns'' ''n1'' sample_binding_inventory sample_binding_allocation = Inr ()"
proof -
  have g: "gb_validate sample_gpu_binding ''n1'' sample_binding_inventory sample_binding_allocation = Inr ()"
    by (simp add: gb_validate_def gb_check_def binding_generation_matches_def binding_gpu_ids_match_def
        gpu_properties_capability_def gpu_still_bound_def same_gpu_def bound_gpu_from_def injectable_def
        sample_binding_defs rs_default_def ra_default_def)
  have f: "fb_validate sample_fabric_binding ''ns'' ''n1'' sample_binding_inventory sample_binding_allocation = Inr ()"
    by (simp add: fb_validate_def fb_check_def binding_generation_matches_def binding_gpu_ids_match_def
        fabric_binding_version_def injectable_def fb_check_member_def observation_matches_def
        fabric_observation_default_def sample_binding_defs rs_default_def ra_default_def insert_commute)
  show ?thesis
    using g f dispatch_validation_implies_step_validation [of sample_gpu_binding "''n1''" sample_binding_inventory
        sample_binding_allocation sample_fabric_binding "''ns''"] by blast
qed

text \<open>
  Carrying device ids over a re-registration settles: a renamed id is never itself
  renamed again, an id of the new inventory keeps its name, and registering the
  same inventory again renames nothing and voids no GPU.
\<close>

theorem diff_layout_renames_settle:
  "current_id (diff_layout old new) (current_id (diff_layout old new) i) = current_id (diff_layout old new) i
   \<and> (i \<in> set new \<longrightarrow> current_id (diff_layout old new) i = i)
   \<and> diff_layout new new = \<lparr>ld_renamed = [], ld_repartitioned = {}\<rparr>"
proof (intro conjI impI)
  show "current_id (diff_layout old new) (current_id (diff_layout old new) i) = current_id (diff_layout old new) i"
    unfolding current_id_diff_layout using or_self_legacy_idem [of i "set (map anchor new)"]
    by (cases "i \<in> set old") (simp_all del: set_map)
  show "i \<in> set new \<Longrightarrow> current_id (diff_layout old new) i = i"
    by (simp add: current_id_diff_layout legacy_normalized_known or_self_def)
qed (rule diff_layout_same)

theorem diff_layout_renames_settle_witness:
  "current_id (diff_layout [0x10100, 0x20000] [0x10000, 0x10001, 0x20000]) 0x10100 = 0x10001
   \<and> current_id (diff_layout [0x10100, 0x20000] [0x10000, 0x10001, 0x20000]) 0x10001 = 0x10001"
  using diff_layout_renames_settle 
    [where old = "[0x10100, 0x20000]" and new = "[0x10000, 0x10001, 0x20000]" and i = "0x10001"]
  by (simp add: current_id_diff_layout legacy_normalized_def anchor_def device_anchor_def gpu_function_def gpu_rank_def
      is_bdf_anchor_def stable_id_partition_mask_def function_mask_def or_self_def push_bit_eq_mult drop_bit_eq_div)

end
