(* ===== verification/Cluster.thy ===== *)
theory Cluster
  imports Wal Bindings
begin

text \<open>
  The controller's replicated state and the helpers its operations share
  (\<^verbatim>\<open>spurctld/src/cluster.rs\<close>): charging and releasing a placement, ending a run,
  returning a job to the queue, evicting jobs from a node and earmarking freed nodes for the
  preempting job. The locked maps of \<^verbatim>\<open>ClusterManager\<close> are the fields of one record;
  every operation runs with all the locks it takes held, so a sequential function of the record is what a commit does.
  Reads of the clock while an entry is applied are the single argument \<open>now\<close>.
\<close>

unbundle bit_operations_syntax

section \<open>State and responses\<close>

record k0s_role_counts =
  rc_controller :: u64
  rc_worker :: u64
  rc_single :: u64

fun role_counter :: "k0s_role \<Rightarrow> (u64 \<Rightarrow> u64) \<Rightarrow> k0s_role_counts \<Rightarrow> k0s_role_counts" where
  "role_counter K0sController f c = c\<lparr>rc_controller := f (rc_controller c)\<rparr>"
| "role_counter K0sWorker f c = c\<lparr>rc_worker := f (rc_worker c)\<rparr>"
| "role_counter K0sSingle f c = c\<lparr>rc_single := f (rc_single c)\<rparr>"

definition role_inc :: "k0s_role \<Rightarrow> k0s_role_counts \<Rightarrow> k0s_role_counts" where
  "role_inc role c = role_counter role (\<lambda>n. n + 1) c"

definition role_dec :: "k0s_role \<Rightarrow> k0s_role_counts \<Rightarrow> k0s_role_counts" where
  "role_dec role c = role_counter role (\<lambda>n. n - 1) c"

text \<open>The part of the configuration the operations read.\<close>

record cluster_config =
  cc_max_batch_requeue :: u32
  cc_nodes :: "node_config list"

record cluster =
  c_jobs :: "(job_id, job) hashmap"
  c_nodes :: "(string, node) hashmap"
  c_steps :: "(job_id \<times> step_id, job_step) hashmap"
  c_next_job_id :: u32
  c_next_step_id :: "(job_id, u32) hashmap"
  c_partitions :: "partition list"
  c_deleted_partition_names :: "string set"
  c_config_seeded_partitions :: "string set"
  c_reservations :: "reservation list"
  c_tokens :: "(string, admission_token) hashmap"
  c_k0s :: k0s_cluster_state
  c_k0s_role_counts :: k0s_role_counts
  c_preempt_freed_nodes :: "(string, (job_id, u32) hashmap) hashmap"

text \<open>The tables of a controller that has applied no entry yet; the partitions are those its configuration builds.\<close>

definition cluster_new :: "partition list \<Rightarrow> u32 \<Rightarrow> cluster" where
  "cluster_new partitions first_job_id =
     \<lparr>c_jobs = [], c_nodes = [], c_steps = [], c_next_job_id = first_job_id, c_next_step_id = [],
      c_partitions = partitions, c_deleted_partition_names = {},
      c_config_seeded_partitions = set (map p_name partitions), c_reservations = [], c_tokens = [],
      c_k0s = k0s_default, c_k0s_role_counts = \<lparr>rc_controller = 0, rc_worker = 0, rc_single = 0\<rparr>,
      c_preempt_freed_nodes = []\<rparr>"

record job_finalized =
  jf_job_id :: job_id
  jf_state :: job_state
  jf_exit_code :: int
  jf_actual_secs :: int
  jf_reason :: end_reason
  jf_reason_detail :: "string option"
  jf_ended_by :: "cancel_provenance option"

definition for_job_with_elapsed :: "job \<Rightarrow> job_state \<Rightarrow> int \<Rightarrow> int \<Rightarrow> job_finalized" where
  "for_job_with_elapsed job state exit_code elapsed_secs =
     (let (reason, detail) = job_end_reason job state
      in \<lparr>jf_job_id = j_job_id job, jf_state = state, jf_exit_code = exit_code, jf_actual_secs = elapsed_secs,
          jf_reason = reason, jf_reason_detail = detail, jf_ended_by = ended_by job reason\<rparr>)"

definition elapsed_secs :: "instant \<Rightarrow> job \<Rightarrow> int" where
  "elapsed_secs now job = (case run_time now job of None \<Rightarrow> 0 | Some d \<Rightarrow> max (num_seconds d) 0)"

definition for_job :: "instant \<Rightarrow> job \<Rightarrow> job_state \<Rightarrow> int \<Rightarrow> job_finalized" where
  "for_job now job state exit_code = for_job_with_elapsed job state exit_code (elapsed_secs now job)"

record client_response =
  cr_jobs_finalized :: "job_finalized list"
  cr_reservation_created :: bool
  cr_partition_created :: bool
  cr_job_started :: bool
  cr_state_change_applied :: bool
  cr_exclude_applied :: bool
  cr_preempt_signal_applied :: bool
  cr_suspend_applied :: bool
  cr_preempt_applied :: bool
  cr_time_limit_applied :: bool

definition response_default :: client_response where
  "response_default = \<lparr>cr_jobs_finalized = [], cr_reservation_created = False, cr_partition_created = False,
     cr_job_started = False, cr_state_change_applied = False, cr_exclude_applied = False,
     cr_preempt_signal_applied = False, cr_suspend_applied = False, cr_preempt_applied = False,
     cr_time_limit_applied = False\<rparr>"

section \<open>Placements\<close>

definition expand_hostlist_or_split :: "string \<Rightarrow> string list" where
  "expand_hostlist_or_split pattern =
     filter (\<lambda>name. name \<noteq> [])
       (case expand pattern of Inr names \<Rightarrow> names | Inl _ \<Rightarrow> map str_trim (str_split (CHR '','') pattern))"

definition excluded_node :: "job \<Rightarrow> string list \<Rightarrow> string option" where
  "excluded_node job nodes =
     (case js_exclude (j_spec job) of
        None \<Rightarrow> None
      | Some e \<Rightarrow> if e = [] then None
          else find (\<lambda>n. n \<in> set (expand_hostlist_or_split e)) nodes)"

definition slice_for ::
  "(string, resource_allocations) hashmap \<Rightarrow> resource_allocations \<Rightarrow> string list \<Rightarrow> string \<Rightarrow> resource_allocations" where
  "slice_for per_node_alloc tot names name =
     (let node_count = of_nat (max (length names) 1) :: u32
      in case hm_get per_node_alloc name of
           Some share \<Rightarrow> share
         | None \<Rightarrow> with_scalar (ra_cpus tot div node_count) (ra_memory_mb tot div ucast node_count))"

definition charge_node :: "resource_allocations \<Rightarrow> node \<Rightarrow> node" where
  "charge_node share node =
     update_state_from_alloc (node\<lparr>n_alloc_resources := ra_add (n_alloc_resources node) share\<rparr>)"

definition release_node :: "resource_allocations \<Rightarrow> node \<Rightarrow> node" where
  "release_node share node =
     update_state_from_alloc (node\<lparr>n_alloc_resources := ra_subtract (n_alloc_resources node) share\<rparr>)"

definition allocate_job_slices ::
  "string list \<Rightarrow> resource_allocations \<Rightarrow> (string, resource_allocations) hashmap
     \<Rightarrow> (string, node) hashmap \<Rightarrow> (string, node) hashmap" where
  "allocate_job_slices node_names resources per_node_alloc nodes =
     foldl (\<lambda>ns name. hm_modify name (charge_node (slice_for per_node_alloc resources node_names name)) ns)
       nodes node_names"

definition deallocate_job_slices ::
  "string list \<Rightarrow> resource_allocations option \<Rightarrow> (string, resource_allocations) hashmap \<Rightarrow> string list
     \<Rightarrow> (string, node) hashmap \<Rightarrow> (string, node) hashmap" where
  "deallocate_job_slices freed_nodes allocated_resources per_node_alloc already_deallocated nodes =
     (case allocated_resources of
        None \<Rightarrow> nodes
      | Some tot \<Rightarrow>
          foldl (\<lambda>ns name.
              if name \<in> set already_deallocated then ns
              else hm_modify name (release_node (slice_for per_node_alloc tot freed_nodes name)) ns)
            nodes freed_nodes)"

text \<open>What a job holds, given back except on the nodes listed.\<close>

abbreviation free_job :: "job \<Rightarrow> string list \<Rightarrow> (string, node) hashmap \<Rightarrow> (string, node) hashmap" where
  "free_job job already \<equiv>
     deallocate_job_slices (j_allocated_nodes job) (j_allocated_resources job) (j_per_node_alloc job) already"

section \<open>Earmarks of freed nodes\<close>

definition preempt_freed_earmark_passes :: u32 where
  "preempt_freed_earmark_passes = 3"

definition record_preempt_freed_nodes :: "string list \<Rightarrow> job_id \<Rightarrow> cluster \<Rightarrow> cluster" where
  "record_preempt_freed_nodes freed_nodes preemptor s =
     (let owner_waiting = (case hm_get (c_jobs s) preemptor of
              None \<Rightarrow> False | Some j \<Rightarrow> j_state j = Pending \<and> \<not> holds_a_placement j);
          waiting = (\<lambda>owner. case hm_get (c_jobs s) owner of
              None \<Rightarrow> False | Some j \<Rightarrow> j_state j = Pending \<and> \<not> is_scheduling_hold (j_pending_reason j))
      in if freed_nodes = [] \<or> \<not> owner_waiting then s
         else s\<lparr>c_preempt_freed_nodes :=
           foldl (\<lambda>marks node. hm_entry [] node
               (\<lambda>owners. hm_insert preemptor preempt_freed_earmark_passes (hm_retain (\<lambda>owner _. waiting owner) owners))
               marks)
             (c_preempt_freed_nodes s) freed_nodes\<rparr>)"

definition preemptor_awaiting_release :: "job \<Rightarrow> job_id option" where
  "preemptor_awaiting_release job =
     (if j_state job = Completing \<and> is_draining_cancel_victim job then j_preempted_by job
      else if j_state job = Running then map_option pp_preempted_by (preempt_grace job)
      else None)"

definition age_owner :: "(job_id, job) hashmap \<Rightarrow> job_id \<Rightarrow> u32 \<Rightarrow> u32 option" where
  "age_owner jobs preemptor remaining =
     (if \<not> list_ex (\<lambda>j. j_job_id j = preemptor \<and> j_state j = Pending \<and> \<not> is_scheduling_hold (j_pending_reason j))
           (hm_values jobs) then None
      else if list_ex (\<lambda>j. preemptor_awaiting_release j = Some preemptor) (hm_values jobs)
           then Some preempt_freed_earmark_passes
      else (let r = sat_sub remaining 1 in if 0 < r then Some r else None))"

definition tick_preempt_freed_earmarks :: "cluster \<Rightarrow> cluster" where
  "tick_preempt_freed_earmarks s =
     s\<lparr>c_preempt_freed_nodes :=
       filter (\<lambda>(_, owners). owners \<noteq> [])
         (map (\<lambda>(node, owners). (node,
             List.map_filter (\<lambda>(p, r). map_option (Pair p) (age_owner (c_jobs s) p r)) owners))
           (c_preempt_freed_nodes s))\<rparr>"

definition preempt_freed_nodes_by_owner :: "cluster \<Rightarrow> (job_id, string list) hashmap" where
  "preempt_freed_nodes_by_owner s =
     (let schedulable = (\<lambda>p. case hm_get (c_jobs s) p of
            None \<Rightarrow> False | Some j \<Rightarrow> j_state j = Pending \<and> \<not> is_scheduling_hold (j_pending_reason j))
      in foldl (\<lambda>m (node, p). if schedulable p then hm_entry [] p (\<lambda>ns. ns @ [node]) m else m) []
           (concat (map (\<lambda>(node, owners). map (Pair node) (hm_keys owners)) (c_preempt_freed_nodes s))))"

section \<open>Steps\<close>

definition complete_job_steps :: "job_id \<Rightarrow> int \<Rightarrow> instant \<Rightarrow> cluster \<Rightarrow> cluster" where
  "complete_job_steps i exit_code timestamp s =
     s\<lparr>c_steps := map (\<lambda>(k, step).
         (k, if st_job_id step = i \<and> \<not> step_is_terminal (st_state step)
             then step\<lparr>st_state := (if exit_code = 0 then StepCompleted else StepFailed),
                       st_exit_code := Some exit_code, st_end_time := Some timestamp\<rparr>
             else step)) (c_steps s)\<rparr>"

section \<open>Ending and restarting runs\<close>

definition clear_run_state_for_requeue :: "job \<Rightarrow> job" where
  "clear_run_state_for_requeue job = job\<lparr>
     j_start_time := None, j_exit_code := None, j_allocated_nodes := [], j_allocated_resources := None,
     j_per_node_alloc := [], j_node_completions := [], j_unreported_nodes := [],
     j_time_limit_signaled_at := None, j_cancel_signaled_at := None, j_cancelled_by := None,
     j_preempt_pending := None, j_node_failure := None, j_suspended_by := None,
     j_pending_reason := PR_None, j_pending_reason_desc := None,
     j_actual_stdout_path := None, j_actual_stderr_path := None\<rparr>"

definition reset_job_for_requeue :: "job \<Rightarrow> job" where
  "reset_job_for_requeue job =
     (clear_run_state_for_requeue (job\<lparr>j_requeue_count := j_requeue_count job + 1\<rparr>))
       \<lparr>j_last_requeue := Some \<lparr>lr_kind = ''Failure'', lr_by = None\<rparr>\<rparr>"

definition reset_job_for_preempt_requeue :: "job \<Rightarrow> job" where
  "reset_job_for_preempt_requeue job =
     (clear_run_state_for_requeue (job\<lparr>j_preempt_requeue_count := j_preempt_requeue_count job + 1\<rparr>))
       \<lparr>j_last_requeue := Some \<lparr>lr_kind = ''Preempt'', lr_by = None\<rparr>\<rparr>"

definition reset_job_for_user_requeue :: "actor option \<Rightarrow> job \<Rightarrow> job" where
  "reset_job_for_user_requeue who job =
     (clear_run_state_for_requeue (job\<lparr>j_user_requeue_count := j_user_requeue_count job + 1\<rparr>))
       \<lparr>j_last_requeue := Some \<lparr>lr_kind = ''Admin'', lr_by = who\<rparr>\<rparr>"

definition set_begin_time :: "instant \<Rightarrow> job \<Rightarrow> job" where
  "set_begin_time t job = job\<lparr>j_spec := (j_spec job)\<lparr>js_begin_time := Some t\<rparr>\<rparr>"

definition apply_suspend ::
  "instant \<Rightarrow> instant \<Rightarrow> job_id option \<Rightarrow> string option \<Rightarrow> actor option \<Rightarrow> job \<Rightarrow> job \<times> bool" where
  "apply_suspend now at preempted_by preempt_qos who job =
     (if preempt_grace job \<noteq> None then (job, False)
      else case apply_transition now Suspended job of
          Inl _ \<Rightarrow> (job, False)
        | Inr (NoOp, _) \<Rightarrow> (job, False)
        | Inr (Applied, job1) \<Rightarrow>
            (let job2 = job1\<lparr>j_suspended_at := Some at\<rparr>
             in (if preempted_by \<noteq> None
                 then job2\<lparr>j_preempted_by := preempted_by, j_preempt_mode := Some ''Suspend'', j_preempt_qos := preempt_qos\<rparr>
                 else job2\<lparr>j_suspended_by := who\<rparr>, True)))"

definition begin_completing :: "instant \<Rightarrow> instant \<Rightarrow> job \<Rightarrow> job \<times> bool" where
  "begin_completing now at job =
     (if \<not> (j_state job \<in> {Running, Suspended} \<and> j_allocated_nodes job \<noteq> []) then (job, False)
      else case transition now Completing job of
          Inl _ \<Rightarrow> (job, False)
        | Inr job1 \<Rightarrow> ((end_suspension at (job1\<lparr>j_end_time := Some at\<rparr>))\<lparr>j_preempt_pending := None\<rparr>, True))"

definition adopt_grace_provenance :: "instant \<Rightarrow> job \<Rightarrow> job" where
  "adopt_grace_provenance at job =
     (case preempt_grace job of
        None \<Rightarrow> job
      | Some pending \<Rightarrow>
          (let adopt = (\<lambda>job. job\<lparr>j_preempted_by := Some (pp_preempted_by pending),
                                  j_preempt_qos := pp_preempt_qos pending\<rparr>)
           in case pp_mode pending of
                PmCancel \<Rightarrow> adopt (job\<lparr>j_preempt_mode := Some ''Cancel'',
                    j_cancel_signaled_at := get_or_insert at (j_cancel_signaled_at job)\<rparr>)
              | PmRequeue \<Rightarrow> adopt (job\<lparr>j_preempt_mode := Some ''Requeue''\<rparr>)
              | PmOff \<Rightarrow> job
              | PmSuspend \<Rightarrow> job))"

definition preempt_hold_until :: "job \<Rightarrow> instant \<Rightarrow> u32 \<Rightarrow> instant" where
  "preempt_hold_until job at hold_secs =
     (let hold = at + duration_seconds (uint hold_secs)
      in case js_begin_time (j_spec job) of None \<Rightarrow> hold | Some begin_at \<Rightarrow> max begin_at hold)"

definition preempt_targets_run :: "job \<Rightarrow> u32 option \<Rightarrow> bool" where
  "preempt_targets_run job run_attempt =
     (case run_attempt of None \<Rightarrow> True | Some attempt \<Rightarrow> attempt = j_run_attempt job)"

definition repend_after_preemption ::
  "instant \<Rightarrow> instant \<Rightarrow> job_id option \<Rightarrow> string option \<Rightarrow> instant \<Rightarrow> job \<Rightarrow> job \<times> job_finalized option" where
  "repend_after_preemption now begin_time preempted_by preempt_qos at job =
     (case transition now Preempted job of
        Inl _ \<Rightarrow> (job, None)
      | Inr job1 \<Rightarrow>
          (let job2 = (end_suspension at (job1\<lparr>j_exit_code := Some (-1), j_end_time := Some at\<rparr>))\<lparr>j_node_completions := []\<rparr>;
               elapsed = elapsed_secs now job2
           in case transition now Pending job2 of
                Inl _ \<Rightarrow> (job2, None)
              | Inr job3 \<Rightarrow>
                  (let job4 = (set_begin_time begin_time (reset_job_for_preempt_requeue job3))\<lparr>
                          j_preempted_by := preempted_by, j_preempt_mode := Some ''Requeue'', j_preempt_qos := preempt_qos\<rparr>;
                       finalized = for_job_with_elapsed job4 Preempted (-1) elapsed
                   in (set_pending_reason_desc PR_Preempted (preemption_summary preempted_by preempt_qos) job4,
                       Some finalized))))"

definition finalize_reported_run :: "instant \<Rightarrow> instant \<Rightarrow> job \<Rightarrow> job \<times> job_finalized option" where
  "finalize_reported_run now at job =
     (let primary = (case j_allocated_nodes job of [] \<Rightarrow> [] | n # _ \<Rightarrow> n);
          oom = reported_oom job;
          (derived_state, final_exit, raw_signal) = derived_completion (j_node_completions job) primary;
          final_signal = raw_signal AND NOT oom_signal_flag;
          (final_state, final_reason) = completion_verdict job derived_state final_exit final_signal oom
      in case transition now final_state job of
           Inl _ \<Rightarrow> (job, None)
         | Inr job1 \<Rightarrow>
             (let job2 = (set_pending_reason final_reason
                     (job1\<lparr>j_exit_code := Some final_exit, j_exit_signal := final_signal\<rparr>))\<lparr>
                     j_end_time := Some at, j_preempt_pending := None, j_node_completions := []\<rparr>
              in (job2, Some (for_job now job2 (end_of_run_state job2 final_state) final_exit))))"

definition advance_after_node_report ::
  "instant \<Rightarrow> preempt_pending option \<Rightarrow> instant \<Rightarrow> job \<Rightarrow> job \<times> job_finalized option" where
  "advance_after_node_report now grace0 at job =
     (let all_reported = all_nodes_completed job;
          grace = (if all_reported \<and> reported_oom job then None else grace0);
          finish = (\<lambda>job.
             (let job1 = (if j_state job \<in> {Running, Suspended} then
                     (end_suspension at (case transition now Completing job of Inl _ \<Rightarrow> job | Inr j \<Rightarrow> j))\<lparr>j_end_time := Some at\<rparr>
                   else job)
              in if \<not> all_reported then (job1, None) else finalize_reported_run now at job1))
      in case grace of
           Some pending \<Rightarrow>
             if \<not> all_reported then (job, None)
             else if pp_mode pending = PmRequeue then
               repend_after_preemption now (preempt_hold_until job at (pp_requeue_hold_secs pending))
                 (Some (pp_preempted_by pending)) (pp_preempt_qos pending) at job
             else finish (adopt_grace_provenance at job)
         | None \<Rightarrow> finish job)"

section \<open>Evictions\<close>

definition evicted_state :: "job \<Rightarrow> job_state" where
  "evicted_state job =
     (if j_cancel_signaled_at job = None then NodeFail
      else if j_time_limit_signaled_at job \<noteq> None then Timeout
      else Cancelled)"

text \<open>
  The result is the new job table and node table, the record of the ended run and, when the
  evicted job was being preempted, the preempting job with the nodes freed for it.
\<close>

definition evict_job_locked ::
  "instant \<Rightarrow> job_id \<Rightarrow> instant \<Rightarrow> pending_reason \<Rightarrow> node_failure option \<Rightarrow> (job_id, job) hashmap \<Rightarrow> (string, node) hashmap
     \<Rightarrow> (job_id, job) hashmap \<times> (string, node) hashmap \<times> job_finalized option \<times> (job_id \<times> string list) option" where
  "evict_job_locked now i timestamp reason failure jobs nodes =
     (case hm_get jobs i of
        None \<Rightarrow> (jobs, nodes, None, None)
      | Some job \<Rightarrow>
          (let grace_preemptor = map_option pp_preempted_by (preempt_grace job);
               job1 = end_suspension timestamp job;
               state = evicted_state job1
           in case transition now state job1 of
                Inl _ \<Rightarrow> (hm_insert i job1 jobs, nodes, None, None)
              | Inr job2 \<Rightarrow>
                  (let job3 = job2\<lparr>j_exit_code := Some (-1), j_end_time := Some timestamp, j_preempt_pending := None\<rparr>;
                       job4 = (if state = NodeFail then (set_pending_reason reason job3)\<lparr>j_node_failure := failure\<rparr>
                               else if state = Timeout then set_pending_reason PR_TimeLimit job3
                               else job3);
                       already_deallocated = hm_keys (j_node_completions job4);
                       job5 = job4\<lparr>j_node_completions := []\<rparr>;
                       cancel_preemptor = (if j_preempt_mode job5 = Some ''Cancel'' then j_preempted_by job5 else None);
                       preemptor = (case grace_preemptor of None \<Rightarrow> cancel_preemptor | Some p \<Rightarrow> Some p);
                       newly_freed = filter (\<lambda>n. n \<notin> set already_deallocated) (j_allocated_nodes job5);
                       freed = (case preemptor of
                           None \<Rightarrow> None | Some p \<Rightarrow> if newly_freed = [] then None else Some (p, newly_freed))
                   in (hm_insert i job5 jobs,
                       free_job job5 already_deallocated nodes,
                       Some (for_job now job5 (end_of_run_state job5 state) (-1)),
                       freed))))"

definition evict_stranded :: "job_id \<Rightarrow> (job_id, job) hashmap \<times> (string, node) hashmap \<Rightarrow> (job_id, job) hashmap \<times> (string, node) hashmap" where
  "evict_stranded i tables =
     (case tables of (jobs, nodes) \<Rightarrow>
        (case hm_get jobs i of
           None \<Rightarrow> (jobs, nodes)
         | Some job \<Rightarrow>
             (hm_insert i (set_pending_reason PR_NodeDown (clear_run_state_for_requeue job)) jobs,
              free_job job [] nodes)))"

definition option_list :: "'a option \<Rightarrow> 'a list" where
  "option_list opt = (case opt of None \<Rightarrow> [] | Some v \<Rightarrow> [v])"

fun evict_all ::
  "instant \<Rightarrow> instant \<Rightarrow> node_failure \<Rightarrow> job_id list \<Rightarrow> (job_id, job) hashmap \<Rightarrow> (string, node) hashmap
     \<Rightarrow> (job_id, job) hashmap \<times> (string, node) hashmap \<times> job_finalized list \<times> (job_id \<times> string list) list" where
  "evict_all now timestamp failure [] jobs nodes = (jobs, nodes, [], [])"
| "evict_all now timestamp failure (i # is') jobs nodes =
     (let (jobs1, nodes1, fin, freed) = evict_job_locked now i timestamp PR_NodeDown (Some failure) jobs nodes;
          (jobs2, nodes2, fins, freeds) = evict_all now timestamp failure is' jobs1 nodes1
      in (jobs2, nodes2, option_list fin @ fins, option_list freed @ freeds))"

definition evict_jobs_on_node ::
  "instant \<Rightarrow> string \<Rightarrow> node_failure \<Rightarrow> instant \<Rightarrow> (job_id, job) hashmap \<Rightarrow> (string, node) hashmap
     \<Rightarrow> (job_id, job) hashmap \<times> (string, node) hashmap \<times> job_finalized list \<times> (job_id \<times> string list) list" where
  "evict_jobs_on_node now node_name failure timestamp jobs nodes =
     (let affected = map fst (filter (\<lambda>(_, j).
              j_state j \<in> {Running, Completing, Suspended} \<and> is_held_on j node_name) jobs);
          (jobs1, nodes1, fins, freeds) = evict_all now timestamp failure affected jobs nodes;
          stranded = map fst (filter (\<lambda>(_, j). j_state j = Pending \<and> is_held_on j node_name) jobs1);
          (jobs2, nodes2) = foldl (\<lambda>t i. evict_stranded i t) (jobs1, nodes1) stranded
      in (jobs2, nodes2, fins, freeds))"

text \<open>Evicts every job from a node and earmarks what that freed for preempting jobs.\<close>

definition evict_node :: "instant \<Rightarrow> string \<Rightarrow> node_failure \<Rightarrow> instant \<Rightarrow> cluster \<Rightarrow> cluster \<times> job_finalized list" where
  "evict_node now name failure timestamp s =
     (let (jobs, nodes, fins, freeds) = evict_jobs_on_node now name failure timestamp (c_jobs s) (c_nodes s)
      in (foldl (\<lambda>s (preemptor, freed). record_preempt_freed_nodes freed preemptor s)
            (s\<lparr>c_jobs := jobs, c_nodes := nodes\<rparr>) freeds, fins))"

end
