(* ===== verification/Cluster_Ops.thy ===== *)
theory Cluster_Ops
  imports Cluster
begin

text \<open>
  The state machine of the controller: one definition per variant of the log, the arms of
  \<^verbatim>\<open>ClusterManager::apply_operation\<close> (\<^verbatim>\<open>spurctld/src/cluster.rs\<close>), and their
  dispatch. Every arm maps the state to the new state and the response; an early
  \<^verbatim>\<open>return ClientResponse::default()\<close> keeps the changes made so far. The argument
  \<open>timestamp\<close> is the leader's stamp, or \<open>now\<close> when the entry carries none.
\<close>

section \<open>Jobs\<close>

definition put_job :: "job_id \<Rightarrow> job \<Rightarrow> cluster \<Rightarrow> cluster" where
  "put_job i job s = s\<lparr>c_jobs := hm_insert i job (c_jobs s)\<rparr>"

definition apply_job_submit :: "instant \<Rightarrow> job_id \<Rightarrow> job_spec \<Rightarrow> cluster \<Rightarrow> cluster \<times> client_response" where
  "apply_job_submit now i spec s =
     (let job0 = job_new now i spec;
          job = (case js_het_group spec of
              None \<Rightarrow> job0
            | Some het_group \<Rightarrow>
                (let job1 = job0\<lparr>j_het_group := Some het_group\<rparr>
                 in if 0 < het_group then
                      (case find (\<lambda>j. j_het_group j = Some 0 \<and> js_user (j_spec j) = js_user spec
                            \<and> js_name (j_spec j) = js_name spec \<and> j_state j = Pending) (hm_values (c_jobs s)) of
                         None \<Rightarrow> job1
                       | Some a \<Rightarrow> job1\<lparr>j_het_job_id := Some (j_job_id a)\<rparr>)
                    else job1))
      in ((put_job i job s)\<lparr>c_next_job_id := max (c_next_job_id s) (i + 1)\<rparr>, response_default))"

definition set_reason :: "pending_reason \<Rightarrow> string option \<Rightarrow> job \<Rightarrow> job" where
  "set_reason reason desc job =
     (case desc of Some d \<Rightarrow> set_pending_reason_desc reason d job | None \<Rightarrow> set_pending_reason reason job)"

definition enter_pending :: "u32 \<Rightarrow> job_state_change \<Rightarrow> job \<Rightarrow> job" where
  "enter_pending max_batch_requeue p job =
     (let job1 = (if j_requeue_count job < max_batch_requeue then reset_job_for_requeue job
                  else clear_run_state_for_requeue job);
          reason = (case sc_pending_reason p of None \<Rightarrow> PR_None | Some r \<Rightarrow> r);
          job2 = set_reason reason (sc_pending_reason_desc p) job1;
          job3 = (case sc_pending_priority p of None \<Rightarrow> job2 | Some pr \<Rightarrow> job2\<lparr>j_priority := pr\<rparr>)
      in case sc_begin_time p of None \<Rightarrow> job3 | Some hold \<Rightarrow> set_begin_time hold job3)"

definition apply_job_state_change ::
  "cluster_config \<Rightarrow> instant \<Rightarrow> instant \<Rightarrow> job_state_change \<Rightarrow> cluster \<Rightarrow> cluster \<times> client_response" where
  "apply_job_state_change cfg now timestamp p s =
     (case hm_get (c_jobs s) (sc_job_id p) of
        None \<Rightarrow> (s, response_default)
      | Some job \<Rightarrow>
          if sc_expected_run_attempt p \<noteq> None
             \<and> (sc_expected_run_attempt p \<noteq> Some (j_run_attempt job) \<or> \<not> holds_a_placement job)
          then (s, response_default)
          else
            (case apply_transition now (sc_new_state p) job of
               Inr (Applied, job1) \<Rightarrow>
                 (let job2 = (if sc_new_state p = Running
                        then job1\<lparr>j_start_time := Some (case sc_at p of None \<Rightarrow> timestamp | Some t \<Rightarrow> t)\<rparr> else job1);
                      job3 = (if sc_new_state p = Pending
                        then enter_pending (cc_max_batch_requeue cfg) p job2 else job2)
                  in (put_job (sc_job_id p) job3 s, response_default\<lparr>cr_state_change_applied := True\<rparr>))
             | _ \<Rightarrow> (s, response_default)))"

definition back_off :: "instant \<Rightarrow> bool \<Rightarrow> bool \<Rightarrow> job \<Rightarrow> job" where
  "back_off begin_time spare_requeue_budget at_max_requeue job =
     (if at_max_requeue then
        set_pending_reason PR_JobHoldMaxRequeue ((clear_run_state_for_requeue job)\<lparr>j_priority := 0\<rparr>)
      else if spare_requeue_budget then
        set_pending_reason PR_JobLaunchFailure (set_begin_time begin_time (clear_run_state_for_requeue job))
      else
        set_pending_reason PR_JobLaunchFailure (set_begin_time begin_time (reset_job_for_requeue job)))"

definition apply_job_dispatch_backoff ::
  "job_id \<Rightarrow> instant \<Rightarrow> bool \<Rightarrow> u32 \<Rightarrow> bool \<Rightarrow> cluster \<Rightarrow> cluster \<times> client_response" where
  "apply_job_dispatch_backoff i begin_time spare_requeue_budget run_attempt at_max_requeue s =
     (case hm_get (c_jobs s) i of
        None \<Rightarrow> (s, response_default)
      | Some job \<Rightarrow>
          if j_state job \<noteq> Pending then (s, response_default)
          else if run_attempt \<noteq> 0 \<and> j_run_attempt job \<noteq> 0 \<and> run_attempt < j_run_attempt job
          then (s, response_default)
          else
            (let job1 = back_off begin_time spare_requeue_budget at_max_requeue job;
                 job2 = job1\<lparr>j_run_attempt := max run_attempt (j_run_attempt job1)\<rparr>
             in ((put_job i job2 s)\<lparr>c_nodes := free_job job [] (c_nodes s)\<rparr>, response_default)))"

definition apply_job_preempt_requeue ::
  "instant \<Rightarrow> instant \<Rightarrow> job_preempt_requeue \<Rightarrow> cluster \<Rightarrow> cluster \<times> client_response" where
  "apply_job_preempt_requeue now timestamp p s =
     (case hm_get (c_jobs s) (pq_job_id p) of
        None \<Rightarrow> (s, response_default)
      | Some job \<Rightarrow>
          if j_state job \<noteq> Running \<or> \<not> preempt_targets_run job (pq_run_attempt p) then (s, response_default)
          else
            (let already = hm_keys (j_node_completions job)
             in case repend_after_preemption now (pq_begin_time p) (pq_preempted_by p) (pq_preempt_qos p) timestamp job of
                  (job1, None) \<Rightarrow> (put_job (pq_job_id p) job1 s, response_default)
                | (job1, Some finalized) \<Rightarrow>
                    (let s1 = (put_job (pq_job_id p) job1 s)\<lparr>c_nodes := free_job job already (c_nodes s)\<rparr>;
                         newly_freed = filter (\<lambda>n. n \<notin> set already) (j_allocated_nodes job);
                         s2 = (case pq_preempted_by p of
                             Some preemptor \<Rightarrow>
                               if pq_handoff p then record_preempt_freed_nodes newly_freed preemptor s1 else s1
                           | None \<Rightarrow> s1)
                     in (complete_job_steps (pq_job_id p) (-1) timestamp s2,
                         response_default\<lparr>cr_jobs_finalized := [finalized], cr_preempt_applied := True\<rparr>))))"

definition repend_by_user :: "bool \<Rightarrow> instant option \<Rightarrow> actor option \<Rightarrow> job \<Rightarrow> job" where
  "repend_by_user hold begin_time who job =
     (let job1 = reset_job_for_user_requeue who job
      in if hold then set_pending_reason PR_Held (job1\<lparr>j_priority := 0\<rparr>)
         else case begin_time of
             Some bt \<Rightarrow> set_pending_reason PR_BeginTime (set_begin_time bt job1)
           | None \<Rightarrow> set_pending_reason PR_None job1)"

definition apply_job_user_requeue ::
  "instant \<Rightarrow> instant \<Rightarrow> job_id \<Rightarrow> bool \<Rightarrow> instant option \<Rightarrow> actor option \<Rightarrow> cluster \<Rightarrow> cluster \<times> client_response" where
  "apply_job_user_requeue now timestamp i hold begin_time who s =
     (case hm_get (c_jobs s) i of
        None \<Rightarrow> (s, response_default)
      | Some job \<Rightarrow>
          if j_state job \<in> {Running, Suspended} then
            (let job1 = end_suspension timestamp (job\<lparr>j_end_time := Some timestamp\<rparr>);
                 finalized = for_job_with_elapsed job1 Requeued (-1) (elapsed_secs now job1)
             in case requeue_to_pending job1 of
                  Inl _ \<Rightarrow> (put_job i job1 s, response_default)
                | Inr job2 \<Rightarrow>
                    (complete_job_steps i (-1) timestamp
                       ((put_job i (repend_by_user hold begin_time who job2) s)
                          \<lparr>c_nodes := free_job job1 (hm_keys (j_node_completions job1)) (c_nodes s)\<rparr>),
                     response_default\<lparr>cr_jobs_finalized := [finalized]\<rparr>))
          else if is_terminal (j_state job) then
            (case requeue_to_pending job of
               Inl _ \<Rightarrow> (s, response_default)
             | Inr job2 \<Rightarrow> (put_job i (repend_by_user hold begin_time who job2) s, response_default))
          else (s, response_default))"

definition apply_job_preempt_cancel ::
  "instant \<Rightarrow> instant \<Rightarrow> job_id \<Rightarrow> job_id option \<Rightarrow> string option \<Rightarrow> instant option \<Rightarrow> u32 option
     \<Rightarrow> cluster \<Rightarrow> cluster \<times> client_response" where
  "apply_job_preempt_cancel now timestamp i preempted_by preempt_qos at0 run_attempt s =
     (let at = (case at0 of None \<Rightarrow> timestamp | Some t \<Rightarrow> t)
      in case hm_get (c_jobs s) i of
        None \<Rightarrow> (s, response_default)
      | Some job \<Rightarrow>
          if j_state job \<noteq> Running \<or> \<not> preempt_targets_run job run_attempt then (s, response_default)
          else
            (case transition now Preempted job of
               Inl _ \<Rightarrow> (s, response_default)
             | Inr job1 \<Rightarrow>
                 (let job2 = (end_suspension at (job1\<lparr>j_exit_code := Some (-1), j_end_time := Some at\<rparr>))\<lparr>
                          j_preempted_by := preempted_by, j_preempt_mode := Some ''Cancel'', j_preempt_qos := preempt_qos,
                          j_cancel_signaled_at := Some at, j_preempt_pending := None\<rparr>;
                      finalized = for_job now job2 Preempted (-1)
                  in if j_allocated_nodes job2 \<noteq> [] then
                       (case transition now Completing job2 of
                          Inl _ \<Rightarrow> (put_job i job2 s, response_default)
                        | Inr job3 \<Rightarrow> (put_job i job3 s, response_default\<lparr>cr_preempt_applied := True\<rparr>))
                     else
                       (let job3 = job2\<lparr>j_node_completions := []\<rparr>
                        in case transition now Cancelled job3 of
                             Inl _ \<Rightarrow> (put_job i job3 s, response_default)
                           | Inr job4 \<Rightarrow>
                               (complete_job_steps i (-1) timestamp
                                  ((put_job i job4 s)\<lparr>c_nodes := free_job job3 [] (c_nodes s)\<rparr>),
                                response_default\<lparr>cr_jobs_finalized := [finalized], cr_preempt_applied := True\<rparr>)))))"

definition apply_job_suspend ::
  "instant \<Rightarrow> job_id \<Rightarrow> instant \<Rightarrow> job_id option \<Rightarrow> string option \<Rightarrow> actor option \<Rightarrow> cluster \<Rightarrow> cluster \<times> client_response" where
  "apply_job_suspend now i at preempted_by preempt_qos who s =
     (case hm_get (c_jobs s) i of
        None \<Rightarrow> (s, response_default)
      | Some job \<Rightarrow>
          (let (job1, applied) = apply_suspend now at preempted_by preempt_qos who job
           in (put_job i job1 s, response_default\<lparr>cr_suspend_applied := applied\<rparr>)))"

definition apply_job_resume :: "instant \<Rightarrow> job_id \<Rightarrow> instant \<Rightarrow> cluster \<Rightarrow> cluster \<times> client_response" where
  "apply_job_resume now i at s =
     (case hm_get (c_jobs s) i of
        None \<Rightarrow> (s, response_default)
      | Some job \<Rightarrow>
          (case apply_transition now Running job of
             Inr (Applied, job1) \<Rightarrow>
               (put_job i ((end_suspension at job1)\<lparr>j_preempted_by := None, j_preempt_mode := None,
                  j_preempt_qos := None, j_preempt_pending := None\<rparr>) s, response_default)
           | _ \<Rightarrow> (s, response_default)))"

definition apply_job_evict ::
  "instant \<Rightarrow> instant \<Rightarrow> job_id \<Rightarrow> string option \<Rightarrow> cluster \<Rightarrow> cluster \<times> client_response" where
  "apply_job_evict now timestamp i detail s =
     (let jobs0 = hm_modify i (\<lambda>job. job\<lparr>j_launch_failure_detail := detail\<rparr>) (c_jobs s);
          (jobs, nodes, fin, freed) = evict_job_locked now i timestamp PR_JobLaunchFailure None jobs0 (c_nodes s);
          s1 = s\<lparr>c_jobs := jobs, c_nodes := nodes\<rparr>
      in (case freed of None \<Rightarrow> s1 | Some (preemptor, ns) \<Rightarrow> record_preempt_freed_nodes ns preemptor s1,
          response_default\<lparr>cr_jobs_finalized := option_list fin\<rparr>))"

definition apply_job_launch_failure_detail :: "job_id \<Rightarrow> string \<Rightarrow> cluster \<Rightarrow> cluster \<times> client_response" where
  "apply_job_launch_failure_detail i detail s =
     (s\<lparr>c_jobs := hm_modify i (\<lambda>job. job\<lparr>j_launch_failure_detail := Some detail\<rparr>) (c_jobs s)\<rparr>, response_default)"

definition start_run :: "job_start \<Rightarrow> job \<Rightarrow> job" where
  "start_run p job =
     (set_pending_reason PR_None (job\<lparr>j_allocated_nodes := sr_nodes p,
        j_allocated_resources := Some (sr_resources p), j_per_node_alloc := sr_per_node_alloc p\<rparr>))\<lparr>
        j_srun_step_dispatch := sr_srun_step_dispatch p,
        j_run_attempt := max (sr_run_attempt p) (j_run_attempt job),
        j_idle_fill := sr_idle_fill p, j_launch_failure_detail := None,
        j_preempted_by := None, j_preempt_mode := None, j_preempt_qos := None,
        j_derived_exit_code := 0, j_exit_signal := 0, j_unreported_nodes := [], j_node_failure := None\<rparr>"

definition drop_earmarks :: "job_id \<Rightarrow> (string, (job_id, u32) hashmap) hashmap \<Rightarrow> (string, (job_id, u32) hashmap) hashmap" where
  "drop_earmarks i marks = filter (\<lambda>(_, owners). owners \<noteq> []) (map (\<lambda>(n, owners). (n, hm_remove i owners)) marks)"

definition apply_job_start :: "job_start \<Rightarrow> cluster \<Rightarrow> cluster \<times> client_response" where
  "apply_job_start p s =
     (let known = hm_get (c_jobs s) (sr_job_id p)
      in if (case known of None \<Rightarrow> False | Some job \<Rightarrow> holds_a_placement job) then (s, response_default)
         else if (case known of None \<Rightarrow> False | Some job \<Rightarrow> excluded_node job (sr_nodes p) \<noteq> None) then (s, response_default)
         else
           (let s1 = (case known of
                  None \<Rightarrow> s
                | Some job \<Rightarrow> (put_job (sr_job_id p) (start_run p job) s)
                    \<lparr>c_preempt_freed_nodes := drop_earmarks (sr_job_id p) (c_preempt_freed_nodes s)\<rparr>)
            in (s1\<lparr>c_nodes := allocate_job_slices (sr_nodes p) (sr_resources p) (sr_per_node_alloc p) (c_nodes s)\<rparr>,
                response_default\<lparr>cr_job_started := True\<rparr>)))"

definition freed_for_preemptor :: "job \<Rightarrow> string \<Rightarrow> preempt_pending option \<Rightarrow> job_id option" where
  "freed_for_preemptor job node_name grace =
     (if hm_contains (j_node_completions job) node_name then None
      else case grace of
          Some pending \<Rightarrow> Some (pp_preempted_by pending)
        | None \<Rightarrow> if j_preempt_mode job = Some ''Cancel'' then j_preempted_by job else None)"

definition release_reported_node :: "job \<Rightarrow> string \<Rightarrow> (string, node) hashmap \<Rightarrow> (string, node) hashmap" where
  "release_reported_node job node_name nodes =
     (case j_allocated_resources job of
        None \<Rightarrow> nodes
      | Some tot \<Rightarrow>
          if hm_contains (j_node_completions job) node_name then nodes
          else hm_modify node_name
            (release_node (slice_for (j_per_node_alloc job) tot (j_allocated_nodes job) node_name)) nodes)"

definition apply_job_node_complete ::
  "instant \<Rightarrow> instant \<Rightarrow> job_id \<Rightarrow> string \<Rightarrow> int \<Rightarrow> int \<Rightarrow> u32 \<Rightarrow> cluster \<Rightarrow> cluster \<times> client_response" where
  "apply_job_node_complete now timestamp i node_name exit_code signal run_attempt s =
     (case hm_get (c_jobs s) i of
        None \<Rightarrow> (s, response_default)
      | Some job \<Rightarrow>
          if run_attempt \<noteq> 0 \<and> j_run_attempt job \<noteq> 0 \<and> run_attempt < j_run_attempt job then (s, response_default)
          else if \<not> is_active (j_state job) then (s, response_default)
          else
            (let grace = (if j_state job = Running then preempt_grace job else None);
                 preemptor = freed_for_preemptor job node_name grace;
                 job1 = job\<lparr>j_node_completions :=
                     hm_insert node_name \<lparr>nc_code = exit_code, nc_signal = signal\<rparr> (j_node_completions job)\<rparr>;
                 nodes = release_reported_node job node_name (c_nodes s);
                 (job2, fin) = advance_after_node_report now grace timestamp job1;
                 s1 = (put_job i job2 s)\<lparr>c_nodes := nodes\<rparr>;
                 s2 = (case preemptor of None \<Rightarrow> s1 | Some p \<Rightarrow> record_preempt_freed_nodes [node_name] p s1)
             in case fin of
                  Some finalized \<Rightarrow>
                    (complete_job_steps i (jf_exit_code finalized) timestamp s2,
                     response_default\<lparr>cr_jobs_finalized := [finalized]\<rparr>)
                | None \<Rightarrow> (s2, response_default)))"

definition apply_job_time_limit_signaled :: "job_id \<Rightarrow> instant \<Rightarrow> cluster \<Rightarrow> cluster \<times> client_response" where
  "apply_job_time_limit_signaled i at s =
     (s\<lparr>c_jobs := hm_modify i (\<lambda>job.
         if is_active (j_state job) \<and> j_time_limit_signaled_at job = None
         then job\<lparr>j_time_limit_signaled_at := Some at\<rparr> else job) (c_jobs s)\<rparr>, response_default)"

definition apply_job_cancel_signaled ::
  "instant \<Rightarrow> job_id \<Rightarrow> instant \<Rightarrow> cancel_provenance option \<Rightarrow> cluster \<Rightarrow> cluster \<times> client_response" where
  "apply_job_cancel_signaled now i at cancel s =
     (case hm_get (c_jobs s) i of
        None \<Rightarrow> (s, response_default)
      | Some job \<Rightarrow>
          if \<not> is_active (j_state job) then (s, response_default)
          else
            (let job1 = job\<lparr>j_cancel_signaled_at := get_or_insert at (j_cancel_signaled_at job),
                     j_cancelled_by := (if j_cancelled_by job = None then cancel else j_cancelled_by job),
                     j_preempt_pending := None\<rparr>
             in (put_job i (fst (begin_completing now at job1)) s, response_default)))"

definition apply_job_time_limit_expired ::
  "instant \<Rightarrow> job_id \<Rightarrow> u32 \<Rightarrow> instant \<Rightarrow> cluster \<Rightarrow> cluster \<times> client_response" where
  "apply_job_time_limit_expired now i run_attempt at s =
     (case hm_get (c_jobs s) i of
        None \<Rightarrow> (s, response_default)
      | Some job \<Rightarrow>
          if j_state job \<notin> {Running, Suspended}
             \<or> (run_attempt \<noteq> 0 \<and> j_run_attempt job \<noteq> 0 \<and> run_attempt \<noteq> j_run_attempt job)
          then (s, response_default)
          else
            (let job1 = job\<lparr>j_time_limit_signaled_at := get_or_insert at (j_time_limit_signaled_at job),
                     j_cancel_signaled_at := get_or_insert at (j_cancel_signaled_at job)\<rparr>
             in (put_job i (fst (begin_completing now at job1)) s, response_default\<lparr>cr_time_limit_applied := True\<rparr>)))"

definition apply_job_preempt_signaled :: "job_id \<Rightarrow> preempt_pending \<Rightarrow> cluster \<Rightarrow> cluster \<times> client_response" where
  "apply_job_preempt_signaled i pending s =
     (case hm_get (c_jobs s) i of
        None \<Rightarrow> (s, response_default)
      | Some job \<Rightarrow>
          if j_state job = Running \<and> j_run_attempt job = pp_run_attempt pending \<and> j_preempt_pending job = None
          then (put_job i (job\<lparr>j_preempt_pending := Some pending\<rparr>) s, response_default\<lparr>cr_preempt_signal_applied := True\<rparr>)
          else (s, response_default))"

text \<open>
  The job as a completion entry leaves it, with the record of the ended run; \<open>Inl\<close> when the
  state machine refuses, with the changes made until then.
\<close>

definition complete_run :: "instant \<Rightarrow> instant \<Rightarrow> job_complete \<Rightarrow> job_state \<Rightarrow> job \<Rightarrow> job + (job \<times> job_finalized list)" where
  "complete_run now timestamp p state job =
     (case transition now state job of
        Inl _ \<Rightarrow> Inl job
      | Inr job1 \<Rightarrow>
          (let job2 = job1\<lparr>j_preempt_pending := None, j_unreported_nodes := jc_unreported_nodes p,
                   j_cancelled_by := (if state = Cancelled \<and> j_cancelled_by job1 = None then jc_cancel p else j_cancelled_by job1),
                   j_exit_code := Some (jc_exit_code p), j_end_time := Some timestamp\<rparr>;
               job3 = (if state = Timeout then set_pending_reason PR_TimeLimit job2
                       else if state = OutOfMemory then set_pending_reason PR_OutOfMemory job2
                       else job2);
               fins = (if is_terminal state
                       then [for_job now job3 (end_of_run_state job3 state) (jc_exit_code p)] else [])
           in Inr ((end_suspension timestamp job3)\<lparr>j_node_completions := []\<rparr>, fins)))"

definition apply_job_complete :: "instant \<Rightarrow> instant \<Rightarrow> job_complete \<Rightarrow> cluster \<Rightarrow> cluster \<times> client_response" where
  "apply_job_complete now timestamp p s =
     (case hm_get (c_jobs s) (jc_job_id p) of
        None \<Rightarrow> (s, response_default)
      | Some job \<Rightarrow>
          if is_finalized (j_state job) \<and> \<not> (j_state job = Preempted \<and> jc_state p = Cancelled)
          then (s, response_default)
          else
            (let warned = (if j_state job = Running \<and> jc_cancel p = None then preempt_grace job else None);
                 in_grace = (if \<not> jc_controller_initiated p then warned else None);
                 grace = (if jc_state p \<noteq> OutOfMemory then in_grace else None);
                 job1 = (if grace \<noteq> None then adopt_grace_provenance timestamp job else job);
                 state = (case grace of
                     Some g \<Rightarrow> if pp_mode g = PmCancel then Cancelled else jc_state p
                   | None \<Rightarrow> jc_state p);
                 preemptor = (case warned of
                     Some g \<Rightarrow> Some (pp_preempted_by g)
                   | None \<Rightarrow> if j_preempt_mode job1 = Some ''Cancel'' then j_preempted_by job1 else None);
                 already = hm_keys (j_node_completions job1);
                 outcome = (case grace of
                     Some g \<Rightarrow>
                       if pp_mode g = PmRequeue then
                         (case repend_after_preemption now (preempt_hold_until job1 timestamp (pp_requeue_hold_secs g))
                                 (Some (pp_preempted_by g)) (pp_preempt_qos g) timestamp job1 of
                            (job2, None) \<Rightarrow> Inl job2
                          | (job2, Some fin) \<Rightarrow> Inr (job2, [fin]))
                       else complete_run now timestamp p state job1
                   | None \<Rightarrow> complete_run now timestamp p state job1)
             in case outcome of
                  Inl job2 \<Rightarrow> (put_job (jc_job_id p) job2 s, response_default)
                | Inr (job2, fins) \<Rightarrow>
                    (let s1 = (put_job (jc_job_id p) job2 s)\<lparr>c_nodes := free_job job1 already (c_nodes s)\<rparr>;
                         newly_freed = filter (\<lambda>n. n \<notin> set already) (j_allocated_nodes job1);
                         s2 = (case preemptor of None \<Rightarrow> s1 | Some q \<Rightarrow> record_preempt_freed_nodes newly_freed q s1);
                         steps_exit_code = (case fins of [] \<Rightarrow> jc_exit_code p | fin # _ \<Rightarrow> jf_exit_code fin)
                     in (complete_job_steps (jc_job_id p) steps_exit_code timestamp s2,
                         response_default\<lparr>cr_jobs_finalized := fins\<rparr>))))"

definition apply_job_step_complete ::
  "instant \<Rightarrow> job_id \<Rightarrow> step_id \<Rightarrow> int \<Rightarrow> cluster \<Rightarrow> cluster \<times> client_response" where
  "apply_job_step_complete timestamp i step_id exit_code s =
     (if (case hm_get (c_jobs s) i of None \<Rightarrow> False | Some job \<Rightarrow> is_terminal (j_state job)) then (s, response_default)
      else
        (let s1 = s\<lparr>c_steps := hm_modify (i, step_id) (\<lambda>step. step\<lparr>
                 st_state := (if exit_code = 0 then StepCompleted else StepFailed),
                 st_exit_code := Some exit_code, st_end_time := Some timestamp\<rparr>) (c_steps s)\<rparr>;
             s2 = (if is_user_step step_id
                   then s1\<lparr>c_jobs := hm_modify i (\<lambda>job. job\<lparr>j_derived_exit_code := max (j_derived_exit_code job) exit_code\<rparr>) (c_jobs s1)\<rparr>
                   else s1)
         in (s2, response_default)))"

definition apply_job_step_create :: "job_step \<Rightarrow> cluster \<Rightarrow> cluster \<times> client_response" where
  "apply_job_step_create step s =
     (case hm_get (c_jobs s) (st_job_id step) of
        None \<Rightarrow> (s, response_default)
      | Some job \<Rightarrow>
          if is_terminal (j_state job) then (s, response_default)
          else
            (let s1 = s\<lparr>c_steps := hm_entry step (st_job_id step, st_step_id step) (\<lambda>x. x) (c_steps s)\<rparr>
             in (if is_user_step (st_step_id step)
                 then s1\<lparr>c_next_step_id := hm_entry 0 (st_job_id step)
                        (\<lambda>slot. max slot (sat_add (st_step_id step) 1)) (c_next_step_id s1)\<rparr>
                 else s1, response_default)))"

definition apply_job_exclude_update :: "job_id \<Rightarrow> string option \<Rightarrow> cluster \<Rightarrow> cluster \<times> client_response" where
  "apply_job_exclude_update i exclude s =
     (case hm_get (c_jobs s) i of
        None \<Rightarrow> (s, response_default)
      | Some job \<Rightarrow>
          if j_state job = Pending \<and> \<not> holds_a_placement job
          then (put_job i (job\<lparr>j_spec := (j_spec job)\<lparr>js_exclude := exclude\<rparr>\<rparr>) s,
                response_default\<lparr>cr_exclude_applied := True\<rparr>)
          else (s, response_default))"

definition hold_releases :: "job_priority_change \<Rightarrow> pending_reason \<Rightarrow> job \<Rightarrow> bool" where
  "hold_releases p reason job =
     (is_scheduling_hold reason \<and> j_state job = Pending
      \<and> (case pc_run_attempt p of
           Some ra \<Rightarrow> ra \<noteq> 0 \<and> j_run_attempt job \<noteq> 0 \<longrightarrow> j_run_attempt job \<le> ra
         | None \<Rightarrow> True)
      \<and> holds_a_placement job)"

definition apply_job_priority_change :: "job_priority_change \<Rightarrow> cluster \<Rightarrow> cluster \<times> client_response" where
  "apply_job_priority_change p s =
     (case hm_get (c_jobs s) (pc_job_id p) of
        None \<Rightarrow> (s, response_default)
      | Some job \<Rightarrow>
          (let job0 = job\<lparr>j_priority := pc_new_priority p\<rparr>;
               (job1, nodes) = (case pc_pending_reason p of
                   None \<Rightarrow> (job0, c_nodes s)
                 | Some reason \<Rightarrow>
                     if hold_releases p reason job0
                     then (set_reason reason (pc_pending_reason_desc p)
                             (job0\<lparr>j_allocated_nodes := [], j_allocated_resources := None, j_per_node_alloc := []\<rparr>),
                           free_job job0 [] (c_nodes s))
                     else (set_reason reason (pc_pending_reason_desc p) job0, c_nodes s));
               job2 = (case pc_run_attempt p of
                   None \<Rightarrow> job1 | Some ra \<Rightarrow> job1\<lparr>j_run_attempt := max ra (j_run_attempt job1)\<rparr>);
               job3 = (if pc_reset_requeue_count p then job2\<lparr>j_requeue_count := 0\<rparr> else job2);
               job4 = (if pc_clear_reservation p then job3\<lparr>j_spec := (j_spec job3)\<lparr>js_reservation := None\<rparr>\<rparr> else job3)
           in ((put_job (pc_job_id p) job4 s)\<lparr>c_nodes := nodes\<rparr>, response_default)))"

section \<open>Nodes\<close>

definition rename_gpu_ids :: "(u64, u64) hashmap \<Rightarrow> resource_allocations \<Rightarrow> resource_allocations" where
  "rename_gpu_ids renamed alloc = alloc\<lparr>
     ra_devices := hm_modify gpu_gres
       (map (\<lambda>dev. dev\<lparr>ad_device_id := or_self (ad_device_id dev) (hm_get renamed (ad_device_id dev))\<rparr>)) (ra_devices alloc),
     ra_gpu_binding := map_option (gb_rename_gpus renamed) (ra_gpu_binding alloc),
     ra_fabric_binding := map_option (fb_rename_gpus renamed) (ra_fabric_binding alloc)\<rparr>"

definition remap_job :: "(u64, u64) hashmap \<Rightarrow> string \<Rightarrow> job \<Rightarrow> job" where
  "remap_job renamed node_name job =
     (if is_terminal (j_state job) then job
      else job\<lparr>j_per_node_alloc := hm_modify node_name (rename_gpu_ids renamed) (j_per_node_alloc job)\<rparr>)"

definition remap_node_gpu_allocations ::
  "(u64, u64) hashmap \<Rightarrow> node \<times> (job_id, job) hashmap \<Rightarrow> node \<times> (job_id, job) hashmap" where
  "remap_node_gpu_allocations renamed state =
     (case state of (node, jobs) \<Rightarrow>
        if renamed = [] then (node, jobs)
        else (update_state_from_alloc (node\<lparr>n_alloc_resources := rename_gpu_ids renamed (n_alloc_resources node)\<rparr>),
              map (\<lambda>(i, j). (i, remap_job renamed (n_name node) j)) jobs))"

definition opt_text :: "string \<Rightarrow> string option \<Rightarrow> string option" where
  "opt_text new old = (if new = [] then old else Some new)"

definition apply_node_register :: "cluster_config \<Rightarrow> instant \<Rightarrow> node_register \<Rightarrow> cluster \<Rightarrow> cluster \<times> client_response" where
  "apply_node_register cfg now p s =
     (let resources = backfill_stable_ids (nr_resources p);
          node0 = (node_new (nr_name p) resources)\<lparr>
              n_hostname := (if nr_hostname p = [] then nr_name p else nr_hostname p),
              n_labels := nr_labels p,
              n_source := resolve_wal_node_source (nr_source p) (nr_version p) (nr_labels p),
              n_capabilities := nr_capabilities p\<rparr>;
          node1 = apply_node_config_policy (cc_nodes cfg) node0;
          node2 = node1\<lparr>n_address := opt_text (nr_address p) (n_address node1), n_port := nr_port p,
              n_wg_pubkey := opt_text (nr_wg_pubkey p) (n_wg_pubkey node1),
              n_version := opt_text (nr_version p) (n_version node1), n_last_heartbeat := Some now,
              n_state := (case node_transition (n_state node1) Register False of None \<Rightarrow> NS_Idle | Some st \<Rightarrow> st),
              n_partitions := matched_partition_names (c_partitions s) (nr_name p) (nr_labels p)\<rparr>
      in (s\<lparr>c_nodes := hm_insert (nr_name p) node2 (c_nodes s)\<rparr>, response_default))"

definition apply_node_update :: "cluster_config \<Rightarrow> instant \<Rightarrow> node_update \<Rightarrow> cluster \<Rightarrow> cluster \<times> client_response" where
  "apply_node_update cfg now p s =
     (case hm_get (c_nodes s) (nu_name p) of
        None \<Rightarrow> (s, response_default)
      | Some node \<Rightarrow>
          (let resources = backfill_stable_ids (nu_resources p);
               old = map gr_stable_id (rs_gpus (n_detected_resources node));
               new = map gr_stable_id (rs_gpus resources);
               (node1, jobs) = remap_node_gpu_allocations (safe_renames (diff_layout old new)) (node, c_jobs s);
               node2 = node1\<lparr>n_detected_resources := resources,
                   n_hostname := (if nu_hostname p = [] then n_hostname node1 else nu_hostname p),
                   n_address := opt_text (nu_address p) (n_address node1), n_port := nu_port p,
                   n_wg_pubkey := opt_text (nu_wg_pubkey p) (n_wg_pubkey node1),
                   n_version := opt_text (nu_version p) (n_version node1),
                   n_source := resolve_wal_node_source (nu_source p) (nu_version p) (n_labels node1),
                   n_capabilities := nu_capabilities p, n_last_heartbeat := Some now\<rparr>
           in (s\<lparr>c_jobs := jobs,
                  c_nodes := hm_insert (nu_name p) (apply_node_config_policy (cc_nodes cfg) node2) (c_nodes s)\<rparr>,
               response_default)))"

definition change_node_state :: "node_state_change \<Rightarrow> node \<Rightarrow> node" where
  "change_node_state p node =
     (let node1 = node\<lparr>n_state := ns_new_state p\<rparr>;
          node2 = (if is_up (ns_new_state p) \<or> ns_new_state p = NS_Draining then update_state_from_alloc node1 else node1);
          node3 = node2\<lparr>n_state_reason := ns_reason p, n_reason_uid := ns_reason_uid p,
              n_reason_time := ns_reason_time p, n_admin_locked := ns_admin_locked p\<rparr>
      in if ns_new_state p = NS_Down then node3\<lparr>n_last_heartbeat := None\<rparr> else node3)"

definition apply_node_state_change :: "instant \<Rightarrow> instant \<Rightarrow> node_state_change \<Rightarrow> cluster \<Rightarrow> cluster \<times> client_response" where
  "apply_node_state_change now timestamp p s =
     (let s1 = s\<lparr>c_nodes := hm_modify (ns_name p) (change_node_state p) (c_nodes s)\<rparr>
      in if ns_new_state p = NS_Down then
           (let failure = \<lparr>nf_node = ns_name p, nf_reason = (case ns_reason p of None \<Rightarrow> [] | Some r \<Rightarrow> r),
                    nf_reason_uid = ns_reason_uid p, nf_removed = False\<rparr>;
                (s2, fins) = evict_node now (ns_name p) failure timestamp s1
            in (s2, response_default\<lparr>cr_jobs_finalized := fins\<rparr>))
         else (s1, response_default))"

definition apply_node_labels_update ::
  "cluster_config \<Rightarrow> string \<Rightarrow> (string, string) hashmap \<Rightarrow> string list \<Rightarrow> cluster \<Rightarrow> cluster \<times> client_response" where
  "apply_node_labels_update cfg name set' remove s =
     (s\<lparr>c_nodes := hm_modify name (\<lambda>node.
         (let labels = foldl (\<lambda>m k. hm_remove k m) (foldl (\<lambda>m (k, v). hm_insert k v m) (n_labels node) set') remove
          in apply_node_config_policy (cc_nodes cfg)
               (node\<lparr>n_labels := labels, n_partitions := matched_partition_names (c_partitions s) (n_name node) labels\<rparr>)))
         (c_nodes s)\<rparr>, response_default)"

definition apply_node_remove :: "instant \<Rightarrow> instant \<Rightarrow> string \<Rightarrow> string option \<Rightarrow> cluster \<Rightarrow> cluster \<times> client_response" where
  "apply_node_remove now timestamp name reason s =
     (let failure = \<lparr>nf_node = name, nf_reason = (case reason of None \<Rightarrow> [] | Some r \<Rightarrow> r),
              nf_reason_uid = None, nf_removed = True\<rparr>;
          (s1, fins) = evict_node now name failure timestamp s;
          s2 = (case hm_get (c_nodes s1) name of
              Some node \<Rightarrow>
                (case n_k0s_role node of
                   Some role \<Rightarrow> s1\<lparr>c_k0s_role_counts := role_dec role (c_k0s_role_counts s1)\<rparr>
                 | None \<Rightarrow> s1)
            | None \<Rightarrow> s1)
      in (s2\<lparr>c_nodes := hm_remove name (c_nodes s2)\<rparr>, response_default\<lparr>cr_jobs_finalized := fins\<rparr>))"

section \<open>Tokens\<close>

definition apply_token_create :: "admission_token \<Rightarrow> cluster \<Rightarrow> cluster \<times> client_response" where
  "apply_token_create token s = (s\<lparr>c_tokens := hm_insert (at_id token) token (c_tokens s)\<rparr>, response_default)"

definition apply_token_revoke :: "string \<Rightarrow> cluster \<Rightarrow> cluster \<times> client_response" where
  "apply_token_revoke token_id s =
     (s\<lparr>c_tokens := hm_modify token_id (\<lambda>t. t\<lparr>at_revoked := True\<rparr>) (c_tokens s)\<rparr>, response_default)"

section \<open>Partitions\<close>

definition reconcile :: "cluster_config \<Rightarrow> cluster \<Rightarrow> cluster" where
  "reconcile cfg s = s\<lparr>c_nodes := reconcile_partitions (c_partitions s) (cc_nodes cfg) (c_nodes s)\<rparr>"

definition demote_all :: "partition list \<Rightarrow> partition list" where
  "demote_all ps = map (\<lambda>p. p\<lparr>p_is_default := False\<rparr>) ps"

fun find_index_from :: "('a \<Rightarrow> bool) \<Rightarrow> nat \<Rightarrow> 'a list \<Rightarrow> nat option" where
  "find_index_from P i [] = None"
| "find_index_from P i (x # xs) = (if P x then Some i else find_index_from P (Suc i) xs)"

definition apply_partition_create :: "cluster_config \<Rightarrow> partition \<Rightarrow> cluster \<Rightarrow> cluster \<times> client_response" where
  "apply_partition_create cfg part s =
     (let seeded = p_name part \<in> c_config_seeded_partitions s;
          s1 = s\<lparr>c_deleted_partition_names := c_deleted_partition_names s - {p_name part},
                 c_config_seeded_partitions := c_config_seeded_partitions s - {p_name part}\<rparr>;
          partitions = (if p_is_default part then demote_all (c_partitions s) else c_partitions s);
          (s2, created) =
            (case find_index_from (\<lambda>p. p_name p = p_name part) 0 (c_partitions s) of
               Some idx \<Rightarrow> if seeded then (s1\<lparr>c_partitions := partitions[idx := part]\<rparr>, True) else (s1, False)
             | None \<Rightarrow> (s1\<lparr>c_partitions := partitions @ [part]\<rparr>, True))
      in (reconcile cfg s2, response_default\<lparr>cr_partition_created := created\<rparr>))"

definition or_keep :: "'a option \<Rightarrow> 'a \<Rightarrow> 'a" where
  "or_keep new old = (case new of None \<Rightarrow> old | Some v \<Rightarrow> v)"

definition parse_partition_state :: "string \<Rightarrow> partition_state" where
  "parse_partition_state t =
     (let u = to_uppercase t
      in if u = ''UP'' then PartUp else if u = ''DOWN'' then PartDown else if u = ''DRAIN'' then PartDrain else PartInactive)"

definition update_partition :: "partition_update \<Rightarrow> partition \<Rightarrow> partition" where
  "update_partition u part = part\<lparr>
     p_nodes := or_keep (pu_nodes u) (p_nodes part),
     p_selector := or_keep (pu_selector u) (p_selector part),
     p_state := or_keep (map_option parse_partition_state (pu_state u)) (p_state part),
     p_max_time_minutes := or_keep (pu_max_time_minutes u) (p_max_time_minutes part),
     p_default_time_minutes := or_keep (pu_default_time_minutes u) (p_default_time_minutes part),
     p_max_nodes := or_keep (pu_max_nodes u) (p_max_nodes part),
     p_min_nodes := or_keep (pu_min_nodes u) (p_min_nodes part),
     p_allow_accounts := or_keep (pu_allow_accounts u) (p_allow_accounts part),
     p_allow_groups := or_keep (pu_allow_groups u) (p_allow_groups part),
     p_deny_accounts := or_keep (pu_deny_accounts u) (p_deny_accounts part),
     p_deny_qos := or_keep (pu_deny_qos u) (p_deny_qos part),
     p_allow_qos := or_keep (pu_allow_qos u) (p_allow_qos part),
     p_priority_tier := or_keep (pu_priority_tier u) (p_priority_tier part),
     p_preempt_mode := (case pu_preempt_mode u of
         None \<Rightarrow> p_preempt_mode part
       | Some pm \<Rightarrow> (case parse_preempt_mode pm of Inr mode \<Rightarrow> mode | Inl _ \<Rightarrow> p_preempt_mode part)),
     p_is_default := or_keep (pu_is_default u) (p_is_default part),
     p_preempt_exempt_time := or_keep (pu_preempt_exempt_time u) (p_preempt_exempt_time part),
     p_grace_time := or_keep (pu_grace_time u) (p_grace_time part)\<rparr>"

fun update_first :: "('a \<Rightarrow> bool) \<Rightarrow> ('a \<Rightarrow> 'a) \<Rightarrow> 'a list \<Rightarrow> 'a list" where
  "update_first P f [] = []"
| "update_first P f (x # xs) = (if P x then f x # xs else x # update_first P f xs)"

definition apply_partition_update :: "cluster_config \<Rightarrow> partition_update \<Rightarrow> cluster \<Rightarrow> cluster \<times> client_response" where
  "apply_partition_update cfg u s =
     (let ps1 = update_first (\<lambda>p. p_name p = pu_name u) (update_partition u) (c_partitions s);
          ps2 = (if pu_is_default u = Some True
                 then map (\<lambda>p. if p_name p \<noteq> pu_name u then p\<lparr>p_is_default := False\<rparr> else p) ps1 else ps1)
      in (reconcile cfg (s\<lparr>c_partitions := ps2\<rparr>), response_default))"

definition apply_partition_delete :: "cluster_config \<Rightarrow> string \<Rightarrow> cluster \<Rightarrow> cluster \<times> client_response" where
  "apply_partition_delete cfg name s =
     (let ps = filter (\<lambda>p. p_name p \<noteq> name) (c_partitions s);
          s1 = s\<lparr>c_partitions := ps\<rparr>;
          s2 = (if length ps < length (c_partitions s)
                then s1\<lparr>c_deleted_partition_names := insert name (c_deleted_partition_names s1)\<rparr> else s1)
      in (reconcile cfg s2, response_default))"

section \<open>Reservations\<close>

definition apply_reservation_create :: "reservation \<Rightarrow> cluster \<Rightarrow> cluster \<times> client_response" where
  "apply_reservation_create rv s =
     (if list_ex (\<lambda>r. rv_name r = rv_name rv) (c_reservations s) then (s, response_default)
      else (s\<lparr>c_reservations := c_reservations s @ [rv]\<rparr>, response_default\<lparr>cr_reservation_created := True\<rparr>))"

definition edit_list :: "string list \<Rightarrow> string list \<Rightarrow> string list \<Rightarrow> string list" where
  "edit_list add remove xs =
     filter (\<lambda>x. x \<notin> set remove) (foldl (\<lambda>ys x. if x \<in> set ys then ys else ys @ [x]) xs add)"

definition apply_reservation_update_locked :: "reservation_update \<Rightarrow> reservation list \<Rightarrow> reservation list" where
  "apply_reservation_update_locked u rs =
     update_first (\<lambda>r. rv_name r = ru_name u)
       (\<lambda>r. r\<lparr>rv_end_time := (if 0 < ru_duration_minutes u
                   then rv_start_time r + duration_seconds (60 * uint (ru_duration_minutes u)) else rv_end_time r),
              rv_nodes := edit_list (ru_add_nodes u) (ru_remove_nodes u) (rv_nodes r),
              rv_users := edit_list (ru_add_users u) (ru_remove_users u) (rv_users r),
              rv_accounts := edit_list (ru_add_accounts u) (ru_remove_accounts u) (rv_accounts r)\<rparr>) rs"

definition apply_reservation_update :: "reservation_update \<Rightarrow> cluster \<Rightarrow> cluster \<times> client_response" where
  "apply_reservation_update u s =
     (s\<lparr>c_reservations := apply_reservation_update_locked u (c_reservations s)\<rparr>, response_default)"

definition hold_jobs_for_deleted_reservation_jobs :: "string \<Rightarrow> job \<Rightarrow> job" where
  "hold_jobs_for_deleted_reservation_jobs name job =
     (if j_state job \<noteq> Pending \<or> js_reservation (j_spec job) \<noteq> Some name
         \<or> is_scheduling_hold (j_pending_reason job) then job
      else set_pending_reason PR_ReservationDeleted (job\<lparr>j_priority := 0\<rparr>))"

definition detach_jobs_from_deleted_reservation_jobs :: "string \<Rightarrow> job \<Rightarrow> job" where
  "detach_jobs_from_deleted_reservation_jobs name job =
     (if j_state job \<noteq> Pending \<or> js_reservation (j_spec job) \<noteq> Some name then job
      else
        (let job1 = job\<lparr>j_spec := (j_spec job)\<lparr>js_reservation := None\<rparr>\<rparr>
         in if j_pending_reason job1 = PR_ReservationDeleted then set_pending_reason PR_None job1 else job1))"

definition apply_reservation_delete :: "string \<Rightarrow> cluster \<Rightarrow> cluster \<times> client_response" where
  "apply_reservation_delete name s =
     (case find (\<lambda>r. rv_name r = name) (c_reservations s) of
        None \<Rightarrow> (s, response_default)
      | Some res \<Rightarrow>
          (let f = (if rf_no_hold_jobs (rv_flags res) then detach_jobs_from_deleted_reservation_jobs name
                    else hold_jobs_for_deleted_reservation_jobs name)
           in (s\<lparr>c_reservations := filter (\<lambda>r. rv_name r \<noteq> name) (c_reservations s),
                  c_jobs := map (\<lambda>(i, j). (i, f j)) (c_jobs s)\<rparr>, response_default)))"

section \<open>The managed Kubernetes cluster\<close>

definition apply_node_k0s_assign ::
  "string \<Rightarrow> k0s_role \<Rightarrow> string \<Rightarrow> string \<Rightarrow> cluster \<Rightarrow> cluster \<times> client_response" where
  "apply_node_k0s_assign name role mesh_ip pod_cidr s =
     (case hm_get (c_nodes s) name of
        None \<Rightarrow> (s, response_default)
      | Some node \<Rightarrow>
          (let counts =
             (if n_k0s_role node \<noteq> Some role then
                role_inc role (case n_k0s_role node of
                    None \<Rightarrow> c_k0s_role_counts s | Some old \<Rightarrow> role_dec old (c_k0s_role_counts s))
              else c_k0s_role_counts s)
           in (s\<lparr>c_k0s_role_counts := counts,
                  c_nodes := hm_insert name (node\<lparr>n_k0s_role := Some role, n_k0s_mesh_ip := Some mesh_ip,
                    n_k0s_pod_cidr := Some pod_cidr\<rparr>) (c_nodes s)\<rparr>, response_default)))"

definition apply_node_k0s_clear :: "string \<Rightarrow> cluster \<Rightarrow> cluster \<times> client_response" where
  "apply_node_k0s_clear name s =
     (case hm_get (c_nodes s) name of
        None \<Rightarrow> (s, response_default)
      | Some node \<Rightarrow>
          (s\<lparr>c_k0s_role_counts := (case n_k0s_role node of
                 None \<Rightarrow> c_k0s_role_counts s | Some old \<Rightarrow> role_dec old (c_k0s_role_counts s)),
             c_nodes := hm_insert name (node\<lparr>n_k0s_role := None, n_k0s_mesh_ip := None, n_k0s_pod_cidr := None,
               n_k0s_last_error := None\<rparr>) (c_nodes s)\<rparr>, response_default))"

definition apply_node_k0s_set_error :: "string \<Rightarrow> string option \<Rightarrow> cluster \<Rightarrow> cluster \<times> client_response" where
  "apply_node_k0s_set_error name err s =
     (s\<lparr>c_nodes := hm_modify name (\<lambda>node. node\<lparr>n_k0s_last_error := err\<rparr>) (c_nodes s)\<rparr>, response_default)"

definition merge_member_nodes :: "string list \<Rightarrow> string list \<Rightarrow> string list" where
  "merge_member_nodes current add = sorted_list_of_set (set current \<union> set add)"

definition subtract_member_nodes :: "string list \<Rightarrow> string list \<Rightarrow> string list" where
  "subtract_member_nodes current drop' = sort (filter (\<lambda>n. n \<notin> set drop') current)"

definition apply_k0s_member_nodes_add :: "string list \<Rightarrow> cluster \<Rightarrow> cluster \<times> client_response" where
  "apply_k0s_member_nodes_add add s =
     (s\<lparr>c_k0s := (c_k0s s)\<lparr>ks_member_nodes := merge_member_nodes (ks_member_nodes (c_k0s s)) add\<rparr>\<rparr>, response_default)"

definition apply_k0s_member_nodes_remove :: "string list \<Rightarrow> cluster \<Rightarrow> cluster \<times> client_response" where
  "apply_k0s_member_nodes_remove drop' s =
     (s\<lparr>c_k0s := (c_k0s s)\<lparr>ks_member_nodes := subtract_member_nodes (ks_member_nodes (c_k0s s)) drop'\<rparr>\<rparr>, response_default)"

definition apply_k0s_set_phase :: "k0s_set_phase \<Rightarrow> cluster \<Rightarrow> cluster \<times> client_response" where
  "apply_k0s_set_phase p s =
     (let k0 = (c_k0s s)\<lparr>ks_phase := kp_phase p, ks_reset_requested := kp_reset_requested p\<rparr>;
          k1 = (if kp_phase p = PhaseDown
                then k0\<lparr>ks_member_nodes := [], ks_control_plane_node := None, ks_control_plane_nodes := []\<rparr>
                else k0\<lparr>
                  ks_control_plane_node := (if kp_control_plane_node p \<noteq> None then kp_control_plane_node p else ks_control_plane_node k0),
                  ks_control_plane_nodes := (if kp_control_plane_nodes p \<noteq> [] then kp_control_plane_nodes p else ks_control_plane_nodes k0),
                  ks_member_nodes := (if kp_member_nodes p \<noteq> [] then kp_member_nodes p else ks_member_nodes k0)\<rparr>)
      in (s\<lparr>c_k0s := k1\<rparr>, response_default))"

section \<open>Retention\<close>

definition apply_evict_terminal_jobs :: "job_id list \<Rightarrow> cluster \<Rightarrow> cluster \<times> client_response" where
  "apply_evict_terminal_jobs job_ids s =
     (let evicted = set (filter (\<lambda>i. case hm_get (c_jobs s) i of
              None \<Rightarrow> False | Some j \<Rightarrow> is_finalized (j_state j)) job_ids)
      in if evicted = {} then (s, response_default)
         else (s\<lparr>c_jobs := hm_retain (\<lambda>i _. i \<notin> evicted) (c_jobs s),
                 c_steps := hm_retain (\<lambda>_ st. st_job_id st \<notin> evicted) (c_steps s),
                 c_next_step_id := hm_retain (\<lambda>i _. i \<notin> evicted) (c_next_step_id s)\<rparr>, response_default))"

section \<open>Dispatch\<close>

definition op_timestamp :: "instant \<Rightarrow> wal_operation \<Rightarrow> instant" where
  "op_timestamp now op = (case occurred_at op of None \<Rightarrow> now | Some t \<Rightarrow> t)"

definition apply_operation :: "cluster_config \<Rightarrow> instant \<Rightarrow> wal_operation \<Rightarrow> cluster \<Rightarrow> cluster \<times> client_response" where
  "apply_operation cfg now op s =
     (let ts = op_timestamp now op
      in case op of
        JobSubmit i spec \<Rightarrow> apply_job_submit now i spec s
      | JobStateChange p \<Rightarrow> apply_job_state_change cfg now ts p s
      | JobStart p \<Rightarrow> apply_job_start p s
      | JobComplete p \<Rightarrow> apply_job_complete now ts p s
      | JobNodeComplete i n c g r at \<Rightarrow> apply_job_node_complete now ts i n c g r s
      | JobTimeLimitSignaled i at \<Rightarrow> apply_job_time_limit_signaled i at s
      | JobCancelSignaled i at cancel \<Rightarrow> apply_job_cancel_signaled now i at cancel s
      | JobStepComplete i st c \<Rightarrow> apply_job_step_complete ts i st c s
      | JobStepCreate st \<Rightarrow> apply_job_step_create st s
      | JobPriorityChange p \<Rightarrow> apply_job_priority_change p s
      | JobExcludeUpdate i e \<Rightarrow> apply_job_exclude_update i e s
      | JobDispatchBackoff i b sp r mx \<Rightarrow> apply_job_dispatch_backoff i b sp r mx s
      | JobPreemptRequeue p \<Rightarrow> apply_job_preempt_requeue now ts p s
      | JobPreemptCancel i pb q at r \<Rightarrow> apply_job_preempt_cancel now ts i pb q at r s
      | JobUserRequeue i h b who at \<Rightarrow> apply_job_user_requeue now ts i h b who s
      | JobSuspend i at pb q who \<Rightarrow> apply_job_suspend now i at pb q who s
      | JobResume i at \<Rightarrow> apply_job_resume now i at s
      | JobEvict i d at \<Rightarrow> apply_job_evict now ts i d s
      | JobLaunchFailureDetail i d \<Rightarrow> apply_job_launch_failure_detail i d s
      | NodeRegister p \<Rightarrow> apply_node_register cfg now p s
      | NodeUpdate p \<Rightarrow> apply_node_update cfg now p s
      | NodeStateChange p \<Rightarrow> apply_node_state_change now ts p s
      | NodeLabelsUpdate n st rm \<Rightarrow> apply_node_labels_update cfg n st rm s
      | NodeRemove n r at \<Rightarrow> apply_node_remove now ts n r s
      | TokenCreate t \<Rightarrow> apply_token_create t s
      | TokenRevoke t \<Rightarrow> apply_token_revoke t s
      | PartitionCreate p \<Rightarrow> apply_partition_create cfg p s
      | PartitionUpdate u \<Rightarrow> apply_partition_update cfg u s
      | PartitionDelete n \<Rightarrow> apply_partition_delete cfg n s
      | ReservationCreate r \<Rightarrow> apply_reservation_create r s
      | ReservationUpdate u \<Rightarrow> apply_reservation_update u s
      | ReservationDelete n \<Rightarrow> apply_reservation_delete n s
      | NodeK0sAssign n r m c \<Rightarrow> apply_node_k0s_assign n r m c s
      | K0sSetPhase p \<Rightarrow> apply_k0s_set_phase p s
      | NodeK0sClear n \<Rightarrow> apply_node_k0s_clear n s
      | EvictTerminalJobs ids \<Rightarrow> apply_evict_terminal_jobs ids s
      | NodeK0sSetError n e \<Rightarrow> apply_node_k0s_set_error n e s
      | K0sMemberNodesAdd ns \<Rightarrow> apply_k0s_member_nodes_add ns s
      | K0sMemberNodesRemove ns \<Rightarrow> apply_k0s_member_nodes_remove ns s
      | JobTimeLimitExpired i r at \<Rightarrow> apply_job_time_limit_expired now i r at s
      | JobPreemptSignaled i p \<Rightarrow> apply_job_preempt_signaled i p s)"

end
