(* ===== verification/Charge.thy ===== *)
theory Charge
  imports Cluster_Ops
begin

text \<open>
  What the nodes are charged for. Every registered node's allocation is, quantity by quantity,
  the sum of the slices of the jobs that hold it; the theory shows that every entry of the log keeps
  this balance under the conditions its proposer checks. The balance only speaks of
  the job and node tables, so every operation is reduced to one of four moves: a job record is
  replaced by one with the same charge, its slices are given back, one slice is given back, or
  slices are taken.
\<close>

section \<open>The balance\<close>

definition charging :: "job_state \<Rightarrow> bool" where
  "charging st = (st \<in> {Pending, Running, Completing, Suspended})"

definition job_slice :: "job \<Rightarrow> string \<Rightarrow> resource_allocations" where
  "job_slice job n =
     (case j_allocated_resources job of
        None \<Rightarrow> ra_default
      | Some tot \<Rightarrow> slice_for (j_per_node_alloc job) tot (j_allocated_nodes job) n)"

definition holds_charge :: "job \<Rightarrow> string \<Rightarrow> bool" where
  "holds_charge job n = (charging (j_state job) \<and> is_held_on job n)"

definition job_charge :: "job \<Rightarrow> string \<Rightarrow> quantity \<Rightarrow> nat" where
  "job_charge job n q = (if holds_charge job n then ra_view (job_slice job n) q else 0)"

definition charged :: "(job_id, job) hashmap \<Rightarrow> string \<Rightarrow> quantity \<Rightarrow> nat" where
  "charged jobs n q = hm_sum (\<lambda>_ job. job_charge job n q) jobs"

definition job_ok :: "job \<Rightarrow> bool" where
  "job_ok job =
     (j_state job \<noteq> Preempted \<and> distinct (j_allocated_nodes job)
      \<and> hm_wf (j_node_completions job) \<and> set (hm_keys (j_node_completions job)) \<subseteq> set (j_allocated_nodes job)
      \<and> (j_state job = Pending \<longrightarrow> j_node_completions job = [])
      \<and> (\<forall>n. ra_ok (job_slice job n)))"

definition node_ok :: "(job_id, job) hashmap \<Rightarrow> string \<Rightarrow> node \<Rightarrow> bool" where
  "node_ok jobs n node =
     (ra_wf (n_alloc_resources node) \<and> (\<forall>q. ra_view (n_alloc_resources node) q = charged jobs n q))"

definition balanced :: "(job_id, job) hashmap \<Rightarrow> (string, node) hashmap \<Rightarrow> bool" where
  "balanced jobs nodes =
     (hm_wf jobs \<and> hm_wf nodes
      \<and> (\<forall>i job. hm_get jobs i = Some job \<longrightarrow> job_ok job)
      \<and> (\<forall>n node. hm_get nodes n = Some node \<longrightarrow> node_ok jobs n node)
      \<and> (\<forall>n q. hm_get nodes n = None \<longrightarrow> charged jobs n q = 0))"

text \<open>The fields of a job its charge depends on.\<close>

definition placement :: "job \<Rightarrow> string list \<times> resource_allocations option \<times> (string, resource_allocations) hashmap
    \<times> (string, node_completion) hashmap" where
  "placement job = (j_allocated_nodes job, j_allocated_resources job, j_per_node_alloc job, j_node_completions job)"

section \<open>Job records\<close>

lemma charging_cases: "charging st \<longleftrightarrow> st = Pending \<or> is_active st"
  by (cases st) (simp_all add: charging_def is_active_def)

lemma terminal_not_charging: "is_terminal st \<Longrightarrow> \<not> charging st"
  by (cases st) (simp_all add: charging_def is_terminal_def)

lemma job_slice_cong:
  "j_allocated_nodes job' = j_allocated_nodes job \<Longrightarrow> j_allocated_resources job' = j_allocated_resources job \<Longrightarrow>
   j_per_node_alloc job' = j_per_node_alloc job \<Longrightarrow> job_slice job' n = job_slice job n"
  by (simp add: job_slice_def split: option.split)

lemma placement_charge:
  assumes "placement job' = placement job" and "charging (j_state job') = charging (j_state job)"
  shows "job_charge job' n q = job_charge job n q"
  using assms job_slice_cong [of job' job n]
  by (simp add: placement_def job_charge_def holds_charge_def is_held_on_def)

lemma placement_ok:
  assumes "placement job' = placement job" and "job_ok job" and "j_state job' \<noteq> Preempted"
    and "j_state job' = Pending \<Longrightarrow> j_state job = Pending"
  shows "job_ok job'"
  using assms job_slice_cong [of job' job] by (auto simp: placement_def job_ok_def)

lemma free_charge: "j_allocated_nodes job = [] \<Longrightarrow> job_charge job n q = 0"
  by (simp add: job_charge_def holds_charge_def is_held_on_def)

lemma ended_charge: "\<not> charging (j_state job) \<Longrightarrow> job_charge job n q = 0"
  by (simp add: job_charge_def holds_charge_def)

lemma ra_ok_default [simp]: "ra_ok ra_default"
  by (simp add: ra_wf_ok)

lemma cleared_ok:
  assumes "j_allocated_nodes job = []" "j_allocated_resources job = None" "j_node_completions job = []"
    and "j_state job \<noteq> Preempted"
  shows "job_ok job"
  using assms by (simp add: job_ok_def job_slice_def)

lemma ended_ok:
  assumes "j_allocated_nodes job' = j_allocated_nodes job" "j_allocated_resources job' = j_allocated_resources job"
    "j_per_node_alloc job' = j_per_node_alloc job" "j_node_completions job' = []"
    and "job_ok job" and "is_terminal (j_state job')"
  shows "job_ok job'"
  using assms job_slice_cong [of job' job] by (auto simp: job_ok_def is_terminal_def)

text \<open>The helpers that leave the placement alone, and the one that clears it.\<close>

named_theorems placement_simps

lemma placement_end_suspension [placement_simps, simp]:
  "placement (end_suspension at job) = placement job" "j_state (end_suspension at job) = j_state job"
  by (simp_all add: placement_def end_suspension_def split: option.split)

lemma placement_set_pending_reason [placement_simps, simp]:
  "placement (set_pending_reason r job) = placement job" "j_state (set_pending_reason r job) = j_state job"
  by (simp_all add: placement_def set_pending_reason_def drop_stale_detail_def)

lemma placement_set_pending_reason_desc [placement_simps, simp]:
  "placement (set_pending_reason_desc r d job) = placement job" "j_state (set_pending_reason_desc r d job) = j_state job"
  by (simp_all add: placement_def set_pending_reason_desc_def drop_stale_detail_def)

lemma placement_set_reason [placement_simps, simp]:
  "placement (set_reason r d job) = placement job" "j_state (set_reason r d job) = j_state job"
  by (simp_all add: set_reason_def split: option.split)

lemma placement_set_begin_time [placement_simps, simp]:
  "placement (set_begin_time t job) = placement job" "j_state (set_begin_time t job) = j_state job"
  by (simp_all add: placement_def set_begin_time_def)

lemma placement_adopt_grace [placement_simps, simp]:
  "placement (adopt_grace_provenance at job) = placement job" "j_state (adopt_grace_provenance at job) = j_state job"
  by (simp_all add: placement_def adopt_grace_provenance_def Let_def split: option.split preempt_mode.split)

lemma transition_Inr:
  "transition now to job = Inr job' \<Longrightarrow> placement job' = placement job \<and> j_state job' = to \<and> valid_transition (j_state job) to"
  by (auto simp: transition_def placement_def Let_def split: if_splits)

definition cleared :: "job \<Rightarrow> bool" where
  "cleared job = (j_allocated_nodes job = [] \<and> j_allocated_resources job = None \<and> j_node_completions job = [])"

lemma placement_cleared: "placement job' = placement job \<Longrightarrow> cleared job \<Longrightarrow> cleared job'"
  by (simp add: placement_def cleared_def)

lemma clear_run_state_cleared [simp]:
  "cleared (clear_run_state_for_requeue job)" "j_state (clear_run_state_for_requeue job) = j_state job"
  "cleared (reset_job_for_requeue job)" "j_state (reset_job_for_requeue job) = j_state job"
  "cleared (reset_job_for_preempt_requeue job)" "j_state (reset_job_for_preempt_requeue job) = j_state job"
  "cleared (reset_job_for_user_requeue who job)" "j_state (reset_job_for_user_requeue who job) = j_state job"
  by (simp_all add: cleared_def clear_run_state_for_requeue_def reset_job_for_requeue_def
      reset_job_for_preempt_requeue_def reset_job_for_user_requeue_def)

lemma cleared_charge: "cleared job \<Longrightarrow> job_charge job n q = 0"
  by (simp add: cleared_def free_charge)

lemma cleared_job_ok: "cleared job \<Longrightarrow> j_state job \<noteq> Preempted \<Longrightarrow> job_ok job"
  by (simp add: cleared_def cleared_ok)

section \<open>Moves\<close>

lemma charged_put:
  assumes "hm_wf jobs" and "hm_get jobs i = Some job"
  shows "charged (hm_insert i job' jobs) n q + job_charge job n q = charged jobs n q + job_charge job' n q"
  unfolding charged_def using hm.total_put_old [OF assms, of "\<lambda>_ j. job_charge j n q" job'] by simp

lemma charge_le_charged: "hm_get jobs i = Some job \<Longrightarrow> job_charge job n q \<le> charged jobs n q"
  unfolding charged_def by (rule hm.total_ge [where f = "\<lambda>_ j. job_charge j n q"])

text \<open>Replacing a job and its nodes: the general move.\<close>

lemma balanced_put:
  assumes "balanced jobs nodes" and "hm_get jobs i = Some job" and "job_ok job'" and "hm_wf nodes'"
    and "\<And>n node'. hm_get nodes' n = Some node' \<Longrightarrow> \<exists>node. hm_get nodes n = Some node
      \<and> ra_wf (n_alloc_resources node')
      \<and> (\<forall>q. ra_view (n_alloc_resources node') q + job_charge job n q
               = ra_view (n_alloc_resources node) q + job_charge job' n q)"
    and "\<And>n q. hm_get nodes' n = None \<Longrightarrow> hm_get nodes n = None \<and> job_charge job' n q \<le> job_charge job n q"
  shows "balanced (hm_insert i job' jobs) nodes'"
proof -
  have wf: "hm_wf jobs" using assms(1) by (simp add: balanced_def)
  have "node_ok (hm_insert i job' jobs) n node'" if get: "hm_get nodes' n = Some node'" for n node'
  proof -
    obtain node where node: "hm_get nodes n = Some node" "ra_wf (n_alloc_resources node')"
      and v: "ra_view (n_alloc_resources node') q + job_charge job n q
               = ra_view (n_alloc_resources node) q + job_charge job' n q" for q
      using assms(5) [OF get] by blast
    have "ra_view (n_alloc_resources node) q = charged jobs n q" for q
      using assms(1) node(1) by (simp add: balanced_def node_ok_def)
    then have "ra_view (n_alloc_resources node') q = charged (hm_insert i job' jobs) n q" for q
      using charged_put [OF wf assms(2), of job' n q] v [of q] by simp
    then show ?thesis using node(2) by (simp add: node_ok_def)
  qed
  moreover have "charged (hm_insert i job' jobs) n q = 0" if "hm_get nodes' n = None" for n q
    using charged_put [OF wf assms(2), of job' n q] assms(6) [OF that, of q] assms(1)
    by (simp add: balanced_def)
  ultimately show ?thesis using assms(1,3,4) by (auto simp: balanced_def hm_simps)
qed

lemma balanced_nodeD:
  "balanced jobs nodes \<Longrightarrow> hm_get nodes n = Some node \<Longrightarrow>
     ra_wf (n_alloc_resources node) \<and> ra_view (n_alloc_resources node) q = charged jobs n q"
  by (simp add: balanced_def node_ok_def)

lemma balanced_jobD: "balanced jobs nodes \<Longrightarrow> hm_get jobs i = Some job \<Longrightarrow> job_ok job"
  by (simp add: balanced_def)

text \<open>A job is replaced by one with the same charge.\<close>

lemma balanced_same:
  assumes "balanced jobs nodes" and "hm_get jobs i = Some job" and "job_ok job'"
    and "\<And>n q. job_charge job' n q = job_charge job n q"
  shows "balanced (hm_insert i job' jobs) nodes"
  using assms(1)
  by (intro balanced_put [OF assms(1,2,3)]) (auto simp: assms(4) balanced_def node_ok_def)

lemma balanced_keep:
  assumes "balanced jobs nodes" and "hm_get jobs i = Some job"
    and "placement job' = placement job" and "charging (j_state job') = charging (j_state job)"
    and "j_state job' \<noteq> Preempted" and "j_state job' = Pending \<Longrightarrow> j_state job = Pending"
  shows "balanced (hm_insert i job' jobs) nodes"
  using placement_ok [OF assms(3) balanced_jobD [OF assms(1,2)] assms(5,6)] placement_charge [OF assms(3,4)]
  by (intro balanced_same [OF assms(1,2)])

lemma balanced_repend:
  assumes "balanced jobs nodes" and "hm_get jobs i = Some job" and "\<not> charging (j_state job)"
    and "cleared job'" and "j_state job' = Pending"
  shows "balanced (hm_insert i job' jobs) nodes"
  using assms(3,4,5)
  by (intro balanced_same [OF assms(1,2)]) (simp_all add: cleared_job_ok cleared_charge ended_charge)

text \<open>A job that was not known is added.\<close>

lemma balanced_new:
  assumes "balanced jobs nodes" and "hm_get jobs i = None" and "cleared job" and "j_state job \<noteq> Preempted"
  shows "balanced (hm_insert i job jobs) nodes"
proof -
  have "charged (hm_insert i job jobs) n q = charged jobs n q" for n q
    unfolding charged_def using hm.total_put_new [OF assms(2), of "\<lambda>_ j. job_charge j n q" job] cleared_charge [OF assms(3)]
    by simp
  then show ?thesis using assms(1) cleared_job_ok [OF assms(3,4)]
    by (auto simp: balanced_def node_ok_def hm_simps)
qed

subsection \<open>Giving slices back and taking them\<close>

lemma hm_get_fold_modify:
  "distinct names \<Longrightarrow>
     hm_get (foldl (\<lambda>ns name. if P name then ns else hm_modify name (g name) ns) nodes names) n =
       (if n \<in> set names \<and> \<not> P n then map_option (g n) (hm_get nodes n) else hm_get nodes n)"
  by (induction names arbitrary: nodes) (auto simp: hm_simps)

lemma hm_get_fold_modify_None:
  "(hm_get (foldl (\<lambda>ns name. if P name then ns else hm_modify name (g name) ns) nodes names) n = None) = (hm_get nodes n = None)"
  by (induction names arbitrary: nodes) (auto simp: hm_simps)

lemma hm_wf_fold_modify:
  "hm_wf nodes \<Longrightarrow> hm_wf (foldl (\<lambda>ns name. if P name then ns else hm_modify name (g name) ns) nodes names)"
  by (induction names arbitrary: nodes) auto

lemma hm_wf_free_job [simp]: "hm_wf nodes \<Longrightarrow> hm_wf (free_job job already nodes)"
  by (simp add: deallocate_job_slices_def hm_wf_fold_modify split: option.split)

lemma free_job_None [simp]: "(hm_get (free_job job already nodes) n = None) = (hm_get nodes n = None)"
  by (simp add: deallocate_job_slices_def hm_get_fold_modify_None split: option.split)

lemma hm_get_free_job:
  assumes "distinct (j_allocated_nodes job)"
  shows "hm_get (free_job job already nodes) n =
     (if n \<in> set (j_allocated_nodes job) \<and> n \<notin> set already \<and> j_allocated_resources job \<noteq> None
      then map_option (release_node (job_slice job n)) (hm_get nodes n) else hm_get nodes n)"
proof (cases "j_allocated_resources job")
  case (Some tot)
  then show ?thesis
    using hm_get_fold_modify [OF assms, of "\<lambda>name. name \<in> set already"
        "\<lambda>name. release_node (slice_for (j_per_node_alloc job) tot (j_allocated_nodes job) name)" nodes n]
    by (simp add: deallocate_job_slices_def job_slice_def)
qed (simp add: deallocate_job_slices_def)

lemma free_job_cong: "placement job' = placement job \<Longrightarrow> free_job job' already = free_job job already"
  by (simp add: placement_def)

lemma release_node_alloc [simp]:
  "n_alloc_resources (release_node share node) = ra_subtract (n_alloc_resources node) share"
  by (simp add: release_node_def)

lemma charge_node_alloc [simp]:
  "n_alloc_resources (charge_node share node) = ra_add (n_alloc_resources node) share"
  by (simp add: charge_node_def)

lemma held_iff: "is_held_on job n \<longleftrightarrow> n \<in> set (j_allocated_nodes job) \<and> n \<notin> set (hm_keys (j_node_completions job))"
  by (simp add: is_held_on_def map_of_eq_None_iff)

lemma charge_without_resources: "j_allocated_resources job = None \<Longrightarrow> job_charge job n q = 0"
  by (simp add: job_charge_def job_slice_def)

text \<open>A job ends or is put back, and its remaining slices are given back.\<close>

lemma balanced_free:
  assumes bal: "balanced jobs nodes" and get: "hm_get jobs i = Some job" and live: "charging (j_state job)"
    and ok': "job_ok job'" and none: "\<And>n q. job_charge job' n q = 0"
    and already: "set already = set (hm_keys (j_node_completions job))"
  shows "balanced (hm_insert i job' jobs) (free_job job already nodes)"
proof (rule balanced_put [OF bal get ok'])
  have ok: "job_ok job" using balanced_jobD [OF bal get] .
  show "hm_wf (free_job job already nodes)" using bal by (simp add: balanced_def)
  fix n node'
  assume get': "hm_get (free_job job already nodes) n = Some node'"
  define freed where "freed = (n \<in> set (j_allocated_nodes job) \<and> n \<notin> set already \<and> j_allocated_resources job \<noteq> None)"
  have dist: "distinct (j_allocated_nodes job)" and slice_ok: "ra_ok (job_slice job n)"
    using ok by (simp_all add: job_ok_def)
  obtain node where node: "hm_get nodes n = Some node"
    and node': "node' = (if freed then release_node (job_slice job n) node else node)"
    using get' unfolding hm_get_free_job [OF dist] freed_def [symmetric] by (cases freed) auto
  have wf: "ra_wf (n_alloc_resources node)" and v: "ra_view (n_alloc_resources node) q = charged jobs n q" for q
    using balanced_nodeD [OF bal node] by auto
  have charge: "job_charge job n q = (if freed then ra_view (job_slice job n) q else 0)" for q
    using charge_without_resources [of job n q]
    by (cases "j_allocated_resources job = None") (simp_all add: freed_def job_charge_def holds_charge_def held_iff live already)
  have "ra_wf (n_alloc_resources node')"
    using node' wf slice_ok by (simp add: ra_wf_subtract)
  moreover have "ra_view (n_alloc_resources node') q + job_charge job n q = ra_view (n_alloc_resources node) q" for q
    using node' wf slice_ok charge [of q] charge_le_charged [OF get, of n q] v [of q]
    by (cases freed) (simp_all add: ra_view_subtract)
  ultimately show "\<exists>node. hm_get nodes n = Some node \<and> ra_wf (n_alloc_resources node')
      \<and> (\<forall>q. ra_view (n_alloc_resources node') q + job_charge job n q
               = ra_view (n_alloc_resources node) q + job_charge job' n q)"
    using node none by simp
qed (simp add: none)

text \<open>A pending job holds no report, so giving back everything is the same move.\<close>

lemma balanced_free_pending:
  assumes "balanced jobs nodes" and "hm_get jobs i = Some job" and "j_state job = Pending"
    and "job_ok job'" and "\<And>n q. job_charge job' n q = 0"
  shows "balanced (hm_insert i job' jobs) (free_job job [] nodes)"
  using balanced_jobD [OF assms(1,2)] assms(3)
  by (intro balanced_free [OF assms(1,2) _ assms(4,5)]) (simp_all add: charging_def job_ok_def)

text \<open>One node reports, and its slice alone is given back.\<close>

lemma hm_get_release_reported:
  "hm_get (release_reported_node job name nodes) n =
     (if n = name \<and> \<not> hm_contains (j_node_completions job) name \<and> j_allocated_resources job \<noteq> None
      then map_option (release_node (job_slice job n)) (hm_get nodes n) else hm_get nodes n)"
  by (simp add: release_reported_node_def job_slice_def hm_simps split: option.split)

lemma release_reported_None [simp]: "(hm_get (release_reported_node job name nodes) n = None) = (hm_get nodes n = None)"
  by (simp add: hm_get_release_reported)

lemma hm_wf_release_reported [simp]: "hm_wf nodes \<Longrightarrow> hm_wf (release_reported_node job name nodes)"
  by (simp add: release_reported_node_def split: option.split)

definition record_report :: "string \<Rightarrow> node_completion \<Rightarrow> job \<Rightarrow> job" where
  "record_report name c job = job\<lparr>j_node_completions := hm_insert name c (j_node_completions job)\<rparr>"

lemma record_report_fields [simp]:
  "j_state (record_report name c job) = j_state job"
  "j_allocated_nodes (record_report name c job) = j_allocated_nodes job"
  "job_slice (record_report name c job) n = job_slice job n"
  "is_held_on (record_report name c job) n = (is_held_on job n \<and> n \<noteq> name)"
  by (auto simp: record_report_def is_held_on_def hm_simps job_slice_def split: option.split)

lemma record_report_ok:
  assumes "job_ok job" and "j_state job \<noteq> Pending" and "name \<in> set (j_allocated_nodes job)"
  shows "job_ok (record_report name c job)"
proof -
  have "set (hm_keys (hm_insert name c (j_node_completions job))) = insert name (set (hm_keys (j_node_completions job)))"
    by (simp add: dom_update)
  then have "set (hm_keys (j_node_completions (record_report name c job))) \<subseteq> set (j_allocated_nodes job)"
    "hm_wf (j_node_completions (record_report name c job))"
    using assms by (simp_all add: job_ok_def record_report_def)
  then show ?thesis using assms by (simp add: job_ok_def)
qed

lemma balanced_report:
  assumes bal: "balanced jobs nodes" and get: "hm_get jobs i = Some job" and act: "is_active (j_state job)"
    and name: "name \<in> set (j_allocated_nodes job)" and ok': "job_ok job'"
    and charge': "\<And>n q. job_charge job' n q = job_charge (record_report name c job) n q"
  shows "balanced (hm_insert i job' jobs) (release_reported_node job name nodes)"
proof (rule balanced_put [OF bal get ok'])
  have ok: "job_ok job" using balanced_jobD [OF bal get] .
  have live: "charging (j_state job)" using act by (simp add: charging_cases)
  show "hm_wf (release_reported_node job name nodes)" using bal by (simp add: balanced_def)
  fix n node'
  assume get': "hm_get (release_reported_node job name nodes) n = Some node'"
  define freed where "freed = (n = name \<and> \<not> hm_contains (j_node_completions job) name \<and> j_allocated_resources job \<noteq> None)"
  have slice_ok: "ra_ok (job_slice job n)" using ok by (simp add: job_ok_def)
  obtain node where node: "hm_get nodes n = Some node"
    and node': "node' = (if freed then release_node (job_slice job n) node else node)"
    using get' unfolding hm_get_release_reported freed_def [symmetric] by (cases freed) auto
  have wf: "ra_wf (n_alloc_resources node)" and v: "ra_view (n_alloc_resources node) q = charged jobs n q" for q
    using balanced_nodeD [OF bal node] by auto
  have "job_charge job n q = job_charge (record_report name c job) n q + (if freed then ra_view (job_slice job n) q else 0)" for q
    using charge_without_resources [of job n q] charge_without_resources [of "record_report name c job" n q] name live
    by (cases "j_allocated_resources job = None")
      (auto simp: freed_def job_charge_def holds_charge_def is_held_on_def record_report_def [of name c job] hm_simps
        job_slice_def)
  then have diff: "job_charge job n q = job_charge job' n q + (if freed then ra_view (job_slice job n) q else 0)" for q
    using charge' by simp
  have "ra_wf (n_alloc_resources node')" using node' wf slice_ok by (simp add: ra_wf_subtract)
  moreover have "ra_view (n_alloc_resources node') q + job_charge job n q = ra_view (n_alloc_resources node) q + job_charge job' n q" for q
    using node' wf slice_ok diff [of q] charge_le_charged [OF get, of n q] v [of q]
    by (cases freed) (simp_all add: ra_view_subtract)
  ultimately show "\<exists>node. hm_get nodes n = Some node \<and> ra_wf (n_alloc_resources node')
      \<and> (\<forall>q. ra_view (n_alloc_resources node') q + job_charge job n q
               = ra_view (n_alloc_resources node) q + job_charge job' n q)"
    using node by simp
qed (simp add: charge', simp add: job_charge_def holds_charge_def)

text \<open>A placement is taken. The sums must stay within the counters, which saturate.\<close>

definition fits :: "(string, node) hashmap \<Rightarrow> string list \<Rightarrow> resource_allocations \<Rightarrow> (string, resource_allocations) hashmap \<Rightarrow> bool" where
  "fits nodes names resources per_node_alloc =
     (\<forall>n \<in> set names.
        case hm_get nodes n of
          None \<Rightarrow> False
        | Some node \<Rightarrow>
            (\<forall>q. ra_view (n_alloc_resources node) q + ra_view (slice_for per_node_alloc resources names n) q \<le> ra_cap q))"

lemma hm_get_allocate:
  "distinct names \<Longrightarrow> hm_get (allocate_job_slices names resources per_node nodes) n =
     (if n \<in> set names then map_option (charge_node (slice_for per_node resources names n)) (hm_get nodes n) else hm_get nodes n)"
  unfolding allocate_job_slices_def
  using hm_get_fold_modify [of names "\<lambda>_. False" "\<lambda>name. charge_node (slice_for per_node resources names name)" nodes n] by simp

lemma allocate_None [simp]:
  "(hm_get (allocate_job_slices names resources per_node nodes) n = None) = (hm_get nodes n = None)"
  unfolding allocate_job_slices_def
  using hm_get_fold_modify_None [of "\<lambda>_. False" "\<lambda>name. charge_node (slice_for per_node resources names name)" nodes names n] by simp

lemma hm_wf_allocate [simp]: "hm_wf nodes \<Longrightarrow> hm_wf (allocate_job_slices names resources per_node nodes)"
  unfolding allocate_job_slices_def
  using hm_wf_fold_modify [of nodes "\<lambda>_. False" "\<lambda>name. charge_node (slice_for per_node resources names name)" names] by simp

lemma balanced_take:
  assumes bal: "balanced jobs nodes" and get: "hm_get jobs i = Some job" and free: "\<And>n q. job_charge job n q = 0"
    and ok': "job_ok job'" and live: "charging (j_state job')" and fresh: "j_node_completions job' = []"
    and res: "j_allocated_resources job' = Some resources"
    and fit: "fits nodes (j_allocated_nodes job') resources (j_per_node_alloc job')"
  shows "balanced (hm_insert i job' jobs)
     (allocate_job_slices (j_allocated_nodes job') resources (j_per_node_alloc job') nodes)"
proof (rule balanced_put [OF bal get ok'])
  let ?names = "j_allocated_nodes job'"
  show "hm_wf (allocate_job_slices ?names resources (j_per_node_alloc job') nodes)" using bal by (simp add: balanced_def)
  have slice: "job_slice job' n = slice_for (j_per_node_alloc job') resources ?names n" for n
    using res by (simp add: job_slice_def)
  fix n node'
  assume get': "hm_get (allocate_job_slices ?names resources (j_per_node_alloc job') nodes) n = Some node'"
  have dist: "distinct ?names" and slice_ok: "ra_ok (job_slice job' n)" using ok' by (simp_all add: job_ok_def)
  obtain node where node: "hm_get nodes n = Some node"
    and node': "node' = (if n \<in> set ?names then charge_node (job_slice job' n) node else node)"
    using get' unfolding hm_get_allocate [OF dist] slice by (cases "n \<in> set ?names") auto
  have wf: "ra_wf (n_alloc_resources node)" using balanced_nodeD [OF bal node] by auto
  have "job_charge job' n q = (if n \<in> set ?names then ra_view (job_slice job' n) q else 0)" for q
    using live fresh by (simp add: job_charge_def holds_charge_def is_held_on_def)
  moreover have "ra_view (ra_add (n_alloc_resources node) (job_slice job' n)) q
      = ra_view (n_alloc_resources node) q + ra_view (job_slice job' n) q" if "n \<in> set ?names" for q
    using fit that node slice by (intro ra.charge_exact [OF wf slice_ok]) (auto simp: fits_def)
  ultimately have "ra_view (n_alloc_resources node') q = ra_view (n_alloc_resources node) q + job_charge job' n q" for q
    using node' by simp
  moreover have "ra_wf (n_alloc_resources node')" using node' wf slice_ok by (simp add: ra_wf_add)
  ultimately show "\<exists>node. hm_get nodes n = Some node \<and> ra_wf (n_alloc_resources node')
      \<and> (\<forall>q. ra_view (n_alloc_resources node') q + job_charge job n q
               = ra_view (n_alloc_resources node) q + job_charge job' n q)"
    using node free by simp
next
  fix n q
  assume "hm_get (allocate_job_slices (j_allocated_nodes job') resources (j_per_node_alloc job') nodes) n = None"
  then show "hm_get nodes n = None \<and> job_charge job' n q \<le> job_charge job n q"
    using fit by (auto simp: fits_def job_charge_def holds_charge_def is_held_on_def)
qed

text \<open>Changes of nodes that leave their allocations alone.\<close>

lemma balanced_nodes:
  assumes "balanced jobs nodes" and "hm_wf nodes'"
    and "\<And>n node'. hm_get nodes' n = Some node' \<Longrightarrow>
      \<exists>node. hm_get nodes n = Some node \<and> n_alloc_resources node' = n_alloc_resources node"
    and "\<And>n. hm_get nodes' n = None \<Longrightarrow> hm_get nodes n = None"
  shows "balanced jobs nodes'"
proof -
  have "node_ok jobs n node'" if get: "hm_get nodes' n = Some node'" for n node'
    using assms(1) assms(3) [OF get] by (auto simp: balanced_def node_ok_def)
  then show ?thesis using assms(1,2,4) by (simp add: balanced_def)
qed

lemma balanced_modify_node:
  assumes "balanced jobs nodes" and "\<And>node. n_alloc_resources (f node) = n_alloc_resources node"
  shows "balanced jobs (hm_modify name f nodes)"
  using assms(1) by (intro balanced_nodes [OF assms(1)]) (auto simp: balanced_def hm_simps assms(2) split: if_splits)

text \<open>Changes of every job that leave their charges alone.\<close>

lemma hm_get_map_values: "hm_get (map (\<lambda>(k, v). (k, g v)) m) k = map_option g (hm_get m k)"
  by (induction m) auto

lemma hm_wf_map_values [simp]: "hm_wf (map (\<lambda>(k, v). (k, g v)) m) = hm_wf m"
  by (simp add: hm_wf_def comp_def case_prod_unfold)

lemma balanced_map_jobs:
  assumes "balanced jobs nodes" and "\<And>job. placement (g job) = placement job" and "\<And>job. j_state (g job) = j_state job"
  shows "balanced (map (\<lambda>(i, job). (i, g job)) jobs) nodes"
proof -
  have "charged (map (\<lambda>(i, job). (i, g job)) jobs) n q = charged jobs n q" for n q
    unfolding charged_def using hm_sum_map_values [of "\<lambda>_ job. job_charge job n q" "\<lambda>_. g" jobs]
      placement_charge [OF assms(2)] assms(3) by simp
  moreover have "job_ok (g job)" if "job_ok job" for job
    using placement_ok [OF assms(2) that] that by (simp add: assms(3) job_ok_def)
  ultimately show ?thesis
    using assms(1) by (auto simp: balanced_def node_ok_def hm_get_map_values)
qed

end
