(* ===== verification/Charge_Ops.thy ===== *)
theory Charge_Ops
  imports Charge
begin

text \<open>
  Every operation of the log keeps the balance of \<^verbatim>\<open>Charge\<close>: one lemma per arm of
  \<^verbatim>\<open>apply_operation\<close>, under the condition its proposer establishes.
\<close>

abbreviation bal :: "cluster \<Rightarrow> bool" where
  "bal s \<equiv> balanced (c_jobs s) (c_nodes s)"

section \<open>Parts of the state an operation leaves alone\<close>

lemma put_job_fields [simp]:
  "c_jobs (put_job i job s) = hm_insert i job (c_jobs s)" "c_nodes (put_job i job s) = c_nodes s"
  by (simp_all add: put_job_def)

lemma record_preempt_freed_nodes_fields [simp]:
  "c_jobs (record_preempt_freed_nodes ns p s) = c_jobs s" "c_nodes (record_preempt_freed_nodes ns p s) = c_nodes s"
  by (simp_all add: record_preempt_freed_nodes_def Let_def)

lemma complete_job_steps_fields [simp]:
  "c_jobs (complete_job_steps i c t s) = c_jobs s" "c_nodes (complete_job_steps i c t s) = c_nodes s"
  by (simp_all add: complete_job_steps_def)

lemma placement_update [simp]:
  "placement (job\<lparr>j_start_time := a\<rparr>) = placement job"
  "placement (job\<lparr>j_end_time := b\<rparr>) = placement job"
  "placement (job\<lparr>j_exit_code := c\<rparr>) = placement job"
  "placement (job\<lparr>j_priority := d\<rparr>) = placement job"
  "placement (job\<lparr>j_run_attempt := e\<rparr>) = placement job"
  "placement (job\<lparr>j_preempted_by := f\<rparr>) = placement job"
  "placement (job\<lparr>j_preempt_mode := g\<rparr>) = placement job"
  "placement (job\<lparr>j_preempt_qos := h\<rparr>) = placement job"
  "placement (job\<lparr>j_preempt_pending := k\<rparr>) = placement job"
  "placement (job\<lparr>j_cancel_signaled_at := l\<rparr>) = placement job"
  "placement (job\<lparr>j_time_limit_signaled_at := m\<rparr>) = placement job"
  "placement (job\<lparr>j_cancelled_by := n\<rparr>) = placement job"
  "placement (job\<lparr>j_suspended_at := p\<rparr>) = placement job"
  "placement (job\<lparr>j_suspended_by := q\<rparr>) = placement job"
  "placement (job\<lparr>j_requeue_count := r\<rparr>) = placement job"
  "placement (job\<lparr>j_spec := t\<rparr>) = placement job"
  "placement (job\<lparr>j_exit_signal := u\<rparr>) = placement job"
  "placement (job\<lparr>j_unreported_nodes := v\<rparr>) = placement job"
  "placement (job\<lparr>j_launch_failure_detail := w\<rparr>) = placement job"
  "placement (job\<lparr>j_derived_exit_code := x\<rparr>) = placement job"
  "placement (job\<lparr>j_node_failure := y\<rparr>) = placement job"
  "placement (job\<lparr>j_state := z\<rparr>) = placement job"
  by (simp_all add: placement_def)

lemma balanced_modify_job:
  assumes "balanced jobs nodes" and "\<And>job. placement (f job) = placement job" and "\<And>job. j_state (f job) = j_state job"
  shows "balanced (hm_modify i f jobs) nodes"
proof (cases "hm_get jobs i")
  case (Some job)
  then show ?thesis
    using assms(1) balanced_keep [OF assms(1) Some, of "f job"] balanced_jobD [OF assms(1) Some]
    by (simp add: hm_modify_def assms(2,3) job_ok_def)
qed (use assms(1) in \<open>simp add: hm_modify_def\<close>)

lemma cleared_update: "cleared job \<Longrightarrow> cleared (set_reason r d job)" "cleared job \<Longrightarrow> cleared (set_begin_time t job)"
  "cleared job \<Longrightarrow> cleared (set_pending_reason r job)" "cleared job \<Longrightarrow> cleared (job\<lparr>j_priority := p\<rparr>)"
  "cleared job \<Longrightarrow> cleared (job\<lparr>j_run_attempt := e\<rparr>)" "cleared job \<Longrightarrow> cleared (job\<lparr>j_preempted_by := f\<rparr>)"
  "cleared job \<Longrightarrow> cleared (job\<lparr>j_preempt_mode := g\<rparr>)" "cleared job \<Longrightarrow> cleared (job\<lparr>j_preempt_qos := h\<rparr>)"
  "cleared job \<Longrightarrow> cleared (set_pending_reason_desc r de job)"
  by (auto elim: placement_cleared [rotated] simp: placement_simps)

section \<open>Jobs in the queue\<close>

lemma bal_job_submit:
  assumes "bal s" and "hm_get (c_jobs s) i = None"
  shows "bal (fst (apply_job_submit now i spec s))"
  using assms
  by (auto simp: apply_job_submit_def Let_def job_new_def cleared_def intro!: balanced_new split: option.split)

lemma enter_pending_cleared: "cleared (enter_pending cap p job) \<and> j_state (enter_pending cap p job) = j_state job"
  by (auto simp: enter_pending_def Let_def cleared_update split: option.split)

lemma apply_transition_Applied:
  "apply_transition now to job = Inr (Applied, job') \<Longrightarrow>
     placement job' = placement job \<and> j_state job' = to \<and> valid_transition (j_state job) to"
  by (auto simp: apply_transition_def dest: transition_Inr split: if_splits sum.splits)

lemma to_Running_charging: "valid_transition st Running \<Longrightarrow> charging st"
  by (cases st) (simp_all add: charging_def)

lemma to_Pending_not_charging: "valid_transition st Pending \<Longrightarrow> \<not> charging st"
  by (cases st) (simp_all add: charging_def)

lemma bal_job_state_change:
  assumes "bal s" and "sc_new_state p \<in> {Running, Pending}"
  shows "bal (fst (apply_job_state_change cfg now ts p s))"
proof (cases "hm_get (c_jobs s) (sc_job_id p)")
  case (Some job)
  have "bal (put_job (sc_job_id p) (enter_pending cap p job1) s)"
    if "apply_transition now Pending job = Inr (Applied, job1)" for job1 cap
    using apply_transition_Applied [OF that] to_Pending_not_charging enter_pending_cleared [of cap p job1]
    by (auto intro!: balanced_repend [OF assms(1) Some])
  moreover have "bal (put_job (sc_job_id p) (job1\<lparr>j_start_time := t\<rparr>) s)"
    if "apply_transition now Running job = Inr (Applied, job1)" for job1 t
    using apply_transition_Applied [OF that] to_Running_charging
    by (auto simp: charging_def intro!: balanced_keep [OF assms(1) Some])
  ultimately show ?thesis
    using assms Some by (auto simp: apply_job_state_change_def split: sum.split transition_outcome.split)
qed (use assms in \<open>simp add: apply_job_state_change_def\<close>)

lemma back_off_cleared: "cleared (back_off b sp mx job) \<and> j_state (back_off b sp mx job) = j_state job"
  by (simp add: back_off_def cleared_update)

lemma bal_job_dispatch_backoff:
  assumes "bal s"
  shows "bal (fst (apply_job_dispatch_backoff i b sp r mx s))"
proof (cases "hm_get (c_jobs s) i")
  case (Some job)
  let ?job' = "(back_off b sp mx job)\<lparr>j_run_attempt := max r (j_run_attempt (back_off b sp mx job))\<rparr>"
  have "cleared ?job'" using back_off_cleared [of b sp mx job] by (simp add: cleared_update)
  then have "balanced (hm_insert i ?job' (c_jobs s)) (free_job job [] (c_nodes s))" if "j_state job = Pending"
    using that back_off_cleared [of b sp mx job]
    by (intro balanced_free_pending [OF assms Some that]) (simp_all add: cleared_job_ok cleared_charge)
  then show ?thesis using assms Some by (simp add: apply_job_dispatch_backoff_def Let_def)
qed (use assms in \<open>simp add: apply_job_dispatch_backoff_def\<close>)

lemma bal_job_priority_change:
  assumes "bal s"
  shows "bal (fst (apply_job_priority_change p s))"
proof (cases "hm_get (c_jobs s) (pc_job_id p)")
  case (Some job)
  define tail where "tail job1 =
     (let job2 = (case pc_run_attempt p of None \<Rightarrow> job1 | Some ra \<Rightarrow> job1\<lparr>j_run_attempt := max ra (j_run_attempt job1)\<rparr>);
          job3 = (if pc_reset_requeue_count p then job2\<lparr>j_requeue_count := 0\<rparr> else job2)
      in if pc_clear_reservation p then job3\<lparr>j_spec := (j_spec job3)\<lparr>js_reservation := None\<rparr>\<rparr> else job3)" for job1 :: job
  have tail: "placement (tail j) = placement j \<and> j_state (tail j) = j_state j" for j
    by (simp add: tail_def Let_def split: option.split)
  let ?job0 = "job\<lparr>j_priority := pc_new_priority p\<rparr>"
  have keep: "bal (put_job (pc_job_id p) (tail j) s)" if "placement j = placement job" "j_state j = j_state job" for j
    using that tail [of j] balanced_jobD [OF assms Some] by (auto simp: job_ok_def intro!: balanced_keep [OF assms Some])
  have free: "balanced (hm_insert (pc_job_id p) (tail j) (c_jobs s)) (free_job ?job0 [] (c_nodes s))"
    if "cleared j" "j_state j = j_state job" "j_state job = Pending" for j
  proof -
    have "cleared (tail j)" using tail [of j] that placement_cleared by blast
    then have "balanced (hm_insert (pc_job_id p) (tail j) (c_jobs s)) (free_job job [] (c_nodes s))"
      using that tail [of j]
      by (intro balanced_free_pending [OF assms Some]) (simp_all add: cleared_job_ok cleared_charge)
    then show ?thesis by simp
  qed
  show ?thesis
  proof (cases "pc_pending_reason p")
    case None
    then show ?thesis
      using Some keep [of ?job0] by (simp add: apply_job_priority_change_def tail_def Let_def)
  next
    case (Some r)
    show ?thesis
    proof (cases "hold_releases p r ?job0")
      case True
      then have pending: "j_state job = Pending" by (simp add: hold_releases_def)
      let ?job1 = "?job0\<lparr>j_allocated_nodes := [], j_allocated_resources := None, j_per_node_alloc := []\<rparr>"
      have "j_node_completions job = []"
        using balanced_jobD [OF assms \<open>hm_get (c_jobs s) (pc_job_id p) = Some job\<close>] pending by (simp add: job_ok_def)
      then have "cleared ?job1" by (simp add: cleared_def)
      then have "cleared (set_reason r (pc_pending_reason_desc p) ?job1)" by (rule cleared_update)
      then show ?thesis
        using \<open>hm_get (c_jobs s) (pc_job_id p) = Some job\<close> Some True pending
          free [of "set_reason r (pc_pending_reason_desc p) ?job1"]
        by (simp add: apply_job_priority_change_def tail_def Let_def)
    next
      case False
      then show ?thesis
        using \<open>hm_get (c_jobs s) (pc_job_id p) = Some job\<close> Some keep [of "set_reason r (pc_pending_reason_desc p) ?job0"]
        by (simp add: apply_job_priority_change_def tail_def Let_def)
    qed
  qed
qed (use assms in \<open>simp add: apply_job_priority_change_def\<close>)

section \<open>Preemption and requeueing\<close>

lemma repend_Running:
  assumes "j_state job = Running"
  obtains job' fin where "repend_after_preemption now b pb q at job = (job', Some fin)" "cleared job'" "j_state job' = Pending"
    and "jf_exit_code fin = -1"
  using assms
  by (auto simp: repend_after_preemption_def transition_def Let_def is_terminal_def for_job_with_elapsed_def
      case_prod_unfold cleared_update)

lemma bal_job_preempt_requeue:
  assumes "bal s"
  shows "bal (fst (apply_job_preempt_requeue now ts p s))"
proof (cases "hm_get (c_jobs s) (pq_job_id p)")
  case (Some job)
  show ?thesis
  proof (cases "j_state job = Running")
    case True
    obtain job' fin where r: "repend_after_preemption now (pq_begin_time p) (pq_preempted_by p) (pq_preempt_qos p) ts job
        = (job', Some fin)" "cleared job'" "j_state job' = Pending"
      using repend_Running [OF True] by metis
    have "balanced (hm_insert (pq_job_id p) job' (c_jobs s)) (free_job job (hm_keys (j_node_completions job)) (c_nodes s))"
      using r True by (intro balanced_free [OF assms Some]) (simp_all add: charging_def cleared_job_ok cleared_charge)
    then show ?thesis
      using assms Some r True by (simp add: apply_job_preempt_requeue_def Let_def split: option.split)
  qed (use assms Some in \<open>simp add: apply_job_preempt_requeue_def\<close>)
qed (use assms in \<open>simp add: apply_job_preempt_requeue_def\<close>)

lemma repend_by_user_cleared:
  "cleared (repend_by_user h b who job) \<and> j_state (repend_by_user h b who job) = j_state job"
  by (simp add: repend_by_user_def Let_def cleared_update split: option.split)

lemma bal_job_user_requeue:
  assumes "bal s"
  shows "bal (fst (apply_job_user_requeue now ts i h b who s))"
proof (cases "hm_get (c_jobs s) i")
  case (Some job)
  let ?job1 = "end_suspension ts (job\<lparr>j_end_time := Some ts\<rparr>)"
  let ?re = "\<lambda>j. repend_by_user h b who (j\<lparr>j_state := Pending, j_end_time := None\<rparr>)"
  have p: "placement ?job1 = placement job" by simp
  have re: "cleared (?re j) \<and> j_state (?re j) = Pending" for j
    using repend_by_user_cleared [of h b who] by simp
  consider (live) "j_state job \<in> {Running, Suspended}" | (ended) "is_terminal (j_state job)" "j_state job \<notin> {Running, Suspended}"
    | (other) "\<not> is_terminal (j_state job)" "j_state job \<notin> {Running, Suspended}" by blast
  then show ?thesis
  proof cases
    case live
    have "balanced (hm_insert i (?re ?job1) (c_jobs s)) (free_job job (hm_keys (j_node_completions job)) (c_nodes s))"
      using live re [of ?job1] by (intro balanced_free [OF assms Some]) (auto simp: charging_def cleared_job_ok cleared_charge)
    moreover have "hm_keys (j_node_completions ?job1) = hm_keys (j_node_completions job)"
      using p by (simp add: placement_def)
    ultimately have "balanced (hm_insert i (?re ?job1) (c_jobs s))
        (free_job ?job1 (hm_keys (j_node_completions ?job1)) (c_nodes s))"
      using free_job_cong [OF p] by simp
    then show ?thesis using Some live by (auto simp: apply_job_user_requeue_def Let_def requeue_to_pending_def)
  next
    case ended
    then have "bal (put_job i (?re job) s)"
      using re [of job] terminal_not_charging by (auto intro!: balanced_repend [OF assms Some])
    then show ?thesis using Some ended by (simp add: apply_job_user_requeue_def requeue_to_pending_def)
  qed (use assms Some in \<open>auto simp: apply_job_user_requeue_def\<close>)
qed (use assms in \<open>simp add: apply_job_user_requeue_def\<close>)

lemma transition_valid:
  assumes "valid_transition (j_state job) to"
  obtains job' where "transition now to job = Inr job'" "placement job' = placement job" "j_state job' = to"
  using assms by (auto simp: transition_def Let_def)

lemma bal_job_preempt_cancel:
  assumes "bal s"
  shows "bal (fst (apply_job_preempt_cancel now ts i pb q at r s))"
proof (cases "hm_get (c_jobs s) i")
  case (Some job)
  show ?thesis
  proof (cases "j_state job = Running")
    case True
    define t where "t = (case at of None \<Rightarrow> ts | Some t \<Rightarrow> t)"
    obtain job1 where t1: "transition now Preempted job = Inr job1" "placement job1 = placement job" "j_state job1 = Preempted"
      using transition_valid [of job Preempted now] True by auto
    define job2 where "job2 = (end_suspension t (job1\<lparr>j_exit_code := Some (-1), j_end_time := Some t\<rparr>))\<lparr>
      j_preempted_by := pb, j_preempt_mode := Some ''Cancel'', j_preempt_qos := q,
      j_cancel_signaled_at := Some t, j_preempt_pending := None\<rparr>"
    have p: "placement job2 = placement job" "j_state job2 = Preempted" using t1 by (simp_all add: job2_def)
    obtain job3 where t3: "transition now Completing job2 = Inr job3" "placement job3 = placement job" "j_state job3 = Completing"
      using transition_valid [of job2 Completing now] p by auto
    obtain job4 where t4: "transition now Cancelled (job2\<lparr>j_node_completions := []\<rparr>) = Inr job4"
      "placement job4 = placement (job2\<lparr>j_node_completions := []\<rparr>)" "j_state job4 = Cancelled"
      using transition_valid [of "job2\<lparr>j_node_completions := []\<rparr>" Cancelled now] p by auto
    have completing: "bal (put_job i job3 s)"
      using True t3 by (auto simp: charging_def intro!: balanced_keep [OF assms Some])
    have cancelled: "bal (put_job i job4 s)" if "j_allocated_nodes job2 = []"
    proof -
      have ok: "job_ok job" using balanced_jobD [OF assms Some] .
      have "job_ok job4"
        by (rule ended_ok [OF _ _ _ _ ok]) (use p t4 in \<open>simp_all add: placement_def is_terminal_def\<close>)
      moreover have "j_allocated_nodes job = []" "j_allocated_nodes job4 = []"
        using that p t4 by (simp_all add: placement_def)
      ultimately show ?thesis by (auto intro!: balanced_same [OF assms Some] simp: free_charge)
    qed
    show ?thesis
      using assms completing cancelled
      unfolding apply_job_preempt_cancel_def t_def [symmetric] Some option.case t1(1) sum.case job2_def [symmetric] Let_def
        t3(1) t4(1)
      by (cases "j_allocated_nodes job2 = []") (auto simp: True deallocate_job_slices_def split: option.split)
  qed (use assms Some in \<open>simp add: apply_job_preempt_cancel_def Let_def\<close>)
qed (use assms in \<open>simp add: apply_job_preempt_cancel_def Let_def\<close>)

lemma bal_job_suspend:
  assumes "bal s"
  shows "bal (fst (apply_job_suspend now i at pb q who s))"
proof (cases "hm_get (c_jobs s) i")
  case (Some job)
  have same: "bal (put_job i job s)"
    using balanced_jobD [OF assms Some] by (auto simp: job_ok_def intro!: balanced_keep [OF assms Some])
  have step: "bal (put_job i job' s)"
    if "apply_transition now Suspended job = Inr (Applied, job1)" "placement job' = placement job1" "j_state job' = j_state job1"
    for job1 job'
  proof -
    have "charging (j_state job)"
      using apply_transition_Applied [OF that(1)] by (cases "j_state job") (simp_all add: charging_def)
    then show ?thesis
      using apply_transition_Applied [OF that(1)] that(2,3) by (auto simp: charging_def intro!: balanced_keep [OF assms Some])
  qed
  show ?thesis
    using Some same step
    by (auto simp: apply_job_suspend_def apply_suspend_def Let_def split: sum.split transition_outcome.split)
qed (use assms in \<open>simp add: apply_job_suspend_def\<close>)

lemma bal_job_resume:
  assumes "bal s"
  shows "bal (fst (apply_job_resume now i at s))"
proof (cases "hm_get (c_jobs s) i")
  case (Some job)
  have "bal (put_job i ((end_suspension at job1)\<lparr>j_preempted_by := None, j_preempt_mode := None,
                  j_preempt_qos := None, j_preempt_pending := None\<rparr>) s)"
    if "apply_transition now Running job = Inr (Applied, job1)" for job1
    using apply_transition_Applied [OF that] to_Running_charging
    by (auto simp: charging_def intro!: balanced_keep [OF assms Some])
  then show ?thesis
    using assms Some by (auto simp: apply_job_resume_def split: sum.split transition_outcome.split)
qed (use assms in \<open>simp add: apply_job_resume_def\<close>)

section \<open>Evictions\<close>

lemma evicted_state_terminal: "is_terminal (evicted_state job)" "evicted_state job \<in> {NodeFail, Timeout, Cancelled}"
  by (auto simp: evicted_state_def is_terminal_def)

lemma evicted_state_from: "valid_transition st (evicted_state job) \<Longrightarrow> st \<noteq> Preempted \<Longrightarrow> charging st"
  using evicted_state_terminal [of job] by (cases st) (auto simp: charging_def)

lemma active_can_be_evicted: "is_active st \<Longrightarrow> valid_transition st (evicted_state job)"
  using evicted_state_terminal(2) [of job] by (cases st) (auto simp: is_active_def)

lemma evicted_state_end_suspension [simp]: "evicted_state (end_suspension t job) = evicted_state job"
  by (cases "j_suspended_at job") (simp_all add: evicted_state_def end_suspension_def)

text \<open>What an eviction does to the tables, in its three cases.\<close>

lemma evict_job_locked_cases:
  obtains (unknown) "hm_get jobs i = None" "evict_job_locked now i ts r f jobs nodes = (jobs, nodes, None, None)"
  | (refused) job job' where "hm_get jobs i = Some job" "\<not> valid_transition (j_state job) (evicted_state job)"
      "placement job' = placement job" "j_state job' = j_state job"
      "evict_job_locked now i ts r f jobs nodes = (hm_insert i job' jobs, nodes, None, None)"
  | (evicted) job job' fin freed where "hm_get jobs i = Some job" "valid_transition (j_state job) (evicted_state job)"
      "placement (job'\<lparr>j_node_completions := c\<rparr>) = placement (job\<lparr>j_node_completions := c\<rparr>)" "j_node_completions job' = []"
      "j_state job' = evicted_state job"
      "evict_job_locked now i ts r f jobs nodes =
         (hm_insert i job' jobs, free_job job (hm_keys (j_node_completions job)) nodes, Some fin, freed)"
proof (cases "hm_get jobs i")
  case None
  then show ?thesis using unknown by (simp add: evict_job_locked_def)
next
  case (Some job)
  let ?job1 = "end_suspension ts job"
  show ?thesis
  proof (cases "transition now (evicted_state ?job1) ?job1")
    case (Inl e)
    then have "\<not> valid_transition (j_state job) (evicted_state job)"
      by (auto simp: transition_def Let_def split: if_splits)
    then show ?thesis using refused [of job ?job1] Some Inl by (simp add: evict_job_locked_def Let_def)
  next
    case (Inr job2)
    note t = transition_Inr [OF Inr]
    define job3 where "job3 = job2\<lparr>j_exit_code := Some (-1), j_end_time := Some ts, j_preempt_pending := None\<rparr>"
    define job4 where "job4 = (if evicted_state job = NodeFail then (set_pending_reason r job3)\<lparr>j_node_failure := f\<rparr>
                               else if evicted_state job = Timeout then set_pending_reason PR_TimeLimit job3
                               else job3)"
    have p: "placement job4 = placement job" "j_state job4 = evicted_state job"
      using t by (simp_all add: job4_def job3_def)
    let ?job5 = "job4\<lparr>j_node_completions := []\<rparr>"
    have "placement (?job5\<lparr>j_node_completions := c\<rparr>) = placement (job\<lparr>j_node_completions := c\<rparr>)"
      using p(1) by (simp add: placement_def)
    moreover have "hm_keys (j_node_completions job4) = hm_keys (j_node_completions job)" "free_job ?job5 = free_job job"
      using p(1) by (simp_all add: placement_def fun_eq_iff)
    moreover have "\<exists>fin freed. evict_job_locked now i ts r f jobs nodes =
        (hm_insert i ?job5 jobs, free_job ?job5 (hm_keys (j_node_completions job4)) nodes, Some fin, freed)"
      using Inr unfolding evict_job_locked_def Some option.case Let_def evicted_state_end_suspension job3_def job4_def by simp
    ultimately show ?thesis
      using evicted [of job ?job5] Some t p(2) by auto
  qed
qed

lemma balanced_evict_job:
  assumes "balanced jobs nodes" and "evict_job_locked now i ts r f jobs nodes = (jobs', nodes', fin, freed)"
  shows "balanced jobs' nodes'"
proof (cases rule: evict_job_locked_cases [of jobs i now ts r f nodes, where c = "[]", case_names unknown refused evicted])
  case unknown
  then show ?thesis using assms by simp
next
  case (refused job job')
  then show ?thesis
    using assms balanced_jobD [OF assms(1) refused(1)]
    by (auto simp: job_ok_def intro!: balanced_keep [OF assms(1) refused(1)])
next
  case (evicted job job' fin' freed')
  have ok: "job_ok job" using balanced_jobD [OF assms(1) evicted(1)] .
  have live: "charging (j_state job)" using evicted_state_from [OF evicted(2)] ok by (simp add: job_ok_def)
  have ended: "is_terminal (j_state job')" using evicted(5) evicted_state_terminal by simp
  have "job_ok job'"
    by (rule ended_ok [OF _ _ _ evicted(4) ok ended]) (use evicted(3) in \<open>simp_all add: placement_def\<close>)
  moreover have "job_charge job' n q = 0" for n q using ended_charge terminal_not_charging [OF ended] by blast
  ultimately have "balanced (hm_insert i job' jobs) (free_job job (hm_keys (j_node_completions job)) nodes)"
    by (intro balanced_free [OF assms(1) evicted(1) live] refl)
  then show ?thesis using assms(2) evicted(6) by simp
qed

lemma balanced_evict_all:
  "balanced jobs nodes \<Longrightarrow> evict_all now ts f ids jobs nodes = (jobs', nodes', fins, freeds) \<Longrightarrow> balanced jobs' nodes'"
proof (induction ids arbitrary: jobs nodes fins freeds)
  case (Cons i ids)
  obtain jobs1 nodes1 fin freed where e: "evict_job_locked now i ts PR_NodeDown (Some f) jobs nodes = (jobs1, nodes1, fin, freed)"
    by (metis prod_cases4)
  show ?case
    using Cons.prems(2) e Cons.IH [OF balanced_evict_job [OF Cons.prems(1) e]] by (auto split: prod.splits)
qed simp

lemma evict_stranded_state:
  "hm_get (fst (evict_stranded i t)) k = Some job' \<Longrightarrow>
     \<exists>job. hm_get (fst t) k = Some job \<and> j_state job' = j_state job"
  by (auto simp: evict_stranded_def hm_simps split: prod.splits option.splits if_splits)

lemma balanced_evict_stranded:
  assumes "balanced jobs nodes" and "\<And>job. hm_get jobs i = Some job \<Longrightarrow> j_state job = Pending"
  shows "balanced (fst (evict_stranded i (jobs, nodes))) (snd (evict_stranded i (jobs, nodes)))"
proof (cases "hm_get jobs i")
  case (Some job)
  let ?job' = "set_pending_reason PR_NodeDown (clear_run_state_for_requeue job)"
  have "cleared ?job'" by (simp add: cleared_update)
  then show ?thesis
    using Some assms(2) [OF Some] balanced_free_pending [OF assms(1) Some assms(2) [OF Some], of ?job']
    by (simp add: evict_stranded_def cleared_job_ok cleared_charge)
qed (use assms in \<open>simp add: evict_stranded_def\<close>)

lemma balanced_evict_stranded_all:
  assumes "balanced (fst t) (snd t)" and "\<And>i job. i \<in> set ids \<Longrightarrow> hm_get (fst t) i = Some job \<Longrightarrow> j_state job = Pending"
  shows "balanced (fst (foldl (\<lambda>t i. evict_stranded i t) t ids)) (snd (foldl (\<lambda>t i. evict_stranded i t) t ids))"
  using assms
proof (induction ids arbitrary: t)
  case (Cons i ids)
  have "balanced (fst (evict_stranded i t)) (snd (evict_stranded i t))"
    using balanced_evict_stranded [of "fst t" "snd t" i] Cons.prems by (metis list.set_intros(1) prod.collapse)
  moreover have "j_state job = Pending"
    if "k \<in> set ids" "hm_get (fst (evict_stranded i t)) k = Some job" for k job
    using evict_stranded_state [OF that(2)] Cons.prems(2) [of k] that(1) by fastforce
  ultimately show ?case using Cons.IH by simp
qed simp

lemma balanced_evict_jobs_on_node:
  assumes "balanced jobs nodes" and "evict_jobs_on_node now n f ts jobs nodes = (jobs', nodes', fins, freeds)"
  shows "balanced jobs' nodes'"
proof -
  define affected where "affected = map fst (filter (\<lambda>(_, j). j_state j \<in> {Running, Completing, Suspended} \<and> is_held_on j n) jobs)"
  obtain jobs1 nodes1 fins1 freeds1 where e: "evict_all now ts f affected jobs nodes = (jobs1, nodes1, fins1, freeds1)"
    by (metis prod_cases4)
  have b1: "balanced jobs1 nodes1" using balanced_evict_all [OF assms(1) e] .
  define stranded where "stranded = map fst (filter (\<lambda>(_, j). j_state j = Pending \<and> is_held_on j n) jobs1)"
  have "j_state job = Pending" if "i \<in> set stranded" "hm_get jobs1 i = Some job" for i job
    using that b1 by (auto simp: stranded_def balanced_def dest: hm_mem_get)
  then have "balanced (fst (foldl (\<lambda>t i. evict_stranded i t) (jobs1, nodes1) stranded))
      (snd (foldl (\<lambda>t i. evict_stranded i t) (jobs1, nodes1) stranded))"
    using balanced_evict_stranded_all [of "(jobs1, nodes1)" stranded] b1 by simp
  then show ?thesis
    using assms(2) e unfolding evict_jobs_on_node_def affected_def [symmetric] Let_def
    by (auto simp: stranded_def [symmetric] split: prod.splits)
qed

lemma fold_record_preempt_fields [simp]:
  "c_jobs (foldl (\<lambda>s (p, freed). record_preempt_freed_nodes freed p s) s freeds) = c_jobs s"
  "c_nodes (foldl (\<lambda>s (p, freed). record_preempt_freed_nodes freed p s) s freeds) = c_nodes s"
  by (induction freeds arbitrary: s) auto

lemma bal_evict_node: "bal s \<Longrightarrow> bal (fst (evict_node now n f ts s))"
  using balanced_evict_jobs_on_node by (fastforce simp: evict_node_def split: prod.splits)

lemma bal_job_evict:
  assumes "bal s"
  shows "bal (fst (apply_job_evict now ts i d s))"
proof -
  have "balanced (hm_modify i (\<lambda>job. job\<lparr>j_launch_failure_detail := d\<rparr>) (c_jobs s)) (c_nodes s)"
    using assms by (rule balanced_modify_job) simp_all
  then show ?thesis
    using balanced_evict_job by (fastforce simp: apply_job_evict_def Let_def split: prod.splits option.splits)
qed

section \<open>Runs\<close>

lemma all_reported_not_held:
  assumes "job_ok job" and "all_nodes_completed job"
  shows "\<not> is_held_on job n"
proof -
  let ?K = "set (hm_keys (j_node_completions job))" and ?A = "set (j_allocated_nodes job)"
  have "card ?K = length (hm_keys (j_node_completions job))" "card ?A = length (j_allocated_nodes job)"
    using assms(1) by (simp_all only: job_ok_def hm_wf_def distinct_card)
  then have "card ?K = card ?A" using assms(2) by (simp add: all_nodes_completed_def)
  then have "?K = ?A" using assms by (intro card_subset_eq) (simp_all add: job_ok_def)
  then show ?thesis by (simp add: held_iff del: set_map)
qed

lemma all_reported_charge: "job_ok job \<Longrightarrow> all_nodes_completed job \<Longrightarrow> job_charge job n q = 0"
  using all_reported_not_held by (simp add: job_charge_def holds_charge_def)

lemma verdict_terminal: "is_terminal (fst (completion_verdict job (fst (derived_completion cs p)) c g oom))"
  by (auto simp: completion_verdict_def derived_completion_def Let_def is_terminal_def split: option.split)

lemma finalize_reported_run_cases:
  obtains (refused) "fst (finalize_reported_run now at job) = job"
  | (finished) job' where "fst (finalize_reported_run now at job) = job'" "is_terminal (j_state job')"
      "j_node_completions job' = []" "j_allocated_nodes job' = j_allocated_nodes job"
      "j_allocated_resources job' = j_allocated_resources job" "j_per_node_alloc job' = j_per_node_alloc job"
proof -
  obtain st c g where d: "derived_completion (j_node_completions job) (case j_allocated_nodes job of [] \<Rightarrow> [] | n # _ \<Rightarrow> n) = (st, c, g)"
    by (metis prod_cases3)
  obtain st' r where v: "completion_verdict job st c (g AND NOT oom_signal_flag) (reported_oom job) = (st', r)"
    by (metis surj_pair)
  have ended: "is_terminal st'"
    using verdict_terminal [of job "j_node_completions job" "case j_allocated_nodes job of [] \<Rightarrow> [] | n # _ \<Rightarrow> n" c
        "g AND NOT oom_signal_flag" "reported_oom job"] d v by simp
  show ?thesis
  proof (cases "transition now st' job")
    case (Inl e)
    then show ?thesis using refused d v by (simp add: finalize_reported_run_def)
  next
    case (Inr job1)
    have p: "placement (set_pending_reason r (job1\<lparr>j_exit_code := Some c, j_exit_signal := g AND NOT oom_signal_flag\<rparr>)) = placement job"
      "j_state (set_pending_reason r (job1\<lparr>j_exit_code := Some c, j_exit_signal := g AND NOT oom_signal_flag\<rparr>)) = st'"
      using transition_Inr [OF Inr] by simp_all
    show ?thesis
      by (rule finished [OF refl]) (use d v Inr p ended in \<open>simp_all add: finalize_reported_run_def Let_def placement_def\<close>)
  qed
qed

text \<open>The job may be replaced by another with the same charge: a record of what moves need.\<close>

definition same_charge :: "job \<Rightarrow> job \<Rightarrow> bool" where
  "same_charge job job' = (job_ok job' \<and> (\<forall>n q. job_charge job' n q = job_charge job n q))"

lemma same_charge_keep:
  assumes "job_ok job" and "placement job' = placement job" and "charging (j_state job') = charging (j_state job)"
    and "j_state job' \<noteq> Preempted" and "j_state job' = Pending \<Longrightarrow> j_state job = Pending"
  shows "same_charge job job'"
  using placement_ok [OF assms(2,1,4,5)] placement_charge [OF assms(2,3)] by (simp add: same_charge_def)

lemma same_charge_trans: "same_charge job job' \<Longrightarrow> same_charge job' job'' \<Longrightarrow> same_charge job job''"
  by (simp add: same_charge_def)

lemma same_charge_finalize:
  assumes "job_ok job" and "all_nodes_completed job"
  shows "same_charge job (fst (finalize_reported_run now at job))"
proof (cases rule: finalize_reported_run_cases [of now at job, case_names refused finished])
  case refused
  then show ?thesis using assms by (simp add: same_charge_def)
next
  case (finished job')
  have "job_ok job'" by (rule ended_ok [OF finished(4,5,6,3) assms(1) finished(2)])
  then show ?thesis
    using finished(1) ended_charge terminal_not_charging [OF finished(2)] all_reported_charge [OF assms]
    by (simp add: same_charge_def)
qed

lemma same_charge_advance:
  assumes ok: "job_ok job" and act: "is_active (j_state job)" and grace: "grace \<noteq> None \<Longrightarrow> j_state job = Running"
  shows "same_charge job (fst (advance_after_node_report now grace at job))"
proof -
  define stop where "stop j = (if j_state j \<in> {Running, Suspended} then
      (end_suspension at (case transition now Completing j of Inl _ \<Rightarrow> j | Inr j' \<Rightarrow> j'))\<lparr>j_end_time := Some at\<rparr> else j)" for j :: job
  have stop: "same_charge job (stop j) \<and> placement (stop j) = placement job"
    if p: "placement j = placement job" and st: "j_state j = j_state job" for j
  proof -
    have "placement (stop j) = placement job \<and> is_active (j_state (stop j))"
    proof (cases "j_state j \<in> {Running, Suspended}")
      case True
      then have "valid_transition (j_state j) Completing" by auto
      then obtain j' where "transition now Completing j = Inr j'" "placement j' = placement j" "j_state j' = Completing"
        using transition_valid by metis
      then show ?thesis using True p by (simp add: stop_def is_active_def)
    qed (use p st act in \<open>simp add: stop_def\<close>)
    then show ?thesis
      using act by (auto intro!: same_charge_keep [OF ok] simp: charging_cases is_active_def)
  qed
  have whole: "all_nodes_completed (stop j) = all_nodes_completed job" if "placement (stop j) = placement job" for j
    using that by (simp add: all_nodes_completed_def placement_def)
  have finish: "same_charge job (fst (if \<not> all_nodes_completed job then (stop j, None) else finalize_reported_run now at (stop j)))"
    if p: "placement j = placement job" and st: "j_state j = j_state job" for j
    using stop [OF p st] whole [of j] same_charge_finalize [of "stop j" now at] same_charge_trans
    by (auto simp: same_charge_def)
  have repend: "same_charge job (fst (repend_after_preemption now b pb q at job))"
    if run: "j_state job = Running" and reported: "all_nodes_completed job" for b pb q
  proof -
    obtain job' fin where r: "repend_after_preemption now b pb q at job = (job', Some fin)" "cleared job'" "j_state job' = Pending"
      using repend_Running [OF run] by metis
    then show ?thesis
      using all_reported_charge [OF ok reported] by (simp add: same_charge_def cleared_job_ok cleared_charge)
  qed
  have same: "same_charge job job" using ok by (simp add: same_charge_def)
  show ?thesis
    unfolding advance_after_node_report_def Let_def stop_def [symmetric]
    using finish [of job] finish [of "adopt_grace_provenance at job"] repend same grace
    by (auto split: option.split)
qed

lemma bal_job_node_complete:
  assumes "bal s" and "\<And>job. hm_get (c_jobs s) i = Some job \<Longrightarrow> is_active (j_state job) \<Longrightarrow> name \<in> set (j_allocated_nodes job)"
  shows "bal (fst (apply_job_node_complete now ts i name c g r s))"
proof (cases "hm_get (c_jobs s) i")
  case (Some job)
  show ?thesis
  proof (cases "is_active (j_state job)")
    case True
    let ?nc = "\<lparr>nc_code = c, nc_signal = g\<rparr>"
    define grace where "grace = (if j_state job = Running then preempt_grace job else None)"
    have ok: "job_ok (record_report name ?nc job)"
      using record_report_ok balanced_jobD [OF assms(1) Some] assms(2) [OF Some True] True by (auto simp: is_active_def)
    have "same_charge (record_report name ?nc job) (fst (advance_after_node_report now grace ts (record_report name ?nc job)))"
      using True by (intro same_charge_advance [OF ok]) (auto simp: grace_def split: if_splits)
    then have "balanced (hm_insert i (fst (advance_after_node_report now grace ts (record_report name ?nc job))) (c_jobs s))
        (release_reported_node job name (c_nodes s))"
      by (intro balanced_report [OF assms(1) Some True assms(2) [OF Some True], where c = ?nc]) (simp_all add: same_charge_def)
    then show ?thesis
      using assms(1) True
      unfolding record_report_def apply_job_node_complete_def Some option.case grace_def [symmetric] Let_def case_prod_unfold
      by (simp split: option.split)
  qed (use assms Some in \<open>simp add: apply_job_node_complete_def\<close>)
qed (use assms in \<open>simp add: apply_job_node_complete_def\<close>)

text \<open>
  A start is admissible for a queued job, onto distinct nodes, with slices that are hash maps and
  sums that stay within the counters.
\<close>

definition start_ok :: "job_start \<Rightarrow> cluster \<Rightarrow> bool" where
  "start_ok p s =
     ((case hm_get (c_jobs s) (sr_job_id p) of None \<Rightarrow> False | Some job \<Rightarrow> j_state job = Pending)
      \<and> distinct (sr_nodes p) \<and> (\<forall>n. ra_ok (slice_for (sr_per_node_alloc p) (sr_resources p) (sr_nodes p) n))
      \<and> fits (c_nodes s) (sr_nodes p) (sr_resources p) (sr_per_node_alloc p))"

lemma start_run_fields [simp]:
  "j_state (start_run p job) = j_state job" "j_allocated_nodes (start_run p job) = sr_nodes p"
  "j_allocated_resources (start_run p job) = Some (sr_resources p)"
  "j_per_node_alloc (start_run p job) = sr_per_node_alloc p"
  "j_node_completions (start_run p job) = j_node_completions job"
  by (simp_all add: start_run_def set_pending_reason_def drop_stale_detail_def)

lemma pending_unplaced_charge:
  assumes "j_node_completions job = []" and "\<not> holds_a_placement job"
  shows "job_charge job n q = 0"
  using assms by (auto simp: holds_a_placement_def list_ex_iff job_charge_def holds_charge_def is_held_on_def)

lemma bal_job_start:
  assumes "bal s" and "start_ok p s"
  shows "bal (fst (apply_job_start p s))"
proof -
  obtain job where job: "hm_get (c_jobs s) (sr_job_id p) = Some job" "j_state job = Pending"
    using assms(2) by (auto simp: start_ok_def split: option.splits)
  have ok: "job_ok job" using balanced_jobD [OF assms(1) job(1)] .
  then have nc: "j_node_completions job = []" using job(2) by (simp add: job_ok_def)
  have slice: "job_slice (start_run p job) n = slice_for (sr_per_node_alloc p) (sr_resources p) (sr_nodes p) n" for n
    by (simp add: job_slice_def)
  have ok': "job_ok (start_run p job)"
    using assms(2) nc job(2) by (simp add: job_ok_def start_ok_def slice)
  have "balanced (hm_insert (sr_job_id p) (start_run p job) (c_jobs s))
      (allocate_job_slices (sr_nodes p) (sr_resources p) (sr_per_node_alloc p) (c_nodes s))" if "\<not> holds_a_placement job"
    using balanced_take [OF assms(1) job(1) pending_unplaced_charge [OF nc that] ok'] job(2) nc assms(2)
    by (simp add: charging_def start_ok_def)
  then show ?thesis using assms(1) job by (simp add: apply_job_start_def Let_def)
qed

lemma bal_put_same_placement:
  assumes "bal s" and "hm_get (c_jobs s) i = Some job" and "placement job' = placement job" and "j_state job' = j_state job"
  shows "balanced (hm_insert i job' (c_jobs s)) (c_nodes s)"
  using assms balanced_jobD [OF assms(1,2)] by (auto simp: job_ok_def intro!: balanced_keep [OF assms(1,2)])

lemma begin_completing_same:
  "placement (fst (begin_completing now at job)) = placement job
   \<and> (j_state (fst (begin_completing now at job)) = j_state job
      \<or> j_state job \<in> {Running, Suspended} \<and> j_state (fst (begin_completing now at job)) = Completing)"
  by (auto simp: begin_completing_def dest: transition_Inr split: sum.split)

lemma bal_begin_completing:
  assumes "bal s" and "hm_get (c_jobs s) i = Some job" and "placement job' = placement job" and "j_state job' = j_state job"
    and "is_active (j_state job)"
  shows "bal (put_job i (fst (begin_completing now at job')) s)"
  using assms begin_completing_same [of now at job']
  by (auto simp: charging_def is_active_def intro!: balanced_keep [OF assms(1,2)])

lemma bal_job_cancel_signaled:
  assumes "bal s"
  shows "bal (fst (apply_job_cancel_signaled now i at c s))"
proof (cases "hm_get (c_jobs s) i")
  case (Some job)
  then show ?thesis
    using assms bal_begin_completing [OF assms Some] by (simp add: apply_job_cancel_signaled_def Let_def)
qed (use assms in \<open>simp add: apply_job_cancel_signaled_def\<close>)

lemma bal_job_time_limit_expired:
  assumes "bal s"
  shows "bal (fst (apply_job_time_limit_expired now i r at s))"
proof (cases "hm_get (c_jobs s) i")
  case (Some job)
  then show ?thesis
    using assms bal_begin_completing [OF assms Some] by (auto simp: apply_job_time_limit_expired_def Let_def is_active_def)
qed (use assms in \<open>simp add: apply_job_time_limit_expired_def\<close>)

lemma bal_job_time_limit_signaled: "bal s \<Longrightarrow> bal (fst (apply_job_time_limit_signaled i at s))"
  by (simp add: apply_job_time_limit_signaled_def balanced_modify_job)

lemma bal_job_launch_failure_detail: "bal s \<Longrightarrow> bal (fst (apply_job_launch_failure_detail i d s))"
  by (simp add: apply_job_launch_failure_detail_def balanced_modify_job)

lemma bal_job_preempt_signaled: "bal s \<Longrightarrow> bal (fst (apply_job_preempt_signaled i pending s))"
  by (auto simp: apply_job_preempt_signaled_def intro: bal_put_same_placement split: option.split)

lemma bal_job_exclude_update: "bal s \<Longrightarrow> bal (fst (apply_job_exclude_update i e s))"
  by (auto simp: apply_job_exclude_update_def intro: bal_put_same_placement split: option.split)

lemma bal_job_step_complete: "bal s \<Longrightarrow> bal (fst (apply_job_step_complete ts i st c s))"
  by (auto simp: apply_job_step_complete_def Let_def balanced_modify_job split: option.split)

lemma bal_job_step_create: "bal s \<Longrightarrow> bal (fst (apply_job_step_create st s))"
  by (auto simp: apply_job_step_create_def Let_def split: option.split)

section \<open>Completion entries\<close>

lemma terminal_from_charging: "is_terminal to \<Longrightarrow> valid_transition st to \<Longrightarrow> st \<noteq> Preempted \<Longrightarrow> charging st"
  by (cases st; cases to) (simp_all add: charging_def is_terminal_def)

lemma complete_run_Inr:
  assumes "complete_run now ts p st job = Inr (job', fins)"
  shows "j_allocated_nodes job' = j_allocated_nodes job \<and> j_allocated_resources job' = j_allocated_resources job
     \<and> j_per_node_alloc job' = j_per_node_alloc job \<and> j_node_completions job' = [] \<and> j_state job' = st
     \<and> valid_transition (j_state job) st"
proof (cases "transition now st job")
  case (Inr job1)
  note t = transition_Inr [OF Inr]
  define job2 where "job2 = job1\<lparr>j_preempt_pending := None, j_unreported_nodes := jc_unreported_nodes p,
      j_cancelled_by := (if st = Cancelled \<and> j_cancelled_by job1 = None then jc_cancel p else j_cancelled_by job1),
      j_exit_code := Some (jc_exit_code p), j_end_time := Some ts\<rparr>"
  define job3 where "job3 = end_suspension ts (if st = Timeout then set_pending_reason PR_TimeLimit job2
      else if st = OutOfMemory then set_pending_reason PR_OutOfMemory job2 else job2)"
  have "placement job3 = placement job" "j_state job3 = st" using t by (simp_all add: job3_def job2_def)
  moreover have "job' = job3\<lparr>j_node_completions := []\<rparr>"
    using assms Inr unfolding complete_run_def job3_def job2_def by (simp add: Let_def)
  ultimately show ?thesis using t by (simp add: placement_def)
qed (use assms in \<open>simp add: complete_run_def\<close>)

lemma complete_run_Inl: "complete_run now ts p st job = Inl job' \<Longrightarrow> job' = job"
  by (auto simp: complete_run_def Let_def split: sum.splits)

text \<open>What a completion entry does to the tables, in its four cases.\<close>

lemma apply_job_complete_cases:
  obtains (unchanged) "c_jobs (fst (apply_job_complete now ts p s)) = c_jobs s"
      "c_nodes (fst (apply_job_complete now ts p s)) = c_nodes s"
  | (refused) job job1 where "hm_get (c_jobs s) (jc_job_id p) = Some job" "job1 \<in> {job, adopt_grace_provenance ts job}"
      "c_jobs (fst (apply_job_complete now ts p s)) = hm_insert (jc_job_id p) job1 (c_jobs s)"
      "c_nodes (fst (apply_job_complete now ts p s)) = c_nodes s"
  | (repended) job job1 job2 fin bt pb q where "hm_get (c_jobs s) (jc_job_id p) = Some job" "j_state job = Running"
      "job1 \<in> {job, adopt_grace_provenance ts job}" "repend_after_preemption now bt pb q ts job1 = (job2, Some fin)"
      "c_jobs (fst (apply_job_complete now ts p s)) = hm_insert (jc_job_id p) job2 (c_jobs s)"
      "c_nodes (fst (apply_job_complete now ts p s)) = free_job job1 (hm_keys (j_node_completions job1)) (c_nodes s)"
  | (ended) job job1 job2 fins st where "hm_get (c_jobs s) (jc_job_id p) = Some job" "\<not> is_terminal (j_state job)"
      "job1 \<in> {job, adopt_grace_provenance ts job}" "complete_run now ts p st job1 = Inr (job2, fins)" "st \<in> {jc_state p, Cancelled}"
      "c_jobs (fst (apply_job_complete now ts p s)) = hm_insert (jc_job_id p) job2 (c_jobs s)"
      "c_nodes (fst (apply_job_complete now ts p s)) = free_job job1 (hm_keys (j_node_completions job1)) (c_nodes s)"
proof (cases "hm_get (c_jobs s) (jc_job_id p)")
  case (Some job)
  define warned where "warned = (if j_state job = Running \<and> jc_cancel p = None then preempt_grace job else None)"
  define grace where "grace = (if jc_state p \<noteq> OutOfMemory then if \<not> jc_controller_initiated p then warned else None else None)"
  define job1 where "job1 = (if grace \<noteq> None then adopt_grace_provenance ts job else job)"
  define st where "st = (case grace of Some g \<Rightarrow> if pp_mode g = PmCancel then Cancelled else jc_state p | None \<Rightarrow> jc_state p)"
  define outcome where "outcome = (case grace of
      Some g \<Rightarrow>
        if pp_mode g = PmRequeue then
          (case repend_after_preemption now (preempt_hold_until job1 ts (pp_requeue_hold_secs g))
                  (Some (pp_preempted_by g)) (pp_preempt_qos g) ts job1 of
             (job2, None) \<Rightarrow> Inl job2
           | (job2, Some fin) \<Rightarrow> Inr (job2, [fin]))
        else complete_run now ts p st job1
    | None \<Rightarrow> complete_run now ts p st job1)"
  define blocked where "blocked = (is_finalized (j_state job) \<and> \<not> (j_state job = Preempted \<and> jc_state p = Cancelled))"
  have j1: "job1 \<in> {job, adopt_grace_provenance ts job}" and st: "st \<in> {jc_state p, Cancelled}"
    by (auto simp: job1_def st_def split: option.split)
  have eq: "fst (apply_job_complete now ts p s) = s" if blocked
    using that Some unfolding blocked_def by (simp add: apply_job_complete_def)
  have tables: "c_jobs (fst (apply_job_complete now ts p s)) =
        hm_insert (jc_job_id p) (case outcome of Inl j \<Rightarrow> j | Inr (j, _) \<Rightarrow> j) (c_jobs s)"
      "c_nodes (fst (apply_job_complete now ts p s)) =
        (case outcome of Inl _ \<Rightarrow> c_nodes s | Inr _ \<Rightarrow> free_job job1 (hm_keys (j_node_completions job1)) (c_nodes s))"
    if "\<not> blocked"
    using that unfolding apply_job_complete_def Some option.case Let_def warned_def [symmetric] grace_def [symmetric]
      job1_def [symmetric] st_def [symmetric] outcome_def [symmetric] blocked_def
    by (auto split: sum.split option.split)
  have open': "\<not> is_terminal (j_state job)" if "\<not> blocked"
    using that by (cases "j_state job") (auto simp: blocked_def is_finalized_def is_terminal_def)
  show ?thesis
  proof (cases blocked)
    case False
    note tb = tables [OF False]
    show ?thesis
    proof (cases "\<exists>g. grace = Some g \<and> pp_mode g = PmRequeue")
      case True
      then obtain g where g: "grace = Some g" "pp_mode g = PmRequeue" by blast
      have r: "j_state job = Running" "j_state job1 = Running"
        using g by (auto simp: grace_def warned_def job1_def split: if_splits)
      obtain job' fin where "repend_after_preemption now (preempt_hold_until job1 ts (pp_requeue_hold_secs g))
          (Some (pp_preempted_by g)) (pp_preempt_qos g) ts job1 = (job', Some fin)"
        using repend_Running [OF r(2)] by metis
      then show ?thesis using repended [OF Some r(1) j1] tb g by (simp add: outcome_def)
    next
      case run: False
      then have o: "outcome = complete_run now ts p st job1" by (auto simp: outcome_def split: option.split)
      show ?thesis
      proof (cases "complete_run now ts p st job1")
        case (Inl job2)
        then show ?thesis using refused [OF Some j1] tb o complete_run_Inl [OF Inl] by simp
      next
        case (Inr r)
        obtain job2 fins where "r = (job2, fins)" by fastforce
        then show ?thesis using ended [OF Some open' [OF False] j1 _ st] tb o Inr by simp
      qed
    qed
  qed (use unchanged eq in simp)
qed (use unchanged in \<open>simp add: apply_job_complete_def\<close>)

lemma bal_job_complete:
  assumes "bal s" and "is_terminal (jc_state p)"
  shows "bal (fst (apply_job_complete now ts p s))"
proof (cases rule: apply_job_complete_cases [of now ts p s, case_names unchanged refused repended ended])
  case unchanged
  then show ?thesis using assms(1) by simp
next
  case (refused job job1)
  then show ?thesis using bal_put_same_placement [OF assms(1) refused(1), of job1] by auto
next
  case (repended job job1 job2 fin bt pb q)
  have p1: "placement job1 = placement job" "j_state job1 = Running" using repended(2,3) by auto
  have "cleared job2" "j_state job2 = Pending" using repend_Running [OF p1(2)] repended(4) by (metis prod.inject)+
  then show ?thesis
    using repended free_job_cong [OF p1(1)] p1(1) balanced_free [OF assms(1) repended(1), of job2]
    by (simp add: charging_def cleared_job_ok cleared_charge placement_def)
next
  case (ended job job1 job2 fins st)
  have p1: "placement job1 = placement job" "j_state job1 = j_state job" using ended(3) by auto
  have ok: "job_ok job" using balanced_jobD [OF assms(1) ended(1)] .
  have st: "is_terminal st" using ended(5) assms(2) by (auto simp: is_terminal_def)
  note c = complete_run_Inr [OF ended(4)]
  have "job_ok job2"
    by (rule ended_ok [OF _ _ _ _ ok]) (use c p1 st in \<open>simp_all add: placement_def\<close>)
  moreover have "job_charge job2 n q = 0" for n q using ended_charge terminal_not_charging st c by metis
  moreover have "charging (j_state job)" using terminal_from_charging [OF st] c p1 ok by (simp add: job_ok_def)
  ultimately show ?thesis
    using ended(6,7) free_job_cong [OF p1(1)] p1(1) balanced_free [OF assms(1) ended(1), of job2]
    by (simp add: placement_def)
qed

end
