(* ===== verification/Lifecycle.thy ===== *)
theory Lifecycle
  imports Charge_Ops
begin

text \<open>
  The life of a job as its users see it, and that the log implements it. The relation \<open>life\<close>
  says which entry may move a job from which state to which; the theory shows that every arm of
  \<^verbatim>\<open>apply_operation\<close> only makes these moves, keeps a job's id, owner and submission time, and never
  lowers its run number.
\<close>

section \<open>The specification\<close>

inductive life :: "wal_operation \<Rightarrow> job_state \<Rightarrow> job_state \<Rightarrow> bool" where
  change: "valid_transition a (sc_new_state p) \<Longrightarrow> life (JobStateChange p) a (sc_new_state p)"
| suspend: "life (JobSuspend i at pb q who) Running Suspended"
| resume: "a \<in> {Suspended, Pending} \<Longrightarrow> life (JobResume i at) a Running"
| preempt_requeue: "life (JobPreemptRequeue p) Running Pending"
| preempt_cancel: "b \<in> {Completing, Cancelled} \<Longrightarrow> life (JobPreemptCancel i pb q at r) Running b"
| user_requeue: "is_terminal a \<or> a \<in> {Running, Suspended} \<Longrightarrow> life (JobUserRequeue i h bt who at) a Pending"
| cancel_signaled: "a \<in> {Running, Suspended} \<Longrightarrow> life (JobCancelSignaled i at c) a Completing"
| time_limit: "a \<in> {Running, Suspended} \<Longrightarrow> life (JobTimeLimitExpired i r at) a Completing"
| report: "is_active a \<Longrightarrow> b = Completing \<or> is_terminal b \<Longrightarrow> life (JobNodeComplete i n c g r at) a b"
| report_requeue: "life (JobNodeComplete i n c g r at) Running Pending"
| complete: "valid_transition a b \<Longrightarrow> b = jc_state p \<or> b = Cancelled \<Longrightarrow> \<not> is_terminal a \<Longrightarrow> life (JobComplete p) a b"
| complete_requeue: "life (JobComplete p) Running Pending"
| evict: "valid_transition a b \<Longrightarrow> b \<in> {NodeFail, Timeout, Cancelled} \<Longrightarrow> life (JobEvict i d at) a b"
| node_change: "valid_transition a b \<Longrightarrow> b \<in> {NodeFail, Timeout, Cancelled} \<Longrightarrow> life (NodeStateChange p) a b"
| node_remove: "valid_transition a b \<Longrightarrow> b \<in> {NodeFail, Timeout, Cancelled} \<Longrightarrow> life (NodeRemove n r at) a b"

inductive_cases life_cases: "life op a b"

inductive_simps life_simps:
  "life (JobStateChange p) a b" "life (JobSuspend i at pb q who) a b" "life (JobResume i at) a b"
  "life (JobPreemptRequeue pp) a b" "life (JobPreemptCancel i pb q at' r) a b" "life (JobUserRequeue i h bt who at') a b"
  "life (JobCancelSignaled i at c) a b" "life (JobTimeLimitExpired i r at) a b" "life (JobNodeComplete i n x g r at') a b"
  "life (JobComplete pc) a b" "life (JobEvict i d at') a b" "life (NodeStateChange pn) a b" "life (NodeRemove n rs at') a b"

definition moves :: "wal_operation \<Rightarrow> job_state \<Rightarrow> job_state \<Rightarrow> bool" where
  "moves op a b = (a = b \<or> life op a b)"

definition evolves :: "(job_state \<Rightarrow> job_state \<Rightarrow> bool) \<Rightarrow> job \<Rightarrow> job \<Rightarrow> bool" where
  "evolves mv job job' =
     (j_job_id job' = j_job_id job \<and> js_user (j_spec job') = js_user (j_spec job)
      \<and> j_submit_time job' = j_submit_time job \<and> j_run_attempt job \<le> j_run_attempt job'
      \<and> mv (j_state job) (j_state job'))"

definition table_evolves :: "(job_state \<Rightarrow> job_state \<Rightarrow> bool) \<Rightarrow> (job_id, job) hashmap \<Rightarrow> (job_id, job) hashmap \<Rightarrow> bool" where
  "table_evolves mv jobs jobs' = (\<forall>i. rel_option (evolves mv) (hm_get jobs i) (hm_get jobs' i))"

section \<open>Tables\<close>

lemma moves_refl [simp]: "moves op a a"
  by (simp add: moves_def)

lemma evolves_refl [simp]: "(\<And>a. mv a a) \<Longrightarrow> evolves mv job job"
  by (simp add: evolves_def)

lemma rel_option_evolves_refl [simp]: "(\<And>a. mv a a) \<Longrightarrow> rel_option (evolves mv) x x"
  by (simp add: option.rel_refl)

lemma table_evolves_refl [simp]: "(\<And>a. mv a a) \<Longrightarrow> table_evolves mv jobs jobs"
  by (simp add: table_evolves_def)

lemma table_evolves_trans:
  assumes "table_evolves mv jobs jobs1" and "table_evolves mv jobs1 jobs2"
    and "\<And>a b c. mv a b \<Longrightarrow> mv b c \<Longrightarrow> mv a c"
  shows "table_evolves mv jobs jobs2"
  unfolding table_evolves_def
proof
  fix i
  have trans: "evolves mv job job2" if "evolves mv job job1" "evolves mv job1 job2" for job job1 job2
    using that assms(3) by (auto simp: evolves_def intro: order_trans)
  have "rel_option (evolves mv) (hm_get jobs i) (hm_get jobs1 i)" "rel_option (evolves mv) (hm_get jobs1 i) (hm_get jobs2 i)"
    using assms(1,2) by (simp_all add: table_evolves_def)
  then show "rel_option (evolves mv) (hm_get jobs i) (hm_get jobs2 i)"
    using trans by (auto simp: rel_option_iff split: option.splits)
qed

lemma table_evolves_insert [simp]:
  "hm_get jobs i = Some job \<Longrightarrow> (\<And>a. mv a a) \<Longrightarrow> table_evolves mv jobs (hm_insert i job' jobs) = evolves mv job job'"
  by (auto simp: table_evolves_def hm_simps)

lemma table_evolves_modify [intro]:
  "(\<And>job. evolves mv job (f job)) \<Longrightarrow> (\<And>a. mv a a) \<Longrightarrow> table_evolves mv jobs (hm_modify i f jobs)"
  by (auto simp: table_evolves_def hm_simps option.rel_map intro: option.rel_refl)

lemma table_evolves_map [intro]:
  "(\<And>job. evolves mv job (f job)) \<Longrightarrow> table_evolves mv jobs (map (\<lambda>(i, job). (i, f job)) jobs)"
  by (auto simp: table_evolves_def hm_get_map_values option.rel_map intro: option.rel_refl)

section \<open>Changes of a job record that keep who it is\<close>

named_theorems who_simps

lemma who_end_suspension [who_simps]:
  "j_job_id (end_suspension t job) = j_job_id job" "j_spec (end_suspension t job) = j_spec job"
  "j_submit_time (end_suspension t job) = j_submit_time job" "j_run_attempt (end_suspension t job) = j_run_attempt job"
  by (simp_all add: end_suspension_def split: option.split)

lemma who_set_pending_reason [who_simps]:
  "j_job_id (set_pending_reason r job) = j_job_id job" "j_spec (set_pending_reason r job) = j_spec job"
  "j_submit_time (set_pending_reason r job) = j_submit_time job" "j_run_attempt (set_pending_reason r job) = j_run_attempt job"
  by (simp_all add: set_pending_reason_def drop_stale_detail_def)

lemma who_set_pending_reason_desc [who_simps]:
  "j_job_id (set_pending_reason_desc r d job) = j_job_id job" "j_spec (set_pending_reason_desc r d job) = j_spec job"
  "j_submit_time (set_pending_reason_desc r d job) = j_submit_time job"
  "j_run_attempt (set_pending_reason_desc r d job) = j_run_attempt job"
  by (simp_all add: set_pending_reason_desc_def drop_stale_detail_def)

lemma who_set_reason [who_simps]:
  "j_job_id (set_reason r d job) = j_job_id job" "j_spec (set_reason r d job) = j_spec job"
  "j_submit_time (set_reason r d job) = j_submit_time job" "j_run_attempt (set_reason r d job) = j_run_attempt job"
  by (simp_all add: set_reason_def who_simps split: option.split)

lemma who_clear_run_state [who_simps]:
  "j_job_id (clear_run_state_for_requeue job) = j_job_id job" "j_spec (clear_run_state_for_requeue job) = j_spec job"
  "j_submit_time (clear_run_state_for_requeue job) = j_submit_time job"
  "j_run_attempt (clear_run_state_for_requeue job) = j_run_attempt job"
  "j_state (clear_run_state_for_requeue job) = j_state job"
  by (simp_all add: clear_run_state_for_requeue_def)

lemma who_set_begin_time [who_simps]:
  "j_job_id (set_begin_time t job) = j_job_id job" "js_user (j_spec (set_begin_time t job)) = js_user (j_spec job)"
  "j_submit_time (set_begin_time t job) = j_submit_time job" "j_run_attempt (set_begin_time t job) = j_run_attempt job"
  "j_state (set_begin_time t job) = j_state job"
  by (simp_all add: set_begin_time_def)

lemma who_adopt_grace_provenance [who_simps]:
  "j_job_id (adopt_grace_provenance t job) = j_job_id job" "j_spec (adopt_grace_provenance t job) = j_spec job"
  "j_submit_time (adopt_grace_provenance t job) = j_submit_time job"
  "j_run_attempt (adopt_grace_provenance t job) = j_run_attempt job"
  "j_state (adopt_grace_provenance t job) = j_state job"
  by (auto simp: adopt_grace_provenance_def Let_def split: option.split preempt_mode.split)

lemmas who_resets [who_simps] = reset_job_for_requeue_def reset_job_for_preempt_requeue_def reset_job_for_user_requeue_def

lemma who_enter_pending [who_simps]:
  "j_job_id (enter_pending m p job) = j_job_id job" "js_user (j_spec (enter_pending m p job)) = js_user (j_spec job)"
  "j_submit_time (enter_pending m p job) = j_submit_time job" "j_run_attempt (enter_pending m p job) = j_run_attempt job"
  "j_state (enter_pending m p job) = j_state job"
  by (auto simp: enter_pending_def Let_def who_simps split: option.split)

lemma who_back_off [who_simps]:
  "j_job_id (back_off b sp mx job) = j_job_id job" "js_user (j_spec (back_off b sp mx job)) = js_user (j_spec job)"
  "j_submit_time (back_off b sp mx job) = j_submit_time job" "j_run_attempt (back_off b sp mx job) = j_run_attempt job"
  "j_state (back_off b sp mx job) = j_state job"
  by (auto simp: back_off_def who_simps)

lemma who_repend_by_user [who_simps]:
  "j_job_id (repend_by_user h b a job) = j_job_id job" "js_user (j_spec (repend_by_user h b a job)) = js_user (j_spec job)"
  "j_submit_time (repend_by_user h b a job) = j_submit_time job" "j_run_attempt (repend_by_user h b a job) = j_run_attempt job"
  "j_state (repend_by_user h b a job) = j_state job"
  by (auto simp: repend_by_user_def Let_def who_simps split: option.split)

lemma who_transition:
  "transition now to job = Inr job' \<Longrightarrow>
     j_job_id job' = j_job_id job \<and> j_spec job' = j_spec job \<and> j_submit_time job' = j_submit_time job
     \<and> j_run_attempt job' = j_run_attempt job \<and> j_state job' = to \<and> valid_transition (j_state job) to"
  by (auto simp: transition_def Let_def split: if_splits)

lemma who_apply_transition:
  "apply_transition now to job = Inr (Applied, job') \<Longrightarrow>
     j_job_id job' = j_job_id job \<and> j_spec job' = j_spec job \<and> j_submit_time job' = j_submit_time job
     \<and> j_run_attempt job' = j_run_attempt job \<and> j_state job' = to \<and> valid_transition (j_state job) to"
  by (auto simp: apply_transition_def dest: who_transition split: if_splits sum.splits)

lemma who_requeue_to_pending:
  "requeue_to_pending job = Inr job' \<Longrightarrow>
     j_job_id job' = j_job_id job \<and> j_spec job' = j_spec job \<and> j_submit_time job' = j_submit_time job
     \<and> j_run_attempt job' = j_run_attempt job \<and> j_state job' = Pending
     \<and> (is_terminal (j_state job) \<or> j_state job \<in> {Running, Suspended})"
  by (auto simp: requeue_to_pending_def split: if_splits)

lemmas who_dests = who_transition who_apply_transition who_requeue_to_pending

section \<open>The arms of the log\<close>

lemma valid_to:
  "valid_transition st Suspended \<longleftrightarrow> st = Running" "valid_transition st Preempted \<longleftrightarrow> st = Running"
  "valid_transition st Running \<longleftrightarrow> st \<in> {Suspended, Pending}"
  "valid_transition st Completing \<longleftrightarrow> st \<in> {Running, Suspended, Preempted}"
  "valid_transition st Pending \<longleftrightarrow> st \<in> {Timeout, Preempted, NodeFail, Failed}"
  by (cases st; simp)+

lemmas evolves_simps = evolves_def moves_def life_simps who_simps valid_to

lemma ev_state_change:
  "table_evolves (moves (JobStateChange p)) (c_jobs s) (c_jobs (fst (apply_job_state_change cfg now ts p s)))"
  by (auto simp: apply_job_state_change_def Let_def evolves_simps
      dest!: who_apply_transition split: option.split sum.split transition_outcome.split)

lemma ev_dispatch_backoff:
  "table_evolves (moves op) (c_jobs s) (c_jobs (fst (apply_job_dispatch_backoff i b sp r mx s)))"
  by (auto simp: apply_job_dispatch_backoff_def Let_def evolves_simps split: option.split)

lemma ev_start: "table_evolves (moves op) (c_jobs s) (c_jobs (fst (apply_job_start p s)))"
  by (auto simp: apply_job_start_def Let_def start_run_def evolves_simps split: option.split)

lemma ev_priority_change: "table_evolves (moves op) (c_jobs s) (c_jobs (fst (apply_job_priority_change p s)))"
  by (auto simp: apply_job_priority_change_def Let_def evolves_simps split: option.split prod.split)

lemma ev_suspend:
  "table_evolves (moves (JobSuspend i at pb q who)) (c_jobs s) (c_jobs (fst (apply_job_suspend now i at pb q who s)))"
  by (auto simp: apply_job_suspend_def apply_suspend_def case_prod_unfold Let_def evolves_simps
      dest!: who_apply_transition split: option.split sum.split transition_outcome.split)

lemma ev_resume: "table_evolves (moves (JobResume i at)) (c_jobs s) (c_jobs (fst (apply_job_resume now i at s)))"
  by (auto simp: apply_job_resume_def evolves_simps
      dest!: who_apply_transition split: option.split sum.split transition_outcome.split)

lemma transition_Inl: "transition now to job = Inl e \<Longrightarrow> \<not> valid_transition (j_state job) to"
  by (auto simp: transition_def Let_def split: if_splits)

lemma evolves_mono:
  "evolves mv job job' \<Longrightarrow> (mv (j_state job) (j_state job') \<Longrightarrow> mv' (j_state job) (j_state job')) \<Longrightarrow> evolves mv' job job'"
  by (simp add: evolves_def)

lemma evolves_via:
  assumes "evolves mv job1 job'" and "j_job_id job1 = j_job_id job" "js_user (j_spec job1) = js_user (j_spec job)"
    "j_submit_time job1 = j_submit_time job" "j_run_attempt job1 = j_run_attempt job" "j_state job1 = j_state job"
    and "mv (j_state job) (j_state job') \<Longrightarrow> mv' (j_state job) (j_state job')"
  shows "evolves mv' job job'"
  using assms by (simp add: evolves_def)

lemma repend_evolves:
  "repend_after_preemption now bt pb q at job = (job', fin) \<Longrightarrow> evolves (\<lambda>a b. b = a \<or> a = Running \<and> b = Pending) job job'"
  by (auto simp: repend_after_preemption_def Let_def evolves_simps dest!: who_transition transition_Inl split: sum.splits)

lemma ev_preempt_requeue:
  "table_evolves (moves (JobPreemptRequeue p)) (c_jobs s) (c_jobs (fst (apply_job_preempt_requeue now ts p s)))"
  by (auto simp: apply_job_preempt_requeue_def Let_def moves_def life_simps
      dest!: repend_evolves intro: evolves_mono split: option.split prod.split)

lemma ev_user_requeue:
  "table_evolves (moves (JobUserRequeue i h bt who at)) (c_jobs s) (c_jobs (fst (apply_job_user_requeue now ts i h bt who s)))"
  by (auto simp: apply_job_user_requeue_def Let_def evolves_simps
      dest!: who_requeue_to_pending split: option.split sum.split)

lemma ev_preempt_cancel:
  "table_evolves (moves (JobPreemptCancel i pb q at r)) (c_jobs s) (c_jobs (fst (apply_job_preempt_cancel now ts i pb q at' r' s)))"
  by (auto simp: apply_job_preempt_cancel_def Let_def evolves_simps
      dest!: who_transition transition_Inl split: option.split sum.split)

lemma begin_completing_evolves:
  "evolves (\<lambda>a b. b = a \<or> a \<in> {Running, Suspended} \<and> b = Completing) job (fst (begin_completing now at job))"
  by (auto simp: begin_completing_def evolves_simps dest!: who_transition split: sum.split)

lemma ev_cancel_signaled:
  "table_evolves (moves (JobCancelSignaled i at c)) (c_jobs s) (c_jobs (fst (apply_job_cancel_signaled now i at c s)))"
  by (auto simp: apply_job_cancel_signaled_def Let_def moves_def life_simps
      intro!: evolves_via [OF begin_completing_evolves] split: option.split)

lemma ev_time_limit_expired:
  "table_evolves (moves (JobTimeLimitExpired i r at)) (c_jobs s) (c_jobs (fst (apply_job_time_limit_expired now i r at s)))"
  by (auto simp: apply_job_time_limit_expired_def Let_def moves_def life_simps
      intro!: evolves_via [OF begin_completing_evolves] split: option.split)

lemma finalize_evolves:
  "evolves (\<lambda>a b. b = a \<or> is_terminal b) job (fst (finalize_reported_run now at job))"
proof -
  let ?primary = "case j_allocated_nodes job of [] \<Rightarrow> [] | n # _ \<Rightarrow> n"
  obtain st c g where d: "derived_completion (j_node_completions job) ?primary = (st, c, g)"
    by (metis prod_cases3)
  obtain st' r where v: "completion_verdict job st c (g AND NOT oom_signal_flag) (reported_oom job) = (st', r)"
    by (metis surj_pair)
  have "is_terminal st'"
    using verdict_terminal [of job "j_node_completions job" ?primary c "g AND NOT oom_signal_flag" "reported_oom job"] d v by simp
  then show ?thesis
    using d v by (auto simp: finalize_reported_run_def Let_def evolves_simps dest!: who_transition split: sum.split)
qed

lemma advance_evolves:
  "evolves (\<lambda>a b. b = a \<or> b = Completing \<or> is_terminal b \<or> a = Running \<and> b = Pending) job
     (fst (advance_after_node_report now g at job))"
proof -
  let ?mv = "\<lambda>a b. b = a \<or> b = Completing \<or> is_terminal b \<or> a = Running \<and> b = Pending"
  have repend: "evolves ?mv job (fst (repend_after_preemption now bt pb q at job))" for bt pb q
    using repend_evolves [of now bt pb q at job] by (metis (no_types, lifting) evolves_mono prod.collapse)
  define fin where "fin = (\<lambda>j. (let job1 = (if j_state j \<in> {Running, Suspended} then
                     (end_suspension at (case transition now Completing j of Inl _ \<Rightarrow> j | Inr j \<Rightarrow> j))\<lparr>j_end_time := Some at\<rparr>
                   else j)
              in if \<not> all_nodes_completed job then (job1, None) else finalize_reported_run now at job1))"
  have finish: "evolves ?mv job (fst (fin j))"
    if same: "j_job_id j = j_job_id job" "j_spec j = j_spec job" "j_submit_time j = j_submit_time job"
      "j_run_attempt j = j_run_attempt job" "j_state j = j_state job" for j
  proof -
    define job1 where "job1 = (if j_state j \<in> {Running, Suspended} then
        (end_suspension at (case transition now Completing j of Inl _ \<Rightarrow> j | Inr j \<Rightarrow> j))\<lparr>j_end_time := Some at\<rparr> else j)"
    have 1: "evolves ?mv job job1"
      using same by (auto simp: job1_def evolves_simps dest!: who_transition split: sum.split)
    moreover have "evolves ?mv job (fst (finalize_reported_run now at job1))"
      using 1 finalize_evolves [of job1 now at] by (auto simp: evolves_def job1_def same dest: who_transition split: if_splits sum.splits)
    ultimately show ?thesis unfolding fin_def Let_def job1_def [symmetric] by simp
  qed
  have "advance_after_node_report now g at job =
      (case (if all_nodes_completed job \<and> reported_oom job then None else g) of
         Some pending \<Rightarrow>
           if \<not> all_nodes_completed job then (job, None)
           else if pp_mode pending = PmRequeue then
             repend_after_preemption now (preempt_hold_until job at (pp_requeue_hold_secs pending))
               (Some (pp_preempted_by pending)) (pp_preempt_qos pending) at job
           else fin (adopt_grace_provenance at job)
       | None \<Rightarrow> fin job)"
    by (simp only: advance_after_node_report_def fin_def Let_def)
  then show ?thesis
    using repend finish [of job] finish [of "adopt_grace_provenance at job"]
    by (simp add: who_simps evolves_def [of _ job job] split: option.split)
qed

lemma ev_node_complete:
  "table_evolves (moves (JobNodeComplete i n c g r at)) (c_jobs s) (c_jobs (fst (apply_job_node_complete now ts i n c g r s)))"
proof (cases "hm_get (c_jobs s) i")
  case (Some job)
  let ?job1 = "job\<lparr>j_node_completions := hm_insert n \<lparr>nc_code = c, nc_signal = g\<rparr> (j_node_completions job)\<rparr>"
  have "evolves (moves (JobNodeComplete i n c g r at)) job (fst (advance_after_node_report now gr ts ?job1))"
    if "is_active (j_state job)" for gr
    by (rule evolves_via [OF advance_evolves]) (use that in \<open>auto simp: moves_def life_simps\<close>)
  then show ?thesis
    using Some by (auto simp: apply_job_node_complete_def Let_def case_prod_unfold split: option.split)
qed (simp add: apply_job_node_complete_def)

lemma complete_run_evolves:
  "complete_run now ts p st job = Inr (job', fins) \<Longrightarrow> evolves (\<lambda>a b. valid_transition a b \<and> b = st) job job'"
  by (auto simp: complete_run_def Let_def evolves_def who_simps dest!: who_transition split: sum.splits)

lemma ev_complete:
  "table_evolves (moves (JobComplete p)) (c_jobs s) (c_jobs (fst (apply_job_complete now ts p s)))"
proof (cases rule: apply_job_complete_cases [of now ts p s, case_names unchanged refused repended ended])
  case (refused job job1)
  then show ?thesis by (auto simp: evolves_def moves_def who_simps)
next
  case (repended job job1 job2 fin bt pb q)
  then show ?thesis using repend_evolves [OF repended(4)] by (auto simp: evolves_def moves_def life_simps who_simps)
next
  case (ended job job1 job2 fins st)
  then show ?thesis using complete_run_evolves [OF ended(4)] by (auto simp: evolves_def moves_def life_simps who_simps)
qed simp

section \<open>Evictions\<close>

definition evict_moves :: "job_state \<Rightarrow> job_state \<Rightarrow> bool" where
  "evict_moves a b = (a = b \<or> valid_transition a b \<and> b \<in> {NodeFail, Timeout, Cancelled})"

lemma moves_evict:
  "moves (JobEvict i d at) = evict_moves" "moves (NodeStateChange p) = evict_moves" "moves (NodeRemove n r at) = evict_moves"
  by (auto simp: fun_eq_iff moves_def life_simps evict_moves_def)

lemma evict_moves_refl [simp]: "evict_moves a a"
  by (simp add: evict_moves_def)

lemma evict_moves_trans: "evict_moves a b \<Longrightarrow> evict_moves b c \<Longrightarrow> evict_moves a c"
  by (auto simp: evict_moves_def)

lemmas evict_evolves_trans = table_evolves_trans [where mv = evict_moves, OF _ _ evict_moves_trans]

lemma evict_job_evolves: "table_evolves evict_moves jobs (fst (evict_job_locked now i ts r f jobs nodes))"
proof (cases "hm_get jobs i")
  case (Some job)
  then show ?thesis
    using evicted_state_terminal(2) [of job]
    by (auto simp: evict_job_locked_def Let_def evolves_def evict_moves_def who_simps dest!: who_transition split: sum.split)
qed (simp add: evict_job_locked_def)

lemma evict_all_evolves: "table_evolves evict_moves jobs (fst (evict_all now ts f ids jobs nodes))"
proof (induction ids arbitrary: jobs nodes)
  case (Cons i ids)
  show ?case
    using evict_evolves_trans [OF evict_job_evolves Cons.IH] by (simp add: case_prod_unfold Let_def)
qed simp

lemma evict_stranded_evolves: "table_evolves evict_moves (fst t) (fst (evict_stranded i t))"
  by (cases "hm_get (fst t) i") (auto simp: evict_stranded_def case_prod_unfold evolves_def who_simps)

lemma evict_stranded_all_evolves:
  "table_evolves evict_moves (fst t) (fst (foldl (\<lambda>t i. evict_stranded i t) t ids))"
proof (induction ids arbitrary: t)
  case (Cons i ids)
  show ?case using evict_evolves_trans [OF evict_stranded_evolves Cons.IH] by simp
qed simp

lemma evict_node_evolves: "table_evolves evict_moves (c_jobs s) (c_jobs (fst (evict_node now n f ts s)))"
  using evict_evolves_trans [OF evict_all_evolves evict_stranded_all_evolves [of "(j, m)" for j m, simplified]]
  by (simp add: evict_node_def evict_jobs_on_node_def fold_record_preempt_fields [unfolded case_prod_unfold] case_prod_unfold Let_def)

lemma ev_evict: "table_evolves (moves (JobEvict i d at)) (c_jobs s) (c_jobs (fst (apply_job_evict now ts i d s)))"
proof -
  have "table_evolves evict_moves (c_jobs s) (hm_modify i (\<lambda>job. job\<lparr>j_launch_failure_detail := d\<rparr>) (c_jobs s))"
    by (rule table_evolves_modify) (simp_all add: evolves_def)
  from evict_evolves_trans [OF this evict_job_evolves] show ?thesis
    by (simp add: apply_job_evict_def moves_evict case_prod_unfold Let_def split: option.split)
qed

lemma ev_node_state_change:
  "table_evolves (moves (NodeStateChange p)) (c_jobs s) (c_jobs (fst (apply_node_state_change now ts p s)))"
  using evict_node_evolves [of "s\<lparr>c_nodes := m\<rparr>" for m]
  by (simp add: apply_node_state_change_def moves_evict case_prod_unfold Let_def)

lemma ev_node_remove:
  "table_evolves (moves (NodeRemove n r at)) (c_jobs s) (c_jobs (fst (apply_node_remove now ts n r s)))"
  using evict_node_evolves [of s]
  by (simp add: apply_node_remove_def moves_evict case_prod_unfold Let_def split: option.split)

section \<open>The whole log\<close>

lemma ev_modify_fields:
  "table_evolves (moves op) (c_jobs s) (c_jobs (fst (apply_job_launch_failure_detail i d s)))"
  "table_evolves (moves op) (c_jobs s) (c_jobs (fst (apply_job_time_limit_signaled i at s)))"
  "table_evolves (moves op) (c_jobs s) (c_jobs (fst (apply_job_preempt_signaled i pending s)))"
  "table_evolves (moves op) (c_jobs s) (c_jobs (fst (apply_job_exclude_update i e s)))"
  "table_evolves (moves op) (c_jobs s) (c_jobs (fst (apply_job_step_create step s)))"
  "table_evolves (moves op) (c_jobs s) (c_jobs (fst (apply_job_step_complete ts i sid c s)))"
  by (auto simp: apply_job_launch_failure_detail_def apply_job_time_limit_signaled_def apply_job_preempt_signaled_def
      apply_job_exclude_update_def apply_job_step_create_def apply_job_step_complete_def Let_def evolves_def
      intro!: table_evolves_modify split: option.split)

lemma ev_tables:
  "table_evolves (moves op) (c_jobs s) (c_jobs (fst (apply_node_update cfg now u s)))"
  "table_evolves (moves op) (c_jobs s) (c_jobs (fst (apply_reservation_delete n s)))"
  by (auto simp: apply_node_update_def remap_node_gpu_allocations_def remap_job_def apply_reservation_delete_def
      hold_jobs_for_deleted_reservation_jobs_def detach_jobs_from_deleted_reservation_jobs_def Let_def evolves_def who_simps
      intro!: table_evolves_map split: option.split prod.split)

lemmas ev_ops = ev_state_change ev_dispatch_backoff ev_start ev_priority_change ev_suspend ev_resume ev_preempt_requeue
  ev_user_requeue ev_preempt_cancel ev_cancel_signaled ev_time_limit_expired ev_node_complete ev_complete ev_evict
  ev_node_state_change ev_node_remove ev_modify_fields ev_tables

lemma jobs_untouched:
  "c_jobs (fst (apply_node_register cfg now r s)) = c_jobs s" "c_jobs (fst (apply_node_labels_update cfg n a b s)) = c_jobs s"
  "c_jobs (fst (apply_partition_create cfg p s)) = c_jobs s" "c_jobs (fst (apply_partition_update cfg u s)) = c_jobs s"
  "c_jobs (fst (apply_partition_delete cfg n s)) = c_jobs s" "c_jobs (fst (apply_node_k0s_assign n role m c s)) = c_jobs s"
  "c_jobs (fst (apply_node_k0s_clear n s)) = c_jobs s" "c_jobs (fst (apply_k0s_set_phase kp s)) = c_jobs s"
  "c_jobs (fst (apply_reservation_create rv s)) = c_jobs s"
  by (simp_all add: apply_node_register_def apply_node_labels_update_def apply_partition_create_def apply_partition_update_def
      apply_partition_delete_def apply_node_k0s_assign_def apply_node_k0s_clear_def apply_k0s_set_phase_def
      apply_reservation_create_def reconcile_def Let_def split: option.split)

lemma ev_apply_operation:
  assumes "\<And>i spec. op \<noteq> JobSubmit i spec" and "\<And>ids. op \<noteq> EvictTerminalJobs ids"
  shows "table_evolves (moves op) (c_jobs s) (c_jobs (fst (apply_operation cfg now op s)))"
  using assms
  by (cases op) (simp_all add: apply_operation_def Let_def ev_ops jobs_untouched apply_token_create_def apply_token_revoke_def
      apply_reservation_update_def apply_node_k0s_set_error_def apply_k0s_member_nodes_add_def apply_k0s_member_nodes_remove_def,
      blast+)

section \<open>Entries about one job\<close>

definition names_job :: "wal_operation \<Rightarrow> job_id option" where
  "names_job op =
     (case op of
        JobSubmit i _ \<Rightarrow> Some i
      | JobStateChange p \<Rightarrow> Some (sc_job_id p)
      | JobStart p \<Rightarrow> Some (sr_job_id p)
      | JobComplete p \<Rightarrow> Some (jc_job_id p)
      | JobNodeComplete i _ _ _ _ _ \<Rightarrow> Some i
      | JobTimeLimitSignaled i _ \<Rightarrow> Some i
      | JobTimeLimitExpired i _ _ \<Rightarrow> Some i
      | JobCancelSignaled i _ _ \<Rightarrow> Some i
      | JobPreemptSignaled i _ \<Rightarrow> Some i
      | JobStepComplete i _ _ \<Rightarrow> Some i
      | JobStepCreate st \<Rightarrow> Some (st_job_id st)
      | JobPriorityChange p \<Rightarrow> Some (pc_job_id p)
      | JobExcludeUpdate i _ \<Rightarrow> Some i
      | JobDispatchBackoff i _ _ _ _ \<Rightarrow> Some i
      | JobPreemptRequeue p \<Rightarrow> Some (pq_job_id p)
      | JobPreemptCancel i _ _ _ _ \<Rightarrow> Some i
      | JobUserRequeue i _ _ _ _ \<Rightarrow> Some i
      | JobSuspend i _ _ _ _ \<Rightarrow> Some i
      | JobResume i _ \<Rightarrow> Some i
      | JobEvict i _ _ \<Rightarrow> Some i
      | JobLaunchFailureDetail i _ \<Rightarrow> Some i
      | _ \<Rightarrow> None)"

lemma frame_evict: "k \<noteq> i \<Longrightarrow> hm_get (fst (evict_job_locked now i ts r f jobs nodes)) k = hm_get jobs k"
  by (cases rule: evict_job_locked_cases [of jobs i now ts r f nodes, where c = "[]"]) (simp_all add: hm_simps)

lemma frame_complete: "k \<noteq> jc_job_id p \<Longrightarrow> hm_get (c_jobs (fst (apply_job_complete now ts p s))) k = hm_get (c_jobs s) k"
  by (cases rule: apply_job_complete_cases [of now ts p s]) (simp_all add: hm_simps)

lemma frame_job_evict: "k \<noteq> i \<Longrightarrow> hm_get (c_jobs (fst (apply_job_evict now ts i d s))) k = hm_get (c_jobs s) k"
  using frame_evict [of k i] by (simp add: apply_job_evict_def Let_def case_prod_unfold hm_simps split: option.split)

lemma frame_node_complete:
  "k \<noteq> i \<Longrightarrow> hm_get (c_jobs (fst (apply_job_node_complete now ts i n c g r s))) k = hm_get (c_jobs s) k"
  by (simp add: apply_job_node_complete_def Let_def case_prod_unfold hm_simps split: option.split)

lemma frame_priority_change:
  "k \<noteq> pc_job_id p \<Longrightarrow> hm_get (c_jobs (fst (apply_job_priority_change p s))) k = hm_get (c_jobs s) k"
  by (simp add: apply_job_priority_change_def Let_def case_prod_unfold hm_simps split: option.split)

lemma frame_start: "k \<noteq> sr_job_id p \<Longrightarrow> hm_get (c_jobs (fst (apply_job_start p s))) k = hm_get (c_jobs s) k"
  by (simp add: apply_job_start_def Let_def hm_simps split: option.split)

lemma frame_requeues:
  "k \<noteq> pq_job_id p \<Longrightarrow> hm_get (c_jobs (fst (apply_job_preempt_requeue now ts p s))) k = hm_get (c_jobs s) k"
  "k \<noteq> i \<Longrightarrow> hm_get (c_jobs (fst (apply_job_user_requeue now ts i h bt who s))) k = hm_get (c_jobs s) k"
  "k \<noteq> i \<Longrightarrow> hm_get (c_jobs (fst (apply_job_preempt_cancel now ts i pb q at r s))) k = hm_get (c_jobs s) k"
  by (auto simp: apply_job_preempt_requeue_def apply_job_user_requeue_def apply_job_preempt_cancel_def Let_def hm_simps
      split: option.split sum.split prod.split)

lemma frame_state_changes:
  "k \<noteq> sc_job_id p \<Longrightarrow> hm_get (c_jobs (fst (apply_job_state_change cfg now ts p s))) k = hm_get (c_jobs s) k"
  "k \<noteq> i \<Longrightarrow> hm_get (c_jobs (fst (apply_job_dispatch_backoff i b sp ra mx s))) k = hm_get (c_jobs s) k"
  "k \<noteq> i \<Longrightarrow> hm_get (c_jobs (fst (apply_job_suspend now i at pb q who s))) k = hm_get (c_jobs s) k"
  "k \<noteq> i \<Longrightarrow> hm_get (c_jobs (fst (apply_job_resume now i at s))) k = hm_get (c_jobs s) k"
  "k \<noteq> i \<Longrightarrow> hm_get (c_jobs (fst (apply_job_cancel_signaled now i at c s))) k = hm_get (c_jobs s) k"
  "k \<noteq> i \<Longrightarrow> hm_get (c_jobs (fst (apply_job_time_limit_expired now i ra at s))) k = hm_get (c_jobs s) k"
  by (auto simp: apply_job_state_change_def apply_job_dispatch_backoff_def apply_job_suspend_def apply_job_resume_def
      apply_job_cancel_signaled_def apply_job_time_limit_expired_def Let_def hm_simps case_prod_unfold
      split: option.split sum.split prod.split transition_outcome.split)

lemma frame_fields:
  "k \<noteq> i \<Longrightarrow> hm_get (c_jobs (fst (apply_job_submit now i spec s))) k = hm_get (c_jobs s) k"
  "k \<noteq> i \<Longrightarrow> hm_get (c_jobs (fst (apply_job_launch_failure_detail i d s))) k = hm_get (c_jobs s) k"
  "k \<noteq> i \<Longrightarrow> hm_get (c_jobs (fst (apply_job_time_limit_signaled i at s))) k = hm_get (c_jobs s) k"
  "k \<noteq> i \<Longrightarrow> hm_get (c_jobs (fst (apply_job_preempt_signaled i pending s))) k = hm_get (c_jobs s) k"
  "k \<noteq> i \<Longrightarrow> hm_get (c_jobs (fst (apply_job_exclude_update i e s))) k = hm_get (c_jobs s) k"
  "hm_get (c_jobs (fst (apply_job_step_create step s))) k = hm_get (c_jobs s) k"
  "k \<noteq> i \<Longrightarrow> hm_get (c_jobs (fst (apply_job_step_complete ts i sid x s))) k = hm_get (c_jobs s) k"
  by (auto simp: apply_job_submit_def apply_job_launch_failure_detail_def apply_job_time_limit_signaled_def
      apply_job_preempt_signaled_def apply_job_exclude_update_def apply_job_step_create_def apply_job_step_complete_def
      Let_def hm_simps split: option.split)

lemmas frames = frame_complete frame_job_evict frame_node_complete frame_priority_change frame_start frame_requeues
  frame_state_changes frame_fields

lemma other_jobs_untouched:
  assumes "names_job op = Some j" and "k \<noteq> j"
  shows "hm_get (c_jobs (fst (apply_operation cfg now op s))) k = hm_get (c_jobs s) k"
  using assms by (cases op) (auto simp: names_job_def apply_operation_def Let_def frames)

section \<open>Runs of the log\<close>

definition job_moves :: "job_id \<Rightarrow> wal_operation \<Rightarrow> job_state \<Rightarrow> job_state \<Rightarrow> bool" where
  "job_moves i op a b = (a = b \<or> names_job op \<in> {None, Some i} \<and> life op a b)"

fun life_run :: "job_id \<Rightarrow> wal_operation list \<Rightarrow> job_state \<Rightarrow> job_state \<Rightarrow> bool" where
  "life_run i [] a c = (a = c)"
| "life_run i (op # ops) a c = (\<exists>b. job_moves i op a b \<and> life_run i ops b c)"

text \<open>A log entry is applied at some instant of the replica's clock.\<close>

definition apply_entry :: "cluster_config \<Rightarrow> cluster \<Rightarrow> instant \<times> wal_operation \<Rightarrow> cluster" where
  "apply_entry cfg s e = fst (apply_operation cfg (fst e) (snd e) s)"

definition submits :: "job_id \<Rightarrow> wal_operation \<Rightarrow> bool" where
  "submits i op = (case op of JobSubmit k _ \<Rightarrow> k = i | _ \<Rightarrow> False)"

definition retires :: "job_id \<Rightarrow> wal_operation \<Rightarrow> bool" where
  "retires i op = (case op of EvictTerminalJobs ids \<Rightarrow> i \<in> set ids | _ \<Rightarrow> False)"

lemma hm_get_retain_keys: "hm_get (hm_retain (\<lambda>k _. keep k) m) i = (if keep i then hm_get m i else None)"
  by (induction m) (auto simp: hm_retain_def)

lemma retire_step:
  "hm_get (c_jobs (fst (apply_evict_terminal_jobs ids s))) i =
     (case hm_get (c_jobs s) i of
        None \<Rightarrow> None
      | Some job \<Rightarrow> if i \<in> set ids \<and> is_finalized (j_state job) then None else Some job)"
  by (auto simp: apply_evict_terminal_jobs_def Let_def hm_get_retain_keys split: option.splits)

lemma absent_step:
  assumes "hm_get (c_jobs s) i = None" and "\<not> submits i (snd e)"
  shows "hm_get (c_jobs (apply_entry cfg s e)) i = None"
proof (cases "snd e")
  case (JobSubmit k spec)
  then show ?thesis using assms frame_fields(1) [of i k] by (simp add: apply_entry_def apply_operation_def submits_def Let_def)
next
  case (EvictTerminalJobs ids)
  then show ?thesis using assms by (simp add: apply_entry_def apply_operation_def retire_step Let_def)
qed (use assms ev_apply_operation [of "snd e" s cfg "fst e"] in \<open>auto simp: table_evolves_def apply_entry_def rel_option_iff
      dest!: spec [of _ i] split: option.splits\<close>)

lemma ordinary_step:
  assumes "hm_get (c_jobs s) i = Some job" and "\<And>i spec. op \<noteq> JobSubmit i spec" and "\<And>ids. op \<noteq> EvictTerminalJobs ids"
  shows "\<exists>job'. hm_get (c_jobs (fst (apply_operation cfg now op s))) i = Some job' \<and> evolves (job_moves i op) job job'"
proof -
  obtain job' where job': "hm_get (c_jobs (fst (apply_operation cfg now op s))) i = Some job'" "evolves (moves op) job job'"
    using ev_apply_operation [OF assms(2,3), of s cfg now] assms(1)
    unfolding table_evolves_def by (metis option_rel_Some1)
  show ?thesis
  proof (cases "names_job op \<in> {None, Some i}")
    case True
    then have "job_moves i op = moves op" by (auto simp: fun_eq_iff job_moves_def moves_def)
    then show ?thesis using job' by simp
  next
    case False
    then show ?thesis using other_jobs_untouched [of op _ i cfg now s] assms(1) by (auto simp: job_moves_def)
  qed
qed

lemma present_step:
  assumes "hm_get (c_jobs s) i = Some job" and "\<not> submits i (snd e)"
  obtains (kept) job' where "hm_get (c_jobs (apply_entry cfg s e)) i = Some job'" "evolves (job_moves i (snd e)) job job'"
  | (retired) "hm_get (c_jobs (apply_entry cfg s e)) i = None" "retires i (snd e)" "is_finalized (j_state job)"
proof (cases "(\<exists>k spec. snd e = JobSubmit k spec) \<or> (\<exists>ids. snd e = EvictTerminalJobs ids)")
  case True
  then consider (submit) k spec where "snd e = JobSubmit k spec" | (evict) ids where "snd e = EvictTerminalJobs ids" by blast
  then show ?thesis
  proof cases
    case submit
    then show ?thesis
      using assms frame_fields(1) [of i k] kept [of job]
      by (simp add: apply_entry_def apply_operation_def submits_def Let_def job_moves_def)
  next
    case evict
    then show ?thesis
      using assms kept [of job] retired
      by (cases "i \<in> set ids \<and> is_finalized (j_state job)")
         (auto simp: apply_entry_def apply_operation_def retire_step retires_def job_moves_def Let_def)
  qed
next
  case False
  then show ?thesis using ordinary_step [OF assms(1), of "snd e" cfg "fst e"] kept by (auto simp: apply_entry_def)
qed

lemma absent_run:
  "hm_get (c_jobs s) i = None \<Longrightarrow> list_all (\<lambda>e. \<not> submits i (snd e)) es \<Longrightarrow>
     hm_get (c_jobs (foldl (apply_entry cfg) s es)) i = None"
  by (induction es arbitrary: s) (simp_all add: absent_step)

lemma present_run:
  assumes "hm_get (c_jobs s) i = Some job" and "list_all (\<lambda>e. \<not> submits i (snd e)) es"
  shows "(\<exists>job'. hm_get (c_jobs (foldl (apply_entry cfg) s es)) i = Some job' \<and> evolves (life_run i (map snd es)) job job')
     \<or> (hm_get (c_jobs (foldl (apply_entry cfg) s es)) i = None
        \<and> (\<exists>es1 e es2 st. es = es1 @ e # es2 \<and> retires i (snd e) \<and> life_run i (map snd es1) (j_state job) st \<and> is_finalized st))"
  using assms
proof (induction es arbitrary: s job)
  case (Cons e es)
  have e: "\<not> submits i (snd e)" and es: "list_all (\<lambda>e. \<not> submits i (snd e)) es" using Cons.prems(2) by simp_all
  show ?case
  proof (cases rule: present_step [OF Cons.prems(1) e, of cfg, case_names kept retired])
    case (kept job1)
    from Cons.IH [OF kept(1) es] show ?thesis
    proof (elim disjE exE conjE)
      fix job' assume "hm_get (c_jobs (foldl (apply_entry cfg) (apply_entry cfg s e) es)) i = Some job'"
        and "evolves (life_run i (map snd es)) job1 job'"
      then show ?thesis using kept(2) by (auto simp: evolves_def intro: order_trans)
    next
      fix es1 e' es2 st
      assume "hm_get (c_jobs (foldl (apply_entry cfg) (apply_entry cfg s e) es)) i = None" "es = es1 @ e' # es2"
        "retires i (snd e')" "life_run i (map snd es1) (j_state job1) st" "is_finalized st"
      then show ?thesis
        using kept(2) by (intro disjI2 conjI exI [of _ "e # es1"] exI [of _ e'] exI [of _ es2] exI [of _ st]) (auto simp: evolves_def)
    qed
  next
    case retired
    then show ?thesis
      using absent_run [OF retired(1) es]
      by (intro disjI2 conjI exI [of _ "[]"] exI [of _ e] exI [of _ es] exI [of _ "j_state job"]) simp_all
  qed
qed (simp add: evolves_def)

text \<open>A finished job only restarts on a user requeue or a state change that names it.\<close>

definition restarts :: "job_id \<Rightarrow> wal_operation \<Rightarrow> bool" where
  "restarts i op = (case op of JobUserRequeue k _ _ _ _ \<Rightarrow> k = i | JobStateChange p \<Rightarrow> sc_job_id p = i | _ \<Rightarrow> False)"

lemma terminal_move: "job_moves i op a b \<Longrightarrow> is_terminal a \<Longrightarrow> \<not> restarts i op \<Longrightarrow> b = a"
  by (cases a; auto simp: job_moves_def restarts_def names_job_def is_terminal_def is_active_def elim!: life_cases)

lemma terminal_run: "life_run i ops a b \<Longrightarrow> is_terminal a \<Longrightarrow> list_all (\<lambda>op. \<not> restarts i op) ops \<Longrightarrow> b = a"
  by (induction ops arbitrary: a) (auto dest: terminal_move)

end
