(* ===== verification/Node_Names.thy ===== *)
theory Node_Names
  imports Lifecycle
begin

text \<open>
  The tables stay keyed by what their records say: every entry of the log keeps a node under its own
  name and a job under its own id.
\<close>

section \<open>Nodes\<close>

definition nodes_named :: "(string, node) hashmap \<Rightarrow> bool" where
  "nodes_named nodes = (\<forall>n node. hm_get nodes n = Some node \<longrightarrow> n_name node = n)"

lemma n_name_policy [simp]: "n_name (apply_node_config_policy cfgs node) = n_name node"
  by (auto simp: apply_node_config_policy_def Let_def reset_config_policy_def recompute_core_layout_def split: option.split)

lemma n_name_charge [simp]: "n_name (charge_node a node) = n_name node" "n_name (release_node a node) = n_name node"
  by (simp_all add: charge_node_def release_node_def)

lemma n_name_change_node_state [simp]: "n_name (change_node_state p node) = n_name node"
  by (simp add: change_node_state_def Let_def)

lemma named_insert: "nodes_named nodes \<Longrightarrow> n_name node = n \<Longrightarrow> nodes_named (hm_insert n node nodes)"
  by (auto simp: nodes_named_def hm_simps)

lemma named_modify [simp]: "nodes_named nodes \<Longrightarrow> (\<And>node. n_name (f node) = n_name node) \<Longrightarrow> nodes_named (hm_modify n f nodes)"
  by (auto simp: nodes_named_def hm_simps split: if_splits)

lemma named_remove [simp]: "nodes_named nodes \<Longrightarrow> nodes_named (hm_remove n nodes)"
  by (auto simp: nodes_named_def hm_simps)

lemma named_map: "nodes_named nodes \<Longrightarrow> (\<And>node. n_name (f node) = n_name node) \<Longrightarrow> nodes_named (map (\<lambda>(n, node). (n, f node)) nodes)"
  by (auto simp: nodes_named_def hm_get_map_values)

lemma named_fold:
  "nodes_named nodes \<Longrightarrow> (\<And>ns x. nodes_named ns \<Longrightarrow> nodes_named (f ns x)) \<Longrightarrow> nodes_named (foldl f nodes xs)"
  by (induction xs arbitrary: nodes) simp_all

lemma named_slices [simp]:
  "nodes_named nodes \<Longrightarrow> nodes_named (allocate_job_slices names r per nodes)"
  "nodes_named nodes \<Longrightarrow> nodes_named (deallocate_job_slices names ra per already nodes)"
  by (auto simp: allocate_job_slices_def deallocate_job_slices_def intro!: named_fold split: option.split)

lemma named_reconcile [simp]: "nodes_named (c_nodes s) \<Longrightarrow> nodes_named (c_nodes (reconcile cfg s))"
  by (auto simp: reconcile_def reconcile_partitions_def intro!: named_map)

lemma named_evict_job [simp]: "nodes_named nodes \<Longrightarrow> nodes_named (fst (snd (evict_job_locked now i ts r f jobs nodes)))"
  by (cases rule: evict_job_locked_cases [of jobs i now ts r f nodes, where c = "[]"]) simp_all

lemma named_evict_all: "nodes_named nodes \<Longrightarrow> nodes_named (fst (snd (evict_all now ts f ids jobs nodes)))"
  by (induction ids arbitrary: jobs nodes) (simp_all add: case_prod_unfold Let_def)

lemma named_evict_stranded: "nodes_named (snd t) \<Longrightarrow> nodes_named (snd (foldl (\<lambda>t i. evict_stranded i t) t ids))"
  by (induction ids arbitrary: t) (simp_all add: evict_stranded_def case_prod_unfold split: option.split)

lemma named_evict_node [simp]: "nodes_named (c_nodes s) \<Longrightarrow> nodes_named (c_nodes (fst (evict_node now n f ts s)))"
  by (simp add: evict_node_def evict_jobs_on_node_def fold_record_preempt_fields [unfolded case_prod_unfold]
      case_prod_unfold Let_def named_evict_all named_evict_stranded)

lemma named_job_ops:
  assumes "nodes_named (c_nodes s)"
  shows "nodes_named (c_nodes (fst (apply_job_dispatch_backoff i b sp ra mx s)))"
    and "nodes_named (c_nodes (fst (apply_job_preempt_requeue now ts p s)))"
    and "nodes_named (c_nodes (fst (apply_job_user_requeue now ts i h bt who s)))"
    and "nodes_named (c_nodes (fst (apply_job_preempt_cancel now ts i pb q at r s)))"
    and "nodes_named (c_nodes (fst (apply_job_evict now ts i d s)))"
    and "nodes_named (c_nodes (fst (apply_job_start ps s)))"
    and "nodes_named (c_nodes (fst (apply_job_node_complete now ts i n c g ra s)))"
    and "nodes_named (c_nodes (fst (apply_job_priority_change pc s)))"
  using assms
  by (auto simp: apply_job_dispatch_backoff_def apply_job_preempt_requeue_def apply_job_user_requeue_def
      apply_job_preempt_cancel_def apply_job_evict_def apply_job_start_def apply_job_node_complete_def
      release_reported_node_def apply_job_priority_change_def Let_def case_prod_unfold split: option.split sum.split prod.split)

lemma named_complete: "nodes_named (c_nodes s) \<Longrightarrow> nodes_named (c_nodes (fst (apply_job_complete now ts p s)))"
  by (cases rule: apply_job_complete_cases [of now ts p s]) simp_all

lemma named_node_ops:
  assumes "nodes_named (c_nodes s)"
  shows "nodes_named (c_nodes (fst (apply_node_register cfg now nr s)))"
    and "nodes_named (c_nodes (fst (apply_node_update cfg now nu s)))"
    and "nodes_named (c_nodes (fst (apply_node_state_change now ts p s)))"
    and "nodes_named (c_nodes (fst (apply_node_labels_update cfg n st rm s)))"
    and "nodes_named (c_nodes (fst (apply_node_remove now ts n r s)))"
    and "nodes_named (c_nodes (fst (apply_node_k0s_assign n role m c s)))"
    and "nodes_named (c_nodes (fst (apply_node_k0s_clear n s)))"
    and "nodes_named (c_nodes (fst (apply_node_k0s_set_error n e s)))"
proof -
  show "nodes_named (c_nodes (fst (apply_node_update cfg now nu s)))"
  proof (cases "hm_get (c_nodes s) (nu_name nu)")
    case (Some node)
    then have "n_name node = nu_name nu" using assms by (simp add: nodes_named_def)
    then show ?thesis
      using assms Some
      by (auto simp: apply_node_update_def remap_node_gpu_allocations_def Let_def case_prod_unfold intro!: named_insert)
  qed (use assms in \<open>simp add: apply_node_update_def\<close>)
qed (use assms in \<open>auto simp: apply_node_register_def node_new_def apply_node_state_change_def apply_node_labels_update_def
      apply_node_remove_def apply_node_k0s_assign_def apply_node_k0s_clear_def apply_node_k0s_set_error_def nodes_named_def [symmetric]
      Let_def case_prod_unfold intro!: named_insert split: option.split dest: nodes_named_def [THEN iffD1, rule_format]\<close>)

lemma nodes_untouched:
  "c_nodes (fst (apply_job_submit now i spec s)) = c_nodes s" "c_nodes (fst (apply_job_state_change cfg now ts p s)) = c_nodes s"
  "c_nodes (fst (apply_job_suspend now i at pb q who s)) = c_nodes s" "c_nodes (fst (apply_job_resume now i at s)) = c_nodes s"
  "c_nodes (fst (apply_job_cancel_signaled now i at c s)) = c_nodes s"
  "c_nodes (fst (apply_job_time_limit_expired now i ra at s)) = c_nodes s"
  "c_nodes (fst (apply_job_time_limit_signaled i at s)) = c_nodes s"
  "c_nodes (fst (apply_job_preempt_signaled i pending s)) = c_nodes s"
  "c_nodes (fst (apply_job_launch_failure_detail i d s)) = c_nodes s"
  "c_nodes (fst (apply_job_exclude_update i e s)) = c_nodes s" "c_nodes (fst (apply_job_step_create step s)) = c_nodes s"
  "c_nodes (fst (apply_job_step_complete ts i sid x s)) = c_nodes s" "c_nodes (fst (apply_reservation_delete n s)) = c_nodes s"
  "c_nodes (fst (apply_reservation_create rv s)) = c_nodes s" "c_nodes (fst (apply_k0s_set_phase kp s)) = c_nodes s"
  "c_nodes (fst (apply_evict_terminal_jobs ids s)) = c_nodes s"
  by (simp_all add: apply_job_submit_def apply_job_state_change_def apply_job_suspend_def apply_job_resume_def
      apply_job_cancel_signaled_def apply_job_time_limit_expired_def apply_job_time_limit_signaled_def
      apply_job_preempt_signaled_def apply_job_launch_failure_detail_def apply_job_exclude_update_def apply_job_step_create_def
      apply_job_step_complete_def apply_reservation_delete_def apply_reservation_create_def apply_k0s_set_phase_def
      apply_evict_terminal_jobs_def Let_def case_prod_unfold split: option.split sum.split prod.split transition_outcome.split)

lemma named_partition_ops:
  assumes "nodes_named (c_nodes s)"
  shows "nodes_named (c_nodes (fst (apply_partition_create cfg p s)))"
    and "nodes_named (c_nodes (fst (apply_partition_update cfg u s)))"
    and "nodes_named (c_nodes (fst (apply_partition_delete cfg n s)))"
  using assms
  by (auto simp: apply_partition_create_def apply_partition_update_def apply_partition_delete_def Let_def split: option.split)

lemma named_apply_operation: "nodes_named (c_nodes s) \<Longrightarrow> nodes_named (c_nodes (fst (apply_operation cfg now op s)))"
  by (cases op) (simp_all add: apply_operation_def Let_def nodes_untouched named_job_ops named_complete named_node_ops
      named_partition_ops apply_token_create_def apply_token_revoke_def apply_reservation_update_def
      apply_k0s_member_nodes_add_def apply_k0s_member_nodes_remove_def)

section \<open>Jobs\<close>

definition jobs_keyed :: "(job_id, job) hashmap \<Rightarrow> bool" where
  "jobs_keyed jobs = (\<forall>i job. hm_get jobs i = Some job \<longrightarrow> j_job_id job = i)"

lemma submitted_job_id:
  "hm_get (c_jobs (fst (apply_job_submit now i spec s))) i = Some job \<Longrightarrow> j_job_id job = i \<and> j_state job = Pending"
  by (auto simp: apply_job_submit_def Let_def hm_simps job_new_def split: option.splits if_splits)

lemma keyed_apply_entry:
  assumes "jobs_keyed (c_jobs s)"
  shows "jobs_keyed (c_jobs (apply_entry cfg s e))"
  unfolding jobs_keyed_def
proof (intro allI impI)
  fix i job' assume job': "hm_get (c_jobs (apply_entry cfg s e)) i = Some job'"
  show "j_job_id job' = i"
  proof (cases "submits i (snd e)")
    case True
    then show ?thesis
      using job' submitted_job_id by (auto simp: submits_def apply_entry_def apply_operation_def Let_def split: wal_operation.splits)
  next
    case False
    show ?thesis
    proof (cases "hm_get (c_jobs s) i")
      case None
      then show ?thesis using absent_step [OF None False, of cfg] job' by simp
    next
      case (Some job)
      then show ?thesis
        using present_step [OF Some False, of cfg] job' assms by (metis evolves_def jobs_keyed_def option.distinct(1) option.inject)
    qed
  qed
qed

definition well_keyed :: "cluster \<Rightarrow> bool" where
  "well_keyed s = (jobs_keyed (c_jobs s) \<and> nodes_named (c_nodes s))"

interpretation keys: replicated_machine "apply_entry cfg" "\<lambda>_ _. True" well_keyed for cfg
  using keyed_apply_entry named_apply_operation by unfold_locales (auto simp: well_keyed_def apply_entry_def)

end
