(* ===== verification/Charge_Rename.thy ===== *)
theory Charge_Rename
  imports Node_Names
begin

text \<open>
  GPU ids carried over a re-registration: renaming the ids held on a node and in the slices of its jobs
  keeps the balance, as long as no two held ids become one.
\<close>

section \<open>Renamed quantities\<close>

definition renames_apart :: "(u64, u64) hashmap \<Rightarrow> resource_allocations \<Rightarrow> bool" where
  "renames_apart renamed alloc =
     (case hm_get (ra_devices alloc) gpu_gres of
        None \<Rightarrow> True
      | Some ds \<Rightarrow> distinct (map (\<lambda>d. or_self (ad_device_id d) (hm_get renamed (ad_device_id d))) ds))"

text \<open>What a view of quantities becomes: an id collects the ids renamed to it.\<close>

fun renamed_view :: "(u64, u64) hashmap \<Rightarrow> (quantity \<Rightarrow> nat) \<Rightarrow> quantity \<Rightarrow> nat" where
  "renamed_view renamed v (QDevice g i) =
     (if g = gpu_gres then (\<Sum>k | or_self k (hm_get renamed k) = i. v (QDevice g k)) else v (QDevice g i))"
| "renamed_view renamed v q = v q"

lemma dev_total_rename:
  fixes f :: "u64 \<Rightarrow> u64"
  shows "dev_total i (map (\<lambda>d. d\<lparr>ad_device_id := f (ad_device_id d)\<rparr>) ds) = (\<Sum>k | f k = i. dev_total k ds)"
proof (induction ds)
  case (Cons d ds)
  have "(\<Sum>k | f k = i. if ad_device_id d = k then unat (ad_count d) else 0) = (if f (ad_device_id d) = i then unat (ad_count d) else 0)"
    by (simp add: sum.delta)
  then show ?case using Cons by (simp add: sum.distrib)
qed simp

lemma view_rename: "ra_view (rename_gpu_ids renamed a) q = renamed_view renamed (ra_view a) q"
  using dev_total_rename [where f = "\<lambda>k. or_self k (hm_get renamed k)"]
  by (cases q) (auto simp: rename_gpu_ids_def hm_simps split: option.split)

lemma renamed_view_zero [simp]: "renamed_view renamed (\<lambda>_. 0) q = 0"
  by (cases q) simp_all

lemma renamed_view_sum:
  "hm_sum (\<lambda>i v. renamed_view renamed (f i v) q) m = renamed_view renamed (\<lambda>q. hm_sum (\<lambda>i v. f i v q) m) q"
proof (induction m)
  case (Cons e m)
  then show ?case by (cases e; cases q) (simp_all add: sum.distrib)
qed (simp add: hm_sum_def)

lemma view_scalar: "renamed_view renamed (ra_view (with_scalar c m)) q = ra_view (with_scalar c m) q"
  by (cases q) (simp_all add: with_scalar_def ra_default_def)

section \<open>Renamed jobs and nodes\<close>

lemma rename_ok [simp]: "ra_ok a \<Longrightarrow> ra_ok (rename_gpu_ids renamed a)"
  by (simp add: ra_ok_def rename_gpu_ids_def)

lemma rename_wf:
  assumes "ra_wf a" and "renames_apart renamed a"
  shows "ra_wf (rename_gpu_ids renamed a)"
proof (rule ra_wfI)
  show "hm_wf (ra_devices (rename_gpu_ids renamed a))" using assms(1) by (simp add: ra_wf_def rename_gpu_ids_def)
  fix g es assume "hm_get (ra_devices (rename_gpu_ids renamed a)) g = Some es"
  then show "distinct (map ad_device_id es)"
    using assms ra_wf_entry [OF assms(1)]
    by (auto simp: rename_gpu_ids_def renames_apart_def hm_simps comp_def split: if_splits)
qed

lemma remap_job_fields [simp]:
  "j_state (remap_job renamed n job) = j_state job" "is_held_on (remap_job renamed n job) m = is_held_on job m"
  "j_allocated_nodes (remap_job renamed n job) = j_allocated_nodes job"
  "j_node_completions (remap_job renamed n job) = j_node_completions job"
  by (simp_all add: remap_job_def is_held_on_def)

lemma remap_slice:
  assumes "\<not> is_terminal (j_state job)"
  shows "ra_view (job_slice (remap_job renamed n job) m) q =
     (if m = n then renamed_view renamed (ra_view (job_slice job n)) q else ra_view (job_slice job m) q)"
proof (cases "j_allocated_resources job")
  case None
  then show ?thesis using assms by (cases q) (simp_all add: job_slice_def remap_job_def ra_default_def)
next
  case (Some tot)
  then show ?thesis
    using assms by (cases "hm_get (j_per_node_alloc job) n")
      (auto simp: job_slice_def remap_job_def slice_for_def hm_simps view_rename view_scalar Let_def split: option.split)
qed

lemma remap_charge:
  "job_charge (remap_job renamed n job) m q =
     (if m = n then renamed_view renamed (job_charge job n) q else job_charge job m q)"
proof (cases "holds_charge job m")
  case True
  then have "\<not> is_terminal (j_state job)" using terminal_not_charging by (auto simp: holds_charge_def)
  then show ?thesis using True remap_slice by (auto simp: job_charge_def [abs_def] holds_charge_def)
next
  case False
  then show ?thesis by (auto simp: job_charge_def [abs_def] holds_charge_def)
qed

lemma charged_remap:
  "charged (map (\<lambda>(i, j). (i, remap_job renamed n j)) jobs) m q =
     (if m = n then renamed_view renamed (charged jobs n) q else charged jobs m q)"
  unfolding charged_def [abs_def]
  using hm_sum_map_values [of "\<lambda>_ j. job_charge j m q" "\<lambda>_. remap_job renamed n" jobs]
    renamed_view_sum [of renamed "\<lambda>_ j. job_charge j n" q jobs]
  by (simp add: remap_charge)

lemma remap_slice_ok: "\<forall>m. ra_ok (job_slice job m) \<Longrightarrow> ra_ok (job_slice (remap_job renamed n job) m)"
  by (erule allE [of _ m]) (auto simp: job_slice_def remap_job_def slice_for_def hm_simps Let_def split: option.splits)

lemma remap_job_ok: "job_ok job \<Longrightarrow> job_ok (remap_job renamed n job)"
  using remap_slice_ok [of job] by (simp add: job_ok_def)

lemma balanced_remap:
  assumes "balanced jobs nodes" and "hm_get nodes n = Some node" and "renames_apart renamed (n_alloc_resources node)"
    and "n_alloc_resources node' = rename_gpu_ids renamed (n_alloc_resources node)"
  shows "balanced (map (\<lambda>(i, j). (i, remap_job renamed n j)) jobs) (hm_insert n node' nodes)"
proof -
  have v: "ra_wf (n_alloc_resources node)" "ra_view (n_alloc_resources node) = charged jobs n"
    using balanced_nodeD [OF assms(1,2)] by auto
  have "node_ok (map (\<lambda>(i, j). (i, remap_job renamed n j)) jobs) n node'"
    using rename_wf [OF v(1) assms(3)] by (simp add: node_ok_def assms(4) view_rename v(2) charged_remap)
  then show ?thesis
    using assms(1,2) by (auto simp: balanced_def node_ok_def hm_simps charged_remap hm_get_map_values remap_job_ok)
qed

lemma bal_node_update:
  assumes "bal s" and "nodes_named (c_nodes s)"
    and "\<And>node. hm_get (c_nodes s) (nu_name p) = Some node \<Longrightarrow>
      renames_apart (safe_renames (diff_layout (map gr_stable_id (rs_gpus (n_detected_resources node)))
        (map gr_stable_id (rs_gpus (backfill_stable_ids (nu_resources p)))))) (n_alloc_resources node)"
  shows "bal (fst (apply_node_update cfg now p s))"
proof (cases "hm_get (c_nodes s) (nu_name p)")
  case (Some node)
  have name: "n_name node = nu_name p" using assms(2) Some by (simp add: nodes_named_def)
  define renamed where "renamed = safe_renames (diff_layout (map gr_stable_id (rs_gpus (n_detected_resources node)))
      (map gr_stable_id (rs_gpus (backfill_stable_ids (nu_resources p)))))"
  show ?thesis
  proof (cases "renamed = []")
    case True
    then show ?thesis
      using assms(1) Some unfolding renamed_def
      by (auto simp: apply_node_update_def Let_def remap_node_gpu_allocations_def hm_simps balanced_def node_ok_def split: if_splits)
  next
    case False
    then show ?thesis
      using balanced_remap [OF assms(1) Some, of renamed] assms(3) [OF Some] Some
      unfolding apply_node_update_def Some option.case Let_def renamed_def [symmetric]
      by (simp add: remap_node_gpu_allocations_def name)
  qed
qed (use assms in \<open>simp add: apply_node_update_def\<close>)

end
