(* ===== verification/Charge_Log.thy ===== *)
theory Charge_Log
  imports Charge_Rename
begin

text \<open>
  The balance along the whole log: the operations on nodes, partitions, reservations and the
  managed cluster, the condition under which each entry is admissible, and the interpretation of the
  replicated-machine interface on \<^verbatim>\<open>apply_operation\<close>.
\<close>

section \<open>Nodes\<close>

lemma change_node_state_alloc [simp]: "n_alloc_resources (change_node_state p node) = n_alloc_resources node"
  by (simp add: change_node_state_def Let_def)

lemma bal_node_state_change: "bal s \<Longrightarrow> bal (fst (apply_node_state_change now ts p s))"
  using bal_evict_node balanced_modify_node [where f = "change_node_state p"]
  by (auto simp: apply_node_state_change_def Let_def case_prod_unfold)

lemma bal_node_labels_update: "bal s \<Longrightarrow> bal (fst (apply_node_labels_update cfg n st rm s))"
  by (simp add: apply_node_labels_update_def balanced_modify_node Let_def)

text \<open>Evicting a node leaves no job on it: running jobs are ended, reserved ones put back in the queue.\<close>

lemma evict_all_outside: "k \<notin> set ids \<Longrightarrow> hm_get (fst (evict_all now ts f ids jobs nodes)) k = hm_get jobs k"
  by (induction ids arbitrary: jobs nodes) (simp_all add: case_prod_unfold Let_def frame_evict)

lemma evict_job_ends:
  assumes "hm_get (fst (evict_job_locked now i ts r f jobs nodes)) k = Some job'" and "hm_get jobs k = Some job"
    and "is_active (j_state job) \<and> k = i \<or> is_terminal (j_state job)"
  shows "is_terminal (j_state job')"
  using assms evicted_state_terminal(1) active_can_be_evicted
  by (cases rule: evict_job_locked_cases [of jobs i now ts r f nodes, where c = "[]"]) (auto simp: hm_simps split: if_splits)

lemma evict_all_ends:
  "hm_get (fst (evict_all now ts f ids jobs nodes)) k = Some job' \<Longrightarrow> hm_get jobs k = Some job \<Longrightarrow>
   is_active (j_state job) \<and> k \<in> set ids \<or> is_terminal (j_state job) \<Longrightarrow> is_terminal (j_state job')"
proof (induction ids arbitrary: jobs nodes job)
  case (Cons i ids)
  define r where "r = evict_job_locked now i ts PR_NodeDown (Some f) jobs nodes"
  have dom: "rel_option (evolves evict_moves) (Some job) (hm_get (fst r) k)"
    using evict_job_evolves [of jobs now i ts PR_NodeDown "Some f" nodes] Cons.prems(2) by (metis r_def table_evolves_def)
  then obtain job1 where job1: "hm_get (fst r) k = Some job1" by (metis option_rel_Some1)
  have "is_active (j_state job1) \<and> k \<in> set ids \<or> is_terminal (j_state job1)"
  proof (cases "k = i \<or> is_terminal (j_state job)")
    case True
    then show ?thesis using evict_job_ends [of now i ts PR_NodeDown "Some f" jobs nodes k job1 job] job1 Cons.prems by (auto simp: r_def)
  next
    case False
    then show ?thesis using frame_evict [of k i now ts PR_NodeDown "Some f" jobs nodes] job1 Cons.prems by (auto simp: r_def)
  qed
  then show ?case using Cons.IH [OF _ job1] Cons.prems(1) by (simp add: case_prod_unfold Let_def r_def)
qed simp

lemma evict_stranded_outside: "k \<notin> set ids \<Longrightarrow> hm_get (fst (foldl (\<lambda>t i. evict_stranded i t) t ids)) k = hm_get (fst t) k"
  by (induction ids arbitrary: t) (simp_all add: evict_stranded_def case_prod_unfold hm_simps split: option.split)

lemma evict_stranded_clears:
  "hm_get (fst (foldl (\<lambda>t i. evict_stranded i t) t ids)) k = Some job' \<Longrightarrow>
   k \<in> set ids \<or> (\<forall>job. hm_get (fst t) k = Some job \<longrightarrow> cleared job) \<Longrightarrow> cleared job'"
proof (induction ids arbitrary: t)
  case (Cons i ids)
  have "k \<in> set ids \<or> (\<forall>job. hm_get (fst (evict_stranded i t)) k = Some job \<longrightarrow> cleared job)"
    using Cons.prems(2) by (auto simp: evict_stranded_def case_prod_unfold hm_simps cleared_update split: option.splits)
  then show ?case using Cons.IH Cons.prems(1) by simp
qed simp

lemma evict_node_clears:
  assumes wf: "hm_wf (c_jobs s)" and "hm_get (c_jobs (fst (evict_node now n f ts s))) k = Some job'"
  shows "\<not> holds_charge job' n"
proof
  assume held: "holds_charge job' n"
  define affected where "affected = map fst (filter (\<lambda>(_, j). j_state j \<in> {Running, Completing, Suspended} \<and> is_held_on j n) (c_jobs s))"
  define r where "r = evict_all now ts f affected (c_jobs s) (c_nodes s)"
  define stranded where "stranded = map fst (filter (\<lambda>(_, j). j_state j = Pending \<and> is_held_on j n) (fst r))"
  have job': "hm_get (fst (foldl (\<lambda>t i. evict_stranded i t) (fst r, fst (snd r)) stranded)) k = Some job'"
    using assms(2) unfolding evict_node_def evict_jobs_on_node_def Let_def affected_def [symmetric] r_def [symmetric]
    by (simp add: case_prod_unfold stranded_def r_def fold_record_preempt_fields [unfolded case_prod_unfold])
  have "k \<notin> set stranded"
    using evict_stranded_clears [OF job'] held by (auto simp: cleared_def holds_charge_def is_held_on_def)
  then have 1: "hm_get (fst r) k = Some job'" using evict_stranded_outside [of k stranded "(fst r, fst (snd r))"] job' by simp
  have "j_state job' \<noteq> Pending"
    using \<open>k \<notin> set stranded\<close> hm_get_mem [OF 1] held by (force simp: stranded_def holds_charge_def)
  then have act: "is_active (j_state job')" "is_held_on job' n" using held by (auto simp: holds_charge_def charging_cases)
  have hit: "k \<in> set affected"
  proof (rule ccontr)
    assume "k \<notin> set affected"
    moreover from this have "hm_get (c_jobs s) k = Some job'" using evict_all_outside [of k affected] 1 by (simp add: r_def)
    ultimately show False using hm_get_mem act by (force simp: affected_def is_active_def)
  qed
  then obtain job where "hm_get (c_jobs s) k = Some job" "is_active (j_state job)"
    using hm_mem_get [OF wf] by (fastforce simp: affected_def is_active_def)
  then have "is_terminal (j_state job')" using evict_all_ends 1 hit unfolding r_def by blast
  then show False using act by (auto simp: is_active_def is_terminal_def)
qed

lemma charged_zero:
  assumes "hm_wf jobs" and "\<And>i job. hm_get jobs i = Some job \<Longrightarrow> \<not> holds_charge job n"
  shows "charged jobs n q = 0"
proof -
  have "job_charge job n q = 0" if "(i, job) \<in> set jobs" for i job
    using assms(2) hm_mem_get [OF assms(1) that] by (auto simp: job_charge_def)
  then have "charged jobs n q = hm_sum (\<lambda>_ _. 0) jobs"
    unfolding charged_def by (rule hm_sum_cong)
  then show ?thesis by (simp add: hm_sum_def case_prod_unfold)
qed

lemma balanced_remove:
  assumes "balanced jobs nodes" and "\<And>i job. hm_get jobs i = Some job \<Longrightarrow> \<not> holds_charge job n"
  shows "balanced jobs (hm_remove n nodes)"
  using assms(1) charged_zero [OF _ assms(2)] by (auto simp: balanced_def hm_simps)

lemma bal_node_remove:
  assumes "bal s"
  shows "bal (fst (apply_node_remove now ts n r s))"
proof -
  have wf: "hm_wf (c_jobs s)" using assms by (simp add: balanced_def)
  have "balanced (c_jobs (fst (evict_node now n f ts s))) (hm_remove n (c_nodes (fst (evict_node now n f ts s))))" for f
    using balanced_remove [OF bal_evict_node [OF assms]] evict_node_clears [OF wf] by blast
  then show ?thesis by (simp add: apply_node_remove_def Let_def case_prod_unfold split: option.split)
qed

lemma bal_node_register:
  assumes "bal s" and "hm_get (c_nodes s) (nr_name p) = None"
  shows "bal (fst (apply_node_register cfg now p s))"
  using assms by (auto simp: apply_node_register_def Let_def balanced_def hm_simps node_ok_def node_new_def)

section \<open>Partitions, reservations and the managed cluster\<close>

lemma bal_reconcile: "bal s \<Longrightarrow> bal (reconcile cfg s)"
  unfolding reconcile_def reconcile_partitions_def
  by (auto simp: balanced_def hm_get_map_values node_ok_def)

lemma bal_partition_create: "bal s \<Longrightarrow> bal (fst (apply_partition_create cfg p s))"
  by (auto simp: apply_partition_create_def Let_def split: option.split intro!: bal_reconcile)

lemma bal_partition_update: "bal s \<Longrightarrow> bal (fst (apply_partition_update cfg u s))"
  by (auto simp: apply_partition_update_def Let_def intro!: bal_reconcile)

lemma bal_partition_delete: "bal s \<Longrightarrow> bal (fst (apply_partition_delete cfg n s))"
  by (auto simp: apply_partition_delete_def Let_def intro!: bal_reconcile)

lemma deleted_reservation_jobs [simp]:
  "placement (hold_jobs_for_deleted_reservation_jobs n job) = placement job"
  "j_state (hold_jobs_for_deleted_reservation_jobs n job) = j_state job"
  "placement (detach_jobs_from_deleted_reservation_jobs n job) = placement job"
  "j_state (detach_jobs_from_deleted_reservation_jobs n job) = j_state job"
  by (simp_all add: hold_jobs_for_deleted_reservation_jobs_def detach_jobs_from_deleted_reservation_jobs_def Let_def)

lemma bal_reservation_delete: "bal s \<Longrightarrow> bal (fst (apply_reservation_delete n s))"
  by (auto simp: apply_reservation_delete_def Let_def intro: balanced_map_jobs split: option.split)

lemma balanced_insert_node:
  assumes "balanced jobs nodes" and "hm_get nodes n = Some node" and "n_alloc_resources node' = n_alloc_resources node"
  shows "balanced jobs (hm_insert n node' nodes)"
  using assms by (auto simp: balanced_def hm_simps node_ok_def)

lemma bal_node_k0s:
  assumes "bal s"
  shows "bal (fst (apply_node_k0s_assign n r m c s))" and "bal (fst (apply_node_k0s_clear n s))"
    and "bal (fst (apply_node_k0s_set_error n e s))"
  using assms
  by (auto simp: apply_node_k0s_assign_def apply_node_k0s_clear_def apply_node_k0s_set_error_def Let_def balanced_modify_node
      intro: balanced_insert_node split: option.split)

lemma finalized_charge: "is_finalized (j_state job) \<Longrightarrow> job_charge job n q = 0"
  by (rule ended_charge) (cases "j_state job"; simp add: is_finalized_def is_terminal_def charging_def)

lemma balanced_retain:
  assumes "balanced jobs nodes" and "\<And>i job. hm_get jobs i = Some job \<Longrightarrow> \<not> keep i \<Longrightarrow> is_finalized (j_state job)"
  shows "balanced (hm_retain (\<lambda>i _. keep i) jobs) nodes"
proof -
  have wf: "hm_wf jobs" using assms(1) by (simp add: balanced_def)
  have "charged (hm_retain (\<lambda>i _. keep i) jobs) n q = charged jobs n q" for n q
    unfolding charged_def using assms(2) hm_mem_get [OF wf] finalized_charge by (intro hm_sum_retain) blast
  then show ?thesis
    using assms(1) wf by (auto simp: balanced_def node_ok_def hm_get_retain split: option.splits if_splits)
qed

lemma bal_evict_terminal_jobs:
  assumes "bal s"
  shows "bal (fst (apply_evict_terminal_jobs ids s))"
  unfolding apply_evict_terminal_jobs_def Let_def
  using assms by (auto intro!: balanced_retain split: option.splits)

section \<open>Admissible entries\<close>

definition admissible :: "cluster \<Rightarrow> wal_operation \<Rightarrow> bool" where
  "admissible s op =
     (case op of
        JobSubmit i _ \<Rightarrow> hm_get (c_jobs s) i = None
      | JobStateChange p \<Rightarrow> sc_new_state p \<in> {Running, Pending}
      | JobStart p \<Rightarrow> start_ok p s
      | JobComplete p \<Rightarrow> is_terminal (jc_state p)
      | JobNodeComplete i name _ _ _ _ \<Rightarrow>
          (case hm_get (c_jobs s) i of
             None \<Rightarrow> True
           | Some job \<Rightarrow> is_active (j_state job) \<longrightarrow> name \<in> set (j_allocated_nodes job))
      | NodeRegister p \<Rightarrow> hm_get (c_nodes s) (nr_name p) = None
      | NodeUpdate p \<Rightarrow>
          (case hm_get (c_nodes s) (nu_name p) of
             None \<Rightarrow> True
           | Some node \<Rightarrow>
               renames_apart (safe_renames (diff_layout (map gr_stable_id (rs_gpus (n_detected_resources node)))
                 (map gr_stable_id (rs_gpus (backfill_stable_ids (nu_resources p)))))) (n_alloc_resources node))
      | _ \<Rightarrow> True)"

lemmas bal_ops = bal_job_submit bal_job_state_change bal_job_dispatch_backoff bal_job_priority_change
  bal_job_preempt_requeue bal_job_user_requeue bal_job_preempt_cancel bal_job_suspend bal_job_resume bal_job_evict
  bal_job_start bal_job_node_complete bal_job_cancel_signaled bal_job_time_limit_expired bal_job_time_limit_signaled
  bal_job_launch_failure_detail bal_job_preempt_signaled bal_job_exclude_update bal_job_step_complete
  bal_job_step_create bal_job_complete bal_node_state_change bal_node_labels_update bal_node_remove
  bal_partition_create bal_partition_update bal_partition_delete bal_reservation_delete bal_node_k0s
  bal_evict_terminal_jobs

lemma bal_apply_operation:
  assumes "bal s" and "nodes_named (c_nodes s)" and "admissible s op"
  shows "bal (fst (apply_operation cfg now op s))"
proof (cases op)
  case (JobNodeComplete i name c g r at)
  then show ?thesis
    using assms by (auto simp: apply_operation_def admissible_def Let_def intro!: bal_job_node_complete split: option.splits)
next
  case (NodeRegister p)
  then show ?thesis
    using assms
    by (simp add: apply_operation_def admissible_def Let_def bal_node_register)
next
  case (NodeUpdate p)
  then show ?thesis
    using assms by (auto simp: apply_operation_def admissible_def Let_def intro!: bal_node_update)
qed (use assms in \<open>simp_all add: apply_operation_def admissible_def Let_def bal_ops apply_token_create_def
      apply_token_revoke_def apply_reservation_create_def apply_reservation_update_def apply_k0s_member_nodes_add_def
      apply_k0s_member_nodes_remove_def apply_k0s_set_phase_def\<close>)

section \<open>The replicated machine\<close>

definition entry_ok :: "cluster \<Rightarrow> instant \<times> wal_operation \<Rightarrow> bool" where
  "entry_ok s e = admissible s (snd e)"

interpretation charges: replicated_machine "apply_entry cfg" entry_ok "\<lambda>s. bal s \<and> nodes_named (c_nodes s)" for cfg
  by unfold_locales (simp add: apply_entry_def entry_ok_def bal_apply_operation named_apply_operation)

lemma cluster_new_balanced: "bal (cluster_new parts first) \<and> nodes_named (c_nodes (cluster_new parts first))"
  by (simp add: cluster_new_def balanced_def nodes_named_def charged_def)

end
