(* ===== verification/Log_Props.thy ===== *)
theory Log_Props
  imports Charge_Log
begin

text \<open>
  What the replicated log guarantees, from a fresh controller on: the node ledgers, the life of a job,
  evictions, and the keys of the tables.
\<close>

section \<open>A sample log\<close>

text \<open>
  A node registers; a job is submitted, reserved on the node, activated, and its node reports; the clock
  is in nanoseconds.
\<close>

definition sample_spec :: job_spec where
  "sample_spec = job_spec_default\<lparr>js_name := ''train'', js_user := ''ada''\<rparr>"

definition sample_register :: node_register where
  "sample_register = \<lparr>nr_name = ''n1'', nr_hostname = ''n1'', nr_resources = rs_default\<lparr>rs_cpus := 8, rs_memory_mb := 16000\<rparr>,
     nr_address = ''10.0.0.1'', nr_port = 6818, nr_wg_pubkey = [], nr_version = ''1.0'', nr_labels = [],
     nr_source = NativeHost, nr_capabilities = []\<rparr>"

definition sample_start :: job_start where
  "sample_start = \<lparr>sr_job_id = 1, sr_nodes = [''n1''], sr_resources = with_scalar 2 4000,
     sr_per_node_alloc = [(''n1'', with_scalar 2 4000)], sr_srun_step_dispatch = False, sr_run_attempt = 1,
     sr_idle_fill = False, sr_at = None\<rparr>"

definition sample_config :: cluster_config where
  "sample_config = \<lparr>cc_max_batch_requeue = 5, cc_nodes = []\<rparr>"

definition sample_log :: "(instant \<times> wal_operation) list" where
  "sample_log = [(10, NodeRegister sample_register), (20, JobSubmit 1 sample_spec), (30, JobStart sample_start)]"

definition sample_registered :: cluster where
  "sample_registered = apply_entry sample_config (cluster_new [] 1) (10, NodeRegister sample_register)"

definition sample_submitted :: cluster where
  "sample_submitted = apply_entry sample_config sample_registered (20, JobSubmit 1 sample_spec)"

definition sample_reserved :: cluster where
  "sample_reserved = apply_entry sample_config sample_submitted (30, JobStart sample_start)"

lemma sample_final: "foldl (apply_entry sample_config) (cluster_new [] 1) sample_log = sample_reserved"
  by (simp add: sample_log_def sample_registered_def sample_submitted_def sample_reserved_def)

lemma sample_node:
  "\<exists>node. c_nodes sample_registered = [(''n1'', node)] \<and> n_alloc_resources node = ra_default" "c_jobs sample_registered = []"
  by (simp_all add: sample_registered_def apply_entry_def apply_operation_def apply_node_register_def sample_register_def
      cluster_new_def Let_def node_new_def)

lemma sample_job:
  "c_jobs sample_submitted = [(1, job_new 20 1 sample_spec)]" "c_nodes sample_submitted = c_nodes sample_registered"
  by (simp_all add: sample_submitted_def apply_entry_def apply_operation_def apply_job_submit_def put_job_def sample_node
      sample_spec_def job_spec_default_def Let_def)

lemma sample_start_ok: "start_ok sample_start sample_submitted"
proof -
  have "ra_view ra_default q + ra_view (with_scalar 2 4000) q \<le> ra_cap q" for q
    by (cases q) (simp_all add: with_scalar_def ra_default_def)
  moreover have "ra_ok (with_scalar c m)" for c m by (simp add: ra_ok_def with_scalar_def ra_default_def)
  ultimately show ?thesis
    using sample_node(1) by (auto simp: start_ok_def sample_start_def fits_def slice_for_def sample_job job_new_def)
qed

lemma sample_admissible: "admissible_run (apply_entry sample_config) entry_ok (cluster_new [] 1) sample_log"
  unfolding sample_log_def admissible_run.simps sample_registered_def [symmetric] sample_submitted_def [symmetric]
  using sample_start_ok by (simp add: entry_ok_def admissible_def sample_node(2)) (simp add: cluster_new_def)

lemma sample_reserved_node:
  "\<exists>node. hm_get (c_nodes sample_reserved) ''n1'' = Some node \<and> ra_cpus (n_alloc_resources node) = 2"
proof -
  have "\<not> holds_a_placement (job_new 20 1 sample_spec)" "excluded_node (job_new 20 1 sample_spec) [''n1''] = None"
    by (simp_all add: holds_a_placement_def job_new_def excluded_node_def sample_spec_def job_spec_default_def)
  then show ?thesis
    using sample_node(1) unfolding sample_reserved_def
    by (auto simp: apply_entry_def apply_operation_def apply_job_start_def sample_start_def sample_job Let_def hm_simps
        allocate_job_slices_def slice_for_def ra_add_def with_scalar_def ra_default_def sat_add_def)
qed

section \<open>The ledgers of the nodes\<close>

text \<open>
  C1. From a fresh controller on, and whatever admissible entries the log holds, every registered node's
  allocation is in every quantity (CPUs, memory, each device) exactly what the jobs placed on it and not yet
  reported hold there: nothing leaks and nothing is counted twice.
\<close>

theorem admissible_log_keeps_ledgers:
  assumes "admissible_run (apply_entry cfg) entry_ok (cluster_new parts first) es"
    and "hm_get (c_nodes (foldl (apply_entry cfg) (cluster_new parts first) es)) n = Some node"
  shows "ra_view (n_alloc_resources node) q = charged (c_jobs (foldl (apply_entry cfg) (cluster_new parts first) es)) n q"
  using balanced_nodeD [OF conjunct1 [OF charges.inv_run [OF cluster_new_balanced assms(1)]] assms(2)] by blast

theorem admissible_log_keeps_ledgers_witness:
  "charged (c_jobs (foldl (apply_entry sample_config) (cluster_new [] 1) sample_log)) ''n1'' QCpus = 2"
proof -
  obtain node where node: "hm_get (c_nodes sample_reserved) ''n1'' = Some node" "ra_cpus (n_alloc_resources node) = 2"
    using sample_reserved_node by blast
  have "hm_get (c_nodes (foldl (apply_entry sample_config) (cluster_new [] 1) sample_log)) ''n1'' = Some node"
    using node(1) by (simp add: sample_final)
  from admissible_log_keeps_ledgers [OF sample_admissible this, of QCpus] show ?thesis using node(2) by simp
qed

section \<open>The life of a job\<close>

text \<open>
  C2. The log refines the life of a job: over any entries that do not submit the id again, a known job keeps its
  id, owner and submission time, its run number never falls, and its states are a run of the
  specification in which only entries that name the job, or take a node down, move it. A job disappears only
  when a retention entry names it and it had finished.
\<close>

theorem log_refines_lifecycle:
  assumes "hm_get (c_jobs s) i = Some job" and "list_all (\<lambda>e. \<not> submits i (snd e)) es"
  shows "case hm_get (c_jobs (foldl (apply_entry cfg) s es)) i of
      Some job' \<Rightarrow> j_job_id job' = j_job_id job \<and> js_user (j_spec job') = js_user (j_spec job)
        \<and> j_submit_time job' = j_submit_time job \<and> j_run_attempt job \<le> j_run_attempt job'
        \<and> life_run i (map snd es) (j_state job) (j_state job')
    | None \<Rightarrow> \<exists>es1 e es2 st. es = es1 @ e # es2 \<and> retires i (snd e)
        \<and> life_run i (map snd es1) (j_state job) st \<and> is_finalized st"
  using present_run [OF assms, of cfg] by (elim disjE exE conjE) (simp add: evolves_def, simp only: option.case, blast)

theorem log_refines_lifecycle_witness:
  "case hm_get (c_jobs (foldl (apply_entry sample_config) sample_submitted [(30, JobStart sample_start)])) 1 of
      Some job' \<Rightarrow> js_user (j_spec job') = ''ada'' \<and> life_run 1 [JobStart sample_start] Pending (j_state job')
    | None \<Rightarrow> False"
proof -
  have job: "hm_get (c_jobs sample_submitted) 1 = Some (job_new 20 1 sample_spec)" by (simp add: sample_job)
  have "list_all (\<lambda>e. \<not> submits 1 (snd e)) [(30, JobStart sample_start)]" by (simp add: submits_def)
  from log_refines_lifecycle [OF job this, of sample_config] show ?thesis
    by (auto simp: retires_def job_new_def sample_spec_def Cons_eq_append_conv split: option.splits)
qed

text \<open>
  C15. A finished job stays finished: unless an entry requeues it or changes its state by name, no entry of the
  log changes its state, and it disappears only through retention.
\<close>

theorem finished_jobs_stay_finished:
  assumes "hm_get (c_jobs s) i = Some job" and "is_terminal (j_state job)"
    and "list_all (\<lambda>e. \<not> submits i (snd e) \<and> \<not> restarts i (snd e)) es"
  shows "case hm_get (c_jobs (foldl (apply_entry cfg) s es)) i of
      Some job' \<Rightarrow> j_state job' = j_state job
    | None \<Rightarrow> list_ex (\<lambda>e. retires i (snd e)) es"
proof -
  have 1: "list_all (\<lambda>e. \<not> submits i (snd e)) es" and 2: "list_all (\<lambda>op. \<not> restarts i op) (map snd es)"
    using assms(3) by (auto simp: list_all_iff)
  show ?thesis
    using present_run [OF assms(1) 1, of cfg] terminal_run [OF _ assms(2) 2]
    by (auto simp: evolves_def list_ex_iff)
qed

definition sample_finished :: cluster where
  "sample_finished = (cluster_new [] 1)\<lparr>c_jobs := [(1, (job_new 20 1 sample_spec)\<lparr>j_state := Completed\<rparr>)]\<rparr>"

theorem finished_jobs_stay_finished_witness:
  "case hm_get (c_jobs (foldl (apply_entry sample_config) sample_finished
       [(30, JobCancelSignaled 1 30 None), (40, NodeRemove ''n1'' None None)])) 1 of
      Some job' \<Rightarrow> j_state job' = Completed
    | None \<Rightarrow> False"
proof -
  have job: "hm_get (c_jobs sample_finished) 1 = Some ((job_new 20 1 sample_spec)\<lparr>j_state := Completed\<rparr>)"
    by (simp add: sample_finished_def)
  from finished_jobs_stay_finished [OF job, of "[(30, JobCancelSignaled 1 30 None), (40, NodeRemove ''n1'' None None)]" sample_config]
  show ?thesis by (simp add: is_terminal_def submits_def restarts_def retires_def split: option.splits)
qed

text \<open>
  An entry about one job leaves the record of every other job untouched.
\<close>

theorem entry_leaves_other_jobs_alone:
  assumes "names_job op = Some j" and "k \<noteq> j"
  shows "hm_get (c_jobs (fst (apply_operation cfg now op s))) k = hm_get (c_jobs s) k"
  using assms by (rule other_jobs_untouched)

theorem entry_leaves_other_jobs_alone_witness:
  "hm_get (c_jobs (fst (apply_operation sample_config 50 (JobSubmit 2 sample_spec) sample_submitted))) 1
     = Some (job_new 20 1 sample_spec)"
  using entry_leaves_other_jobs_alone [of "JobSubmit 2 sample_spec" 2 1 sample_config 50 sample_submitted]
  by (simp add: names_job_def sample_job)

section \<open>Losing a node\<close>

definition takes_down :: "string \<Rightarrow> wal_operation \<Rightarrow> bool" where
  "takes_down n op =
     (case op of
        NodeRemove m _ _ \<Rightarrow> m = n
      | NodeStateChange p \<Rightarrow> ns_name p = n \<and> ns_new_state p = NS_Down
      | _ \<Rightarrow> False)"

text \<open>
  C5. Removing a node or marking it down leaves no job on it: afterwards no pending, running, completing or
  suspended job holds it.
\<close>

theorem lost_node_has_no_jobs:
  assumes "hm_wf (c_jobs s)" and "takes_down n op"
    and "hm_get (c_jobs (fst (apply_operation cfg now op s))) i = Some job"
  shows "\<not> (j_state job \<in> {Pending, Running, Completing, Suspended} \<and> is_held_on job n)"
proof -
  have "\<not> holds_charge job n"
    using assms evict_node_clears [of s] evict_node_clears [of "s\<lparr>c_nodes := m\<rparr>" for m]
    by (cases op) (auto simp: takes_down_def apply_operation_def apply_node_remove_def apply_node_state_change_def Let_def
        case_prod_unfold split: option.splits)
  then show ?thesis by (simp add: holds_charge_def charging_def)
qed

definition sample_held :: cluster where
  "sample_held = (cluster_new [] 1)\<lparr>c_jobs := [(1, (job_new 20 1 sample_spec)\<lparr>j_state := Running, j_allocated_nodes := [''n1'', ''n2'']\<rparr>)]\<rparr>"

theorem lost_node_has_no_jobs_witness:
  "case hm_get (c_jobs (fst (apply_operation sample_config 50 (NodeRemove ''n1'' None (Some 50)) sample_held))) 1 of
      Some job \<Rightarrow> \<not> (j_state job \<in> {Pending, Running, Completing, Suspended} \<and> is_held_on job ''n1'')
    | None \<Rightarrow> False"
proof -
  have wf: "hm_wf (c_jobs sample_held)" by (simp add: sample_held_def hm_wf_def)
  have down: "takes_down ''n1'' (NodeRemove ''n1'' None (Some 50))" by (simp add: takes_down_def)
  obtain job where "hm_get (c_jobs (fst (apply_operation sample_config 50 (NodeRemove ''n1'' None (Some 50)) sample_held))) 1 = Some job"
    using ordinary_step [of sample_held 1 _ "NodeRemove ''n1'' None (Some 50)" sample_config 50] by (auto simp: sample_held_def)
  with lost_node_has_no_jobs [OF wf down this] show ?thesis by simp
qed

section \<open>Keys\<close>

text \<open>
  C18. The tables stay keyed: in every state the log reaches, a job is stored under its own id and a node
  under its own name.
\<close>

theorem tables_stay_keyed:
  "jobs_keyed (c_jobs (foldl (apply_entry cfg) (cluster_new parts first) es))
   \<and> nodes_named (c_nodes (foldl (apply_entry cfg) (cluster_new parts first) es))"
proof -
  have "well_keyed (cluster_new parts first)"
    by (simp add: well_keyed_def jobs_keyed_def nodes_named_def cluster_new_def)
  moreover have "admissible_run (apply_entry cfg) (\<lambda>_ _. True) s es" for s by (induction es arbitrary: s) simp_all
  ultimately show ?thesis using keys.inv_run by (fastforce simp: well_keyed_def)
qed

end
