(* ===== verification/Replay.thy ===== *)
theory Replay
  imports Log_Props
begin

text \<open>
  Replicas apply the same entries at different instants, and a restarted one applies them again. The theory
  shows which entries give the same state whatever the clock reads, and which may be delivered twice.
\<close>

section \<open>Entries that do not read the clock\<close>

definition clock_free :: "wal_operation \<Rightarrow> bool" where
  "clock_free op =
     (case op of
        JobSubmit _ _ \<Rightarrow> False
      | JobStepComplete _ _ _ \<Rightarrow> False
      | JobPreemptCancel _ _ _ _ _ \<Rightarrow> False
      | NodeRegister _ \<Rightarrow> False
      | NodeUpdate _ \<Rightarrow> False
      | JobStateChange p \<Rightarrow> sc_at p \<noteq> None \<and> \<not> is_terminal (sc_new_state p)
      | JobComplete p \<Rightarrow> jc_at p \<noteq> None
      | JobNodeComplete _ _ _ _ _ at \<Rightarrow> at \<noteq> None
      | JobPreemptRequeue p \<Rightarrow> pq_at p \<noteq> None
      | JobUserRequeue _ _ _ _ at \<Rightarrow> at \<noteq> None
      | JobEvict _ _ at \<Rightarrow> at \<noteq> None
      | NodeStateChange p \<Rightarrow> ns_at p \<noteq> None
      | NodeRemove _ _ at \<Rightarrow> at \<noteq> None
      | _ \<Rightarrow> True)"

named_theorems clock

text \<open>Clock arguments are normalised to 0; entering a terminal state only dates the end of the run.\<close>

lemma transition_end:
  "transition now to job =
     (if valid_transition (j_state job) to
      then Inr (job\<lparr>j_state := to, j_end_time :=
          (if to = Pending then None else if is_terminal to \<and> j_end_time job = None then Some now else j_end_time job)\<rparr>)
      else Inl (InvalidTransition (j_state job) to))"
  by (auto simp: transition_def Let_def is_terminal_def)

lemma transition_clock [clock]: "NO_MATCH 0 now \<Longrightarrow> \<not> is_terminal to \<Longrightarrow> transition now to job = transition 0 to job"
  by (simp add: transition_end)

lemma apply_transition_clock [clock]:
  "NO_MATCH 0 now \<Longrightarrow> \<not> is_terminal to \<Longrightarrow> apply_transition now to job = apply_transition 0 to job"
  by (simp add: apply_transition_def clock)

lemma end_time_helpers [simp]:
  "j_end_time (end_suspension t job) = j_end_time job" "j_end_time (set_pending_reason r job) = j_end_time job"
  by (simp_all add: end_suspension_def set_pending_reason_def drop_stale_detail_def split: option.split)

lemma elapsed_clock [clock]: "NO_MATCH 0 now \<Longrightarrow> j_end_time job \<noteq> None \<Longrightarrow> elapsed_secs now job = elapsed_secs 0 job"
  by (auto simp: elapsed_secs_def run_time_def split: option.split)

lemma for_job_clock [clock]: "NO_MATCH 0 now \<Longrightarrow> j_end_time job \<noteq> None \<Longrightarrow> for_job now job st c = for_job 0 job st c"
  by (simp add: for_job_def clock)

lemma live_states [simp]:
  "\<not> is_terminal Pending" "\<not> is_terminal Running" "\<not> is_terminal Completing" "\<not> is_terminal Suspended" "\<not> is_terminal Preempted"
  by (simp_all add: is_terminal_def)

lemma begin_completing_clock [clock]: "NO_MATCH 0 now \<Longrightarrow> begin_completing now at job = begin_completing 0 at job"
  by (simp add: begin_completing_def clock)

lemma apply_suspend_clock [clock]: "NO_MATCH 0 now \<Longrightarrow> apply_suspend now at pb q who job = apply_suspend 0 at pb q who job"
  by (simp add: apply_suspend_def clock)

lemma repend_clock [clock]:
  "NO_MATCH 0 now \<Longrightarrow> repend_after_preemption now bt pb q at job = repend_after_preemption 0 bt pb q at job"
  by (auto simp: repend_after_preemption_def clock Let_def split: sum.split)

lemma complete_run_clock [clock]: "NO_MATCH 0 now \<Longrightarrow> complete_run now ts p st job = complete_run 0 ts p st job"
  by (simp add: complete_run_def transition_end clock Let_def)

lemma finalize_clock [clock]: "NO_MATCH 0 now \<Longrightarrow> finalize_reported_run now at job = finalize_reported_run 0 at job"
proof -
  obtain st c g where d: "derived_completion (j_node_completions job) (case j_allocated_nodes job of [] \<Rightarrow> [] | n # _ \<Rightarrow> n) = (st, c, g)"
    by (metis prod_cases3)
  obtain st' r where v: "completion_verdict job st c (g AND NOT oom_signal_flag) (reported_oom job) = (st', r)"
    by (metis surj_pair)
  show ?thesis
    by (simp add: finalize_reported_run_def d v transition_end Let_def for_job_clock [of now]
        set_pending_reason_def drop_stale_detail_def)
qed

lemma advance_clock [clock]:
  "NO_MATCH 0 now \<Longrightarrow> advance_after_node_report now g at job = advance_after_node_report 0 g at job"
  by (simp add: advance_after_node_report_def clock Let_def split: option.split)

lemma evict_job_clock [clock]:
  "NO_MATCH 0 now \<Longrightarrow> evict_job_locked now i ts r f jobs nodes = evict_job_locked 0 i ts r f jobs nodes"
  by (simp add: evict_job_locked_def transition_end clock Let_def set_pending_reason_def drop_stale_detail_def split: option.split)

lemma evict_all_clock [clock]:
  "NO_MATCH 0 now \<Longrightarrow> evict_all now ts f ids jobs nodes = evict_all 0 ts f ids jobs nodes"
  by (induction ids arbitrary: jobs nodes) (simp_all add: clock)

lemma evict_node_clock [clock]: "NO_MATCH 0 now \<Longrightarrow> evict_node now n f ts s = evict_node 0 n f ts s"
  by (simp add: evict_node_def evict_jobs_on_node_def clock)

lemma arms_clock [clock]:
  "NO_MATCH 0 now \<Longrightarrow> \<not> is_terminal (sc_new_state p) \<Longrightarrow>
     apply_job_state_change cfg now ts p s = apply_job_state_change cfg 0 ts p s"
  "NO_MATCH 0 now \<Longrightarrow> apply_job_suspend now i at pb q who s = apply_job_suspend 0 i at pb q who s"
  "NO_MATCH 0 now \<Longrightarrow> apply_job_resume now i at s = apply_job_resume 0 i at s"
  "NO_MATCH 0 now \<Longrightarrow> apply_job_cancel_signaled now i at c s = apply_job_cancel_signaled 0 i at c s"
  "NO_MATCH 0 now \<Longrightarrow> apply_job_time_limit_expired now i ra at s = apply_job_time_limit_expired 0 i ra at s"
  "NO_MATCH 0 now \<Longrightarrow> apply_job_preempt_requeue now ts pp s = apply_job_preempt_requeue 0 ts pp s"
  "NO_MATCH 0 now \<Longrightarrow> apply_job_user_requeue now ts i h bt who s = apply_job_user_requeue 0 ts i h bt who s"
  "NO_MATCH 0 now \<Longrightarrow> apply_job_evict now ts i d s = apply_job_evict 0 ts i d s"
  "NO_MATCH 0 now \<Longrightarrow> apply_job_node_complete now ts i n c' g ra s = apply_job_node_complete 0 ts i n c' g ra s"
  "NO_MATCH 0 now \<Longrightarrow> apply_node_state_change now ts pn s = apply_node_state_change 0 ts pn s"
  "NO_MATCH 0 now \<Longrightarrow> apply_node_remove now ts n rs s = apply_node_remove 0 ts n rs s"
  by (simp_all add: apply_job_state_change_def apply_job_suspend_def apply_job_resume_def apply_job_cancel_signaled_def
      apply_job_time_limit_expired_def apply_job_preempt_requeue_def apply_job_user_requeue_def apply_job_evict_def
      apply_job_node_complete_def apply_node_state_change_def apply_node_remove_def clock Let_def split: option.split sum.split)

lemma complete_clock [clock]: "NO_MATCH 0 now \<Longrightarrow> apply_job_complete now ts p s = apply_job_complete 0 ts p s"
  by (simp only: apply_job_complete_def clock)

lemma apply_operation_clock:
  assumes "clock_free op"
  shows "apply_operation cfg now op s = apply_operation cfg 0 op s"
  using assms by (cases op) (auto simp: clock_free_def apply_operation_def op_timestamp_def occurred_at_def clock)

lemma apply_entries_clock:
  assumes "list_all clock_free ops" and "length ts = length ops" and "length ts' = length ops"
  shows "foldl (apply_entry cfg) s (zip ts ops) = foldl (apply_entry cfg) s (zip ts' ops)"
  using assms
proof (induction ops arbitrary: ts ts' s)
  case (Cons op ops)
  obtain t tl t' tl' where "ts = t # tl" "ts' = t' # tl'" using Cons.prems(2,3) by (metis length_Suc_conv)
  then show ?case
    using Cons.prems Cons.IH [of tl tl'] apply_operation_clock [of op cfg t] apply_operation_clock [of op cfg t']
    by (simp add: apply_entry_def)
qed simp

section \<open>Entries delivered twice\<close>

definition redeliverable :: "cluster \<Rightarrow> wal_operation \<Rightarrow> bool" where
  "redeliverable s op =
     (case op of
        JobPreemptRequeue _ \<Rightarrow> True
      | JobPreemptCancel _ _ _ _ _ \<Rightarrow> True
      | JobUserRequeue _ _ _ _ _ \<Rightarrow> True
      | JobStart p \<Rightarrow>
          (case hm_get (c_jobs s) (sr_job_id p) of
             None \<Rightarrow> False
           | Some job \<Rightarrow> sr_nodes p \<noteq> [] \<and> j_node_completions job = [])
      | _ \<Rightarrow> False)"

lemma again_preempt_requeue:
  "apply_job_preempt_requeue now' ts' p (fst (apply_job_preempt_requeue now ts p s))
     = (fst (apply_job_preempt_requeue now ts p s), response_default)"
proof (cases "\<exists>job. hm_get (c_jobs s) (pq_job_id p) = Some job \<and> j_state job = Running \<and> preempt_targets_run job (pq_run_attempt p)")
  case True
  then obtain job where job: "hm_get (c_jobs s) (pq_job_id p) = Some job" "j_state job = Running" "preempt_targets_run job (pq_run_attempt p)"
    by blast
  obtain job' fin where "repend_after_preemption now (pq_begin_time p) (pq_preempted_by p) (pq_preempt_qos p) ts job = (job', Some fin)"
    "j_state job' = Pending"
    using repend_Running [OF job(2)] by metis
  then have "hm_get (c_jobs (fst (apply_job_preempt_requeue now ts p s))) (pq_job_id p) = Some job'"
    using job by (simp add: apply_job_preempt_requeue_def Let_def hm_simps split: option.split)
  then show ?thesis using \<open>j_state job' = Pending\<close> by (simp add: apply_job_preempt_requeue_def [of now'])
qed (auto simp: apply_job_preempt_requeue_def split: option.split)

lemma again_user_requeue:
  "apply_job_user_requeue now' ts' i h bt who (fst (apply_job_user_requeue now ts i h bt who s))
     = (fst (apply_job_user_requeue now ts i h bt who s), response_default)"
proof (cases "\<exists>job. hm_get (c_jobs s) i = Some job \<and> (is_terminal (j_state job) \<or> j_state job \<in> {Running, Suspended})")
  case True
  then obtain job where "hm_get (c_jobs s) i = Some job" "is_terminal (j_state job) \<or> j_state job \<in> {Running, Suspended}" by blast
  then have "\<exists>job'. hm_get (c_jobs (fst (apply_job_user_requeue now ts i h bt who s))) i = Some job' \<and> j_state job' = Pending"
    by (auto simp: apply_job_user_requeue_def requeue_to_pending_def Let_def hm_simps who_simps)
  then show ?thesis by (auto simp: apply_job_user_requeue_def [of now'])
qed (auto simp: apply_job_user_requeue_def split: option.split)

lemma again_preempt_cancel:
  "apply_job_preempt_cancel now' ts' i pb q at r (fst (apply_job_preempt_cancel now ts i pb q at r s))
     = (fst (apply_job_preempt_cancel now ts i pb q at r s), response_default)"
proof (cases "\<exists>job. hm_get (c_jobs s) i = Some job \<and> j_state job = Running \<and> preempt_targets_run job r")
  case True
  then obtain job where "hm_get (c_jobs s) i = Some job" "j_state job = Running" "preempt_targets_run job r" by blast
  then have "\<exists>job'. hm_get (c_jobs (fst (apply_job_preempt_cancel now ts i pb q at r s))) i = Some job' \<and> j_state job' \<noteq> Running"
    by (auto simp: apply_job_preempt_cancel_def transition_end Let_def hm_simps)
  then show ?thesis by (auto simp: apply_job_preempt_cancel_def [of now'] Let_def)
qed (auto simp: apply_job_preempt_cancel_def Let_def split: option.split)

lemma again_start:
  assumes "hm_get (c_jobs s) (sr_job_id p) = Some job" and "sr_nodes p \<noteq> []" and "j_node_completions job = []"
  shows "apply_job_start p (fst (apply_job_start p s)) = (fst (apply_job_start p s), response_default)"
proof (cases "holds_a_placement job \<or> excluded_node job (sr_nodes p) \<noteq> None")
  case True
  then show ?thesis using assms(1) by (auto simp: apply_job_start_def Let_def)
next
  case False
  have "holds_a_placement (start_run p job)"
    using assms(2,3) by (cases "sr_nodes p") (simp_all add: holds_a_placement_def is_held_on_def)
  moreover have "hm_get (c_jobs (fst (apply_job_start p s))) (sr_job_id p) = Some (start_run p job)"
    using assms(1) False by (simp add: apply_job_start_def Let_def hm_simps)
  ultimately show ?thesis by (simp add: apply_job_start_def [of p "fst (apply_job_start p s)"])
qed

section \<open>Properties\<close>

text \<open>
  C6. Replicas agree: two replicas that apply the same entries in the same order, each at its own instants,
  reach the same state, as long as the entries carry the leader's stamp and are none of the kinds that read
  the replica's clock: submissions, step completions, preemptive cancellations, registrations and updates of nodes, and
  changes into a terminal state.
\<close>

theorem replicas_agree:
  assumes "list_all clock_free ops" and "length ts = length ops" and "length ts' = length ops"
  shows "foldl (apply_entry cfg) s (zip ts ops) = foldl (apply_entry cfg) s (zip ts' ops)"
  using assms by (rule apply_entries_clock)

theorem replicas_agree_witness:
  "foldl (apply_entry sample_config) sample_submitted
      (zip [31, 32] (map (stamp_occurred_at 30) [JobStart sample_start, JobStateChange (state_change_of 1 Pending Running)]))
   = foldl (apply_entry sample_config) sample_submitted
      (zip [77, 99] (map (stamp_occurred_at 30) [JobStart sample_start, JobStateChange (state_change_of 1 Pending Running)]))"
  by (rule replicas_agree) (simp_all add: clock_free_def stamp_occurred_at_def state_change_of_def is_terminal_def)

text \<open>
  C16. A reservation, a preemption or a requeue delivered a second time changes nothing and reports nothing
  done, at whatever instant either copy is applied.
\<close>

theorem redelivery_changes_nothing:
  assumes "redeliverable s op"
  shows "apply_operation cfg now' op (fst (apply_operation cfg now op s))
     = (fst (apply_operation cfg now op s), response_default)"
  using assms again_preempt_requeue again_user_requeue again_preempt_cancel again_start
  by (cases op) (auto simp: redeliverable_def apply_operation_def Let_def split: option.splits)

theorem redelivery_changes_nothing_witness:
  "apply_operation sample_config 40 (JobStart sample_start) (fst (apply_operation sample_config 30 (JobStart sample_start) sample_submitted))
     = (fst (apply_operation sample_config 30 (JobStart sample_start) sample_submitted), response_default)"
  by (rule redelivery_changes_nothing) (simp add: redeliverable_def sample_start_def sample_job job_new_def)

text \<open>
  C32. A submission carries no stamp: the submission time a replica records, which priorities age from, is
  whatever its clock reads when it applies the entry, also when it replays the log.
\<close>

theorem submission_is_dated_by_the_replica:
  "map_option j_submit_time (hm_get (c_jobs (fst (apply_operation cfg now (stamp_occurred_at stamp (JobSubmit i spec)) s))) i)
     = Some now"
  by (simp add: stamp_occurred_at_def apply_operation_def apply_job_submit_def Let_def hm_simps job_new_def split: option.split)

text \<open>
  C33. A resume that arrives after a requeue runs the job nowhere: on a suspended job, the two entries leave it
  Running with no nodes and no resources, because resuming is allowed from Pending.
\<close>

theorem resume_after_requeue_runs_nowhere:
  assumes "hm_get (c_jobs s) i = Some job" and "j_state job = Suspended"
  shows "map_option (\<lambda>j. (j_state j, j_allocated_nodes j, j_allocated_resources j))
     (hm_get (c_jobs (fst (apply_operation cfg now' (JobResume i at')
        (fst (apply_operation cfg now (JobUserRequeue i h bt who at) s))))) i) = Some (Running, [], None)"
proof -
  let ?s1 = "fst (apply_operation cfg now (JobUserRequeue i h bt who at) s)"
  have "\<exists>job1. hm_get (c_jobs ?s1) i = Some job1 \<and> j_state job1 = Pending \<and> cleared job1"
    using assms repend_by_user_cleared
    by (auto simp: apply_operation_def apply_job_user_requeue_def requeue_to_pending_def Let_def hm_simps)
  then obtain job1 where "hm_get (c_jobs ?s1) i = Some job1" "j_state job1 = Pending" "cleared job1" by blast
  then show ?thesis
    by (simp add: apply_operation_def [of _ now'] apply_job_resume_def apply_transition_def transition_end Let_def hm_simps
        cleared_def end_suspension_def split: option.split)
qed

definition sample_suspended_job :: job where
  "sample_suspended_job = (job_new 20 1 sample_spec)\<lparr>j_state := Suspended,
     j_allocated_nodes := [''n1''], j_allocated_resources := Some (with_scalar 2 4000)\<rparr>"

definition sample_suspended :: cluster where
  "sample_suspended = (cluster_new [] 1)\<lparr>c_jobs := [(1, sample_suspended_job)]\<rparr>"

theorem resume_after_requeue_runs_nowhere_witness:
  "map_option (\<lambda>j. (j_state j, j_allocated_nodes j, j_allocated_resources j))
     (hm_get (c_jobs (fst (apply_operation sample_config 60 (JobResume 1 60)
        (fst (apply_operation sample_config 50 (JobUserRequeue 1 False None None (Some 50)) sample_suspended))))) 1)
   = Some (Running, [], None)"
  by (rule resume_after_requeue_runs_nowhere [where job = sample_suspended_job])
     (simp_all add: sample_suspended_def sample_suspended_job_def)

text \<open>A job a component of a heterogeneous job may be attached to.\<close>

definition leads :: "job_spec \<Rightarrow> job \<Rightarrow> bool" where
  "leads spec j = (j_het_group j = Some 0 \<and> js_user (j_spec j) = js_user spec \<and> js_name (j_spec j) = js_name spec \<and> j_state j = Pending)"

lemma component_attaches_to_first:
  assumes "js_het_group spec = Some g" and "0 < g" and "leads spec a"
  shows "map_option j_het_job_id (hm_get (c_jobs (fst (apply_operation cfg now (JobSubmit i spec) (s\<lparr>c_jobs := (k, a) # rest\<rparr>)))) i)
    = Some (Some (j_job_id a))"
  using assms by (simp add: apply_operation_def apply_job_submit_def leads_def put_job_def Let_def hm_simps)

text \<open>
  C34. The leading job a heterogeneous component is attached to depends on the iteration order of the job
  table: whenever the table holds two pending leading jobs of the same user and name, the same submission is
  attached to different jobs under two orders of the table.
\<close>

theorem het_component_follows_table_order:
  assumes "js_het_group spec = Some g" and "0 < g" and "leads spec a" and "leads spec b" and "j_job_id a \<noteq> j_job_id b"
    and "hm_get (c_jobs s) k = Some a" and "hm_get (c_jobs s) l = Some b"
  shows "\<exists>jobs jobs'. mset jobs = mset (c_jobs s) \<and> mset jobs' = mset (c_jobs s)
    \<and> map_option j_het_job_id (hm_get (c_jobs (fst (apply_operation cfg now (JobSubmit i spec) (s\<lparr>c_jobs := jobs\<rparr>)))) i)
      \<noteq> map_option j_het_job_id (hm_get (c_jobs (fst (apply_operation cfg now (JobSubmit i spec) (s\<lparr>c_jobs := jobs'\<rparr>)))) i)"
proof (intro exI conjI)
  let ?jobs = "(k, a) # remove1 (k, a) (c_jobs s)" and ?jobs' = "(l, b) # remove1 (l, b) (c_jobs s)"
  show "mset ?jobs = mset (c_jobs s)" "mset ?jobs' = mset (c_jobs s)"
    using assms(6,7) by (simp_all add: hm_get_mem)
  show "map_option j_het_job_id (hm_get (c_jobs (fst (apply_operation cfg now (JobSubmit i spec) (s\<lparr>c_jobs := ?jobs\<rparr>)))) i)
      \<noteq> map_option j_het_job_id (hm_get (c_jobs (fst (apply_operation cfg now (JobSubmit i spec) (s\<lparr>c_jobs := ?jobs'\<rparr>)))) i)"
    using assms(5) by (simp only: component_attaches_to_first [OF assms(1,2,3)] component_attaches_to_first [OF assms(1,2,4)]) simp
qed

definition het_leader :: "job_id \<Rightarrow> job" where
  "het_leader i = (job_new 10 i sample_spec)\<lparr>j_het_group := Some 0\<rparr>"

theorem het_component_follows_table_order_witness:
  "\<exists>jobs jobs'. mset jobs = mset [(1, het_leader 1), (2, het_leader 2)] \<and> mset jobs' = mset [(1, het_leader 1), (2, het_leader 2)]
    \<and> map_option j_het_job_id (hm_get (c_jobs (fst (apply_operation sample_config 20
          (JobSubmit 3 (sample_spec\<lparr>js_het_group := Some 1\<rparr>)) ((cluster_new [] 1)\<lparr>c_jobs := jobs\<rparr>)))) 3)
      \<noteq> map_option j_het_job_id (hm_get (c_jobs (fst (apply_operation sample_config 20
          (JobSubmit 3 (sample_spec\<lparr>js_het_group := Some 1\<rparr>)) ((cluster_new [] 1)\<lparr>c_jobs := jobs'\<rparr>)))) 3)"
  using het_component_follows_table_order [of "sample_spec\<lparr>js_het_group := Some 1\<rparr>" 1 "het_leader 1" "het_leader 2"
      "(cluster_new [] 1)\<lparr>c_jobs := [(1, het_leader 1), (2, het_leader 2)]\<rparr>" 1 2 sample_config 20 3]
  by (simp add: leads_def het_leader_def job_new_def)

end
