(* ===== verification/Partition_Log.thy ===== *)
theory Partition_Log
  imports Log_Props
begin

text \<open>
  Partitions along the log: their names stay distinct and at most one of them is the default.
\<close>

definition one_default :: "partition list \<Rightarrow> bool" where
  "one_default ps = (distinct (map p_name ps) \<and> length (filter p_is_default ps) \<le> 1)"

lemma helpers_partitions [simp]:
  "c_partitions (put_job i job s) = c_partitions s" "c_partitions (record_preempt_freed_nodes ns p s) = c_partitions s"
  "c_partitions (complete_job_steps i c t s) = c_partitions s" "c_partitions (reconcile cfg s) = c_partitions s"
  by (simp_all add: put_job_def record_preempt_freed_nodes_def complete_job_steps_def reconcile_def Let_def)

lemma evict_node_partitions [simp]: "c_partitions (fst (evict_node now n f ts s)) = c_partitions s"
proof -
  have "c_partitions (foldl (\<lambda>s (p, freed). record_preempt_freed_nodes freed p s) s freeds) = c_partitions s" for s freeds
    by (induction freeds arbitrary: s) auto
  then show ?thesis by (simp add: evict_node_def case_prod_unfold Let_def)
qed

lemma job_arms_partitions [simp]:
  "c_partitions (fst (apply_job_submit now i spec s)) = c_partitions s"
  "c_partitions (fst (apply_job_state_change cfg now ts p s)) = c_partitions s"
  "c_partitions (fst (apply_job_dispatch_backoff i b sp ra mx s)) = c_partitions s"
  "c_partitions (fst (apply_job_preempt_requeue now ts pq s)) = c_partitions s"
  "c_partitions (fst (apply_job_user_requeue now ts i h bt who s)) = c_partitions s"
  "c_partitions (fst (apply_job_preempt_cancel now ts i pb q at' r s)) = c_partitions s"
  "c_partitions (fst (apply_job_suspend now i at pb q who s)) = c_partitions s"
  "c_partitions (fst (apply_job_resume now i at s)) = c_partitions s"
  "c_partitions (fst (apply_job_evict now ts i d s)) = c_partitions s"
  "c_partitions (fst (apply_job_launch_failure_detail i dd s)) = c_partitions s"
  "c_partitions (fst (apply_job_start ps s)) = c_partitions s"
  "c_partitions (fst (apply_job_node_complete now ts i n c g ra s)) = c_partitions s"
  "c_partitions (fst (apply_job_time_limit_signaled i at s)) = c_partitions s"
  "c_partitions (fst (apply_job_cancel_signaled now i at cc s)) = c_partitions s"
  "c_partitions (fst (apply_job_time_limit_expired now i ra at s)) = c_partitions s"
  "c_partitions (fst (apply_job_preempt_signaled i pending s)) = c_partitions s"
  "c_partitions (fst (apply_job_step_complete ts i sid x s)) = c_partitions s"
  "c_partitions (fst (apply_job_step_create step s)) = c_partitions s"
  "c_partitions (fst (apply_job_exclude_update i e s)) = c_partitions s"
  "c_partitions (fst (apply_job_priority_change pc s)) = c_partitions s"
  by (simp_all add: apply_job_submit_def apply_job_state_change_def apply_job_dispatch_backoff_def apply_job_preempt_requeue_def
      apply_job_user_requeue_def apply_job_preempt_cancel_def apply_job_suspend_def apply_job_resume_def apply_job_evict_def
      apply_job_launch_failure_detail_def apply_job_start_def apply_job_node_complete_def apply_job_time_limit_signaled_def
      apply_job_cancel_signaled_def apply_job_time_limit_expired_def apply_job_preempt_signaled_def apply_job_step_complete_def
      apply_job_step_create_def apply_job_exclude_update_def apply_job_priority_change_def Let_def case_prod_unfold
      split: option.split sum.split prod.split transition_outcome.split)

lemma complete_partitions [simp]: "c_partitions (fst (apply_job_complete now ts p s)) = c_partitions s"
  unfolding apply_job_complete_def Let_def
  by (auto split: option.splits sum.splits prod.splits if_splits)

section \<open>The three operations\<close>

lemma single_default:
  "distinct (map p_name ps) \<Longrightarrow> (\<And>p. p \<in> set ps \<Longrightarrow> p_is_default p \<Longrightarrow> p_name p = n) \<Longrightarrow> length (filter p_is_default ps) \<le> 1"
proof (induction ps)
  case (Cons p ps)
  show ?case
  proof (cases "p_is_default p")
    case True
    then have "filter p_is_default ps = []"
      using Cons.prems by (force simp: filter_empty_conv)
    then show ?thesis by simp
  qed (use Cons in simp)
qed simp

lemma demoted [simp]: "map p_name (demote_all ps) = map p_name ps" "filter p_is_default (demote_all ps) = []"
  by (induction ps) (simp_all add: demote_all_def)

lemma find_index_from_Some:
  "find_index_from P k xs = Some i \<Longrightarrow> k \<le> i \<and> i - k < length xs \<and> P (xs ! (i - k))"
proof (induction xs arbitrary: k)
  case (Cons x xs)
  then show ?case by (cases "P x") (auto simp: nth_Cons' dest!: Cons.IH)
qed simp

lemma find_index_from_None: "find_index_from P k xs = None \<Longrightarrow> x \<in> set xs \<Longrightarrow> \<not> P x"
  by (induction xs arbitrary: k) (auto split: if_splits)

lemma filter_update_length: "\<not> P x \<Longrightarrow> length (filter P (xs[i := x])) \<le> length (filter P xs)"
proof (induction xs arbitrary: i)
  case (Cons y xs)
  then show ?case by (cases i) (auto intro: le_SucI)
qed simp

lemma names_update: "i < length ps \<Longrightarrow> p_name (ps ! i) = p_name p \<Longrightarrow> map p_name (ps[i := p]) = map p_name ps"
  by (simp add: map_update list_update_same_conv)

lemma one_default_create:
  assumes "one_default (c_partitions s)"
  shows "one_default (c_partitions (fst (apply_partition_create cfg part s)))"
proof -
  let ?ps = "if p_is_default part then demote_all (c_partitions s) else c_partitions s"
  have names: "map p_name ?ps = map p_name (c_partitions s)" by simp
  have len: "length ?ps = length (c_partitions s)" using names by (metis length_map)
  have "one_default (?ps @ [part])" if "find_index_from (\<lambda>p. p_name p = p_name part) 0 (c_partitions s) = None"
  proof -
    have "p_name part \<notin> set (map p_name (c_partitions s))" using find_index_from_None [OF that] by fastforce
    then have "distinct (map p_name (?ps @ [part]))" using assms unfolding map_append names by (simp add: one_default_def)
    then show ?thesis using assms by (simp add: one_default_def)
  qed
  moreover have "one_default (?ps[i := part])" if "find_index_from (\<lambda>p. p_name p = p_name part) 0 (c_partitions s) = Some i" for i
  proof -
    have i: "i < length (c_partitions s)" "p_name (c_partitions s ! i) = p_name part"
      using find_index_from_Some [OF that] by simp_all
    then have "p_name (?ps ! i) = p_name part" by (metis names len nth_map)
    then have n: "map p_name (?ps[i := part]) = map p_name (c_partitions s)" using names_update [of i ?ps part] i(1) names len by simp
    show ?thesis
    proof (cases "p_is_default part")
      case True
      have "p_name p = p_name part" if "p \<in> set (?ps[i := part])" "p_is_default p" for p
        using that True set_update_subset_insert [of ?ps i part] by (auto simp: demote_all_def)
      then show ?thesis using single_default [of "?ps[i := part]"] n assms by (auto simp: one_default_def)
    next
      case False
      then show ?thesis
        using n assms filter_update_length [of p_is_default part "c_partitions s" i] by (auto simp: one_default_def)
    qed
  qed
  ultimately show ?thesis
    using assms by (auto simp: apply_partition_create_def Let_def split: option.split)
qed

lemma update_partition_name [simp]: "p_name (update_partition u p) = p_name p"
  by (simp add: update_partition_def)

lemma names_update_first [simp]: "map p_name (update_first P (update_partition u) ps) = map p_name ps"
  by (induction ps) simp_all

lemma defaults_update_first:
  "pu_is_default u \<noteq> Some True \<Longrightarrow> length (filter p_is_default (update_first P (update_partition u) ps)) \<le> length (filter p_is_default ps)"
  by (induction ps) (auto simp: update_partition_def or_keep_def split: option.splits)

lemma one_default_update:
  assumes "one_default (c_partitions s)"
  shows "one_default (c_partitions (fst (apply_partition_update cfg u s)))"
proof (cases "pu_is_default u = Some True")
  case True
  define ps where "ps = update_first (\<lambda>p. p_name p = pu_name u) (update_partition u) (c_partitions s)"
  define qs where "qs = map (\<lambda>p. if p_name p \<noteq> pu_name u then p\<lparr>p_is_default := False\<rparr> else p) ps"
  have "map p_name qs = map p_name ps" by (simp add: qs_def comp_def if_distrib cong: if_cong)
  then have d: "distinct (map p_name qs)" using assms by (simp add: one_default_def ps_def)
  have "p_name p = pu_name u" if "p \<in> set qs" "p_is_default p" for p using that by (auto simp: qs_def split: if_splits)
  from single_default [OF d this] show ?thesis
    using True d by (simp add: apply_partition_update_def Let_def one_default_def qs_def ps_def)
next
  case False
  then show ?thesis
    using assms defaults_update_first [OF False, of "\<lambda>p. p_name p = pu_name u" "c_partitions s"]
    by (simp add: apply_partition_update_def Let_def one_default_def)
qed

lemma one_default_delete:
  assumes "one_default (c_partitions s)"
  shows "one_default (c_partitions (fst (apply_partition_delete cfg n s)))"
proof -
  have "length (filter p_is_default (filter (\<lambda>p. p_name p \<noteq> n) ps)) \<le> length (filter p_is_default ps)" for ps
    by (induction ps) auto
  from this [of "c_partitions s"] show ?thesis
    using assms by (auto simp: apply_partition_delete_def Let_def one_default_def distinct_map_filter)
qed

lemma one_default_apply:
  assumes "one_default (c_partitions s)"
  shows "one_default (c_partitions (apply_entry cfg s e))"
  using assms one_default_create one_default_update one_default_delete
  by (cases "snd e") (simp_all add: apply_entry_def apply_operation_def Let_def case_prod_unfold
      apply_node_register_def apply_node_update_def apply_node_state_change_def apply_node_labels_update_def apply_node_remove_def
      apply_token_create_def apply_token_revoke_def apply_reservation_create_def apply_reservation_update_def
      apply_reservation_delete_def apply_node_k0s_assign_def apply_node_k0s_clear_def apply_node_k0s_set_error_def
      apply_k0s_member_nodes_add_def apply_k0s_member_nodes_remove_def apply_k0s_set_phase_def apply_evict_terminal_jobs_def
      split: option.split)

interpretation partitions: replicated_machine "apply_entry cfg" "\<lambda>_ _. True" "\<lambda>s. one_default (c_partitions s)" for cfg
  by unfold_locales (rule one_default_apply)

section \<open>Properties\<close>

text \<open>
  C17. Whatever the log holds, partition names stay distinct and at most one partition is the default, if the
  configured partitions start that way.
\<close>

theorem at_most_one_default_partition:
  assumes "one_default parts"
  shows "distinct (map p_name (c_partitions (foldl (apply_entry cfg) (cluster_new parts first) es)))
     \<and> length (filter p_is_default (c_partitions (foldl (apply_entry cfg) (cluster_new parts first) es))) \<le> 1"
proof -
  have "admissible_run (apply_entry cfg) (\<lambda>_ _. True) s es" for s by (induction es arbitrary: s) simp_all
  moreover have "one_default (c_partitions (cluster_new parts first))" using assms by (simp add: cluster_new_def)
  ultimately show ?thesis using partitions.inv_run by (fastforce simp: one_default_def)
qed

definition sample_partition :: "string \<Rightarrow> partition" where
  "sample_partition n = partition_default\<lparr>p_name := n, p_is_default := True\<rparr>"

theorem at_most_one_default_partition_witness:
  "length (filter p_is_default (c_partitions (foldl (apply_entry sample_config) (cluster_new [sample_partition ''gpu''] 1)
     [(10, PartitionCreate (sample_partition ''cpu''))]))) \<le> 1"
  using at_most_one_default_partition [of "[sample_partition ''gpu'']" sample_config 1 "[(10, PartitionCreate (sample_partition ''cpu''))]"]
  by (simp add: one_default_def)

text \<open>
  C35. An update that makes an unknown partition the default is not ignored: it leaves the cluster with no default
  partition.
\<close>

theorem unknown_update_drops_the_default:
  assumes "pu_is_default u = Some True" and "pu_name u \<notin> p_name ` set (c_partitions s)"
  shows "filter p_is_default (c_partitions (fst (apply_operation cfg now (PartitionUpdate u) s))) = []"
proof -
  have "update_first (\<lambda>p. p_name p = pu_name u) (update_partition u) ps = ps" if "pu_name u \<notin> p_name ` set ps" for ps
    using that by (induction ps) auto
  then show ?thesis
    using assms by (force simp: apply_operation_def apply_partition_update_def Let_def filter_empty_conv)
qed

definition sample_default_update :: partition_update where
  "sample_default_update = \<lparr>pu_name = ''gone'', pu_nodes = None, pu_selector = None, pu_state = None, pu_max_time_minutes = None,
     pu_default_time_minutes = None, pu_max_nodes = None, pu_min_nodes = None, pu_allow_accounts = None, pu_allow_groups = None,
     pu_deny_accounts = None, pu_deny_qos = None, pu_allow_qos = None, pu_priority_tier = None, pu_preempt_mode = None,
     pu_is_default = Some True, pu_preempt_exempt_time = None, pu_grace_time = None\<rparr>"

theorem unknown_update_drops_the_default_witness:
  "map p_is_default (c_partitions (cluster_new [sample_partition ''gpu''] 1)) = [True]
   \<and> filter p_is_default (c_partitions (fst (apply_operation sample_config 10 (PartitionUpdate sample_default_update)
       (cluster_new [sample_partition ''gpu''] 1)))) = []"
  using unknown_update_drops_the_default [of sample_default_update "cluster_new [sample_partition ''gpu''] 1" sample_config 10]
  by (simp add: sample_default_update_def sample_partition_def cluster_new_def)

end
