(* ===== verification/Runs.thy ===== *)
theory Runs
  imports Log_Props
begin

text \<open>
  Runs end: once every node of a placement has reported, in whatever order, the job is finished. And
  earmarks expire: a node freed by a preemption does not stay reserved for a preemptor that never takes it.
\<close>

section \<open>Node reports\<close>

text \<open>A run whose nodes are reporting: \<open>done\<close> nodes have, and no preemption is pending.\<close>

definition reporting :: "job \<Rightarrow> bool" where
  "reporting job =
     (is_active (j_state job) \<and> j_preempt_pending job = None \<and> hm_wf (j_node_completions job))"

lemma verdict_from_active:
  assumes "is_active (j_state job)"
  shows "valid_transition (j_state job) (fst (completion_verdict job' (fst (derived_completion cs p)) c g oom))"
  using derived_completion_state [of cs p] assms
  by (cases "j_state job") (auto simp: completion_verdict_def Let_def is_active_def)

lemma finalize_ends:
  assumes "is_active (j_state job)"
  shows "is_terminal (j_state (fst (finalize_reported_run now at job)))
     \<and> j_node_completions (fst (finalize_reported_run now at job)) = []"
proof -
  let ?primary = "case j_allocated_nodes job of [] \<Rightarrow> [] | n # _ \<Rightarrow> n"
  obtain st c g where d: "derived_completion (j_node_completions job) ?primary = (st, c, g)"
    by (metis prod_cases3)
  obtain st' r where v: "completion_verdict job st c (g AND NOT oom_signal_flag) (reported_oom job) = (st', r)"
    by (metis surj_pair)
  have "is_terminal st'" "valid_transition (j_state job) st'"
    using verdict_terminal [of job "j_node_completions job" ?primary c "g AND NOT oom_signal_flag" "reported_oom job"]
      verdict_from_active [OF assms, of job "j_node_completions job" ?primary c "g AND NOT oom_signal_flag" "reported_oom job"] d v
    by simp_all
  then show ?thesis
    by (cases "transition now st' job") (auto simp: finalize_reported_run_def d v Let_def dest: transition_Inr transition_Inl)
qed

definition report_entry :: "job_id \<Rightarrow> u32 \<Rightarrow> instant \<times> string \<times> int \<times> int \<Rightarrow> instant \<times> wal_operation" where
  "report_entry i run r = (case r of (t, name, code, sig) \<Rightarrow> (t, JobNodeComplete i name code sig run (Some t)))"

lemma length_hm_insert_new: "hm_get m k = None \<Longrightarrow> length (hm_insert k v m) = Suc (length m)"
  by (induction m) (auto split: if_splits)

lemma report_step:
  assumes job: "hm_get (c_jobs s) i = Some job" and rep: "reporting job" and new: "hm_get (j_node_completions job) name = None"
  shows "\<exists>job'. hm_get (c_jobs (apply_entry cfg s (report_entry i (j_run_attempt job) (t, name, code, sig)))) i = Some job' \<and>
      (if Suc (length (j_node_completions job)) = length (j_allocated_nodes job)
       then is_terminal (j_state job') \<and> j_node_completions job' = []
       else reporting job' \<and> j_run_attempt job' = j_run_attempt job \<and> j_allocated_nodes job' = j_allocated_nodes job
         \<and> j_node_completions job' = hm_insert name \<lparr>nc_code = code, nc_signal = sig\<rparr> (j_node_completions job))"
proof -
  define job1 where "job1 = job\<lparr>j_node_completions := hm_insert name \<lparr>nc_code = code, nc_signal = sig\<rparr> (j_node_completions job)\<rparr>"
  have grace: "preempt_grace job = None" using rep by (simp add: reporting_def preempt_grace_def)
  have act: "is_active (j_state job)" using rep by (simp add: reporting_def)
  define job2 where "job2 = (if j_state job1 \<in> {Running, Suspended} then
      (end_suspension t (case transition t Completing job1 of Inl _ \<Rightarrow> job1 | Inr j \<Rightarrow> j))\<lparr>j_end_time := Some t\<rparr> else job1)"
  have adv: "fst (advance_after_node_report t None t job1) = (if all_nodes_completed job1 then fst (finalize_reported_run t t job2) else job2)"
    by (simp add: advance_after_node_report_def job2_def Let_def)
  have get: "hm_get (c_jobs (apply_entry cfg s (report_entry i (j_run_attempt job) (t, name, code, sig)))) i = Some (fst (advance_after_node_report t None t job1))"
    using job act grace unfolding report_entry_def apply_entry_def apply_operation_def op_timestamp_def occurred_at_def
    by (auto simp: apply_job_node_complete_def job1_def Let_def case_prod_unfold hm_simps split: option.split)
  have all: "all_nodes_completed job1 \<longleftrightarrow> Suc (length (j_node_completions job)) = length (j_allocated_nodes job)"
    using length_hm_insert_new [OF new] by (auto simp: all_nodes_completed_def job1_def)
  have job2: "is_active (j_state job2)" "placement job2 = placement job1" "j_preempt_pending job2 = None"
      "j_run_attempt job2 = j_run_attempt job"
    using act rep
    by (auto simp: job2_def job1_def reporting_def transition_def is_active_def is_terminal_def end_suspension_def placement_def
        Let_def split: option.split)
  show ?thesis
    using get adv all finalize_ends [OF job2(1)] job2 rep by (auto simp: reporting_def placement_def job1_def)
qed

lemma reports_run:
  assumes "hm_get (c_jobs s) i = Some job" and "reporting job" and "reps \<noteq> []"
    and "distinct (map (fst \<circ> snd) reps)" and "set (map (fst \<circ> snd) reps) \<inter> set (hm_keys (j_node_completions job)) = {}"
    and "length (j_node_completions job) + length reps = length (j_allocated_nodes job)"
  shows "\<exists>job'. hm_get (c_jobs (foldl (apply_entry cfg) s (map (report_entry i (j_run_attempt job)) reps))) i = Some job'
     \<and> is_terminal (j_state job') \<and> j_node_completions job' = []"
  using assms
proof (induction reps arbitrary: s job)
  case (Cons r reps)
  obtain t name code sig where r: "r = (t, name, code, sig)" by (metis prod_cases4)
  have new: "hm_get (j_node_completions job) name = None" using Cons.prems(5) by (simp add: r map_of_eq_None_iff)
  obtain job' where job': "hm_get (c_jobs (apply_entry cfg s (report_entry i (j_run_attempt job) r))) i = Some job'"
    and step: "if Suc (length (j_node_completions job)) = length (j_allocated_nodes job)
       then is_terminal (j_state job') \<and> j_node_completions job' = []
       else reporting job' \<and> j_run_attempt job' = j_run_attempt job \<and> j_allocated_nodes job' = j_allocated_nodes job
         \<and> j_node_completions job' = hm_insert name \<lparr>nc_code = code, nc_signal = sig\<rparr> (j_node_completions job)"
    using report_step [OF Cons.prems(1,2) new, of cfg t code sig] by (auto simp: r)
  show ?case
  proof (cases "reps = []")
    case True
    then show ?thesis using job' step Cons.prems(6) by simp
  next
    case False
    then have more: "Suc (length (j_node_completions job)) \<noteq> length (j_allocated_nodes job)" using Cons.prems(6) by (cases reps) auto
    note st = step [unfolded if_not_P [OF more]]
    have keys: "set (hm_keys (j_node_completions job')) = insert name (set (hm_keys (j_node_completions job)))"
      using st by (simp add: dom_update)
    have "set (map (fst \<circ> snd) reps) \<inter> set (hm_keys (j_node_completions job')) = {}"
      unfolding keys using Cons.prems(4,5) by (auto simp: r)
    moreover have "length (j_node_completions job') + length reps = length (j_allocated_nodes job')"
      using st Cons.prems(6) length_hm_insert_new [OF new] by simp
    ultimately show ?thesis using Cons.IH [OF job' _ False] st Cons.prems(4) by simp
  qed
qed simp

text \<open>
  C7. Runs end: when each node of a running, suspended or completing job with no pending preemption has
  reported once, in any order and with any outcome, the job is in a terminal state and all reports are
  accounted for.
\<close>

theorem reports_from_all_nodes_end_the_run:
  assumes "hm_get (c_jobs s) i = Some job" and "is_active (j_state job)" and "j_preempt_pending job = None"
    and "j_node_completions job = []" and "j_allocated_nodes job \<noteq> []" and "distinct (j_allocated_nodes job)"
    and "mset (map (fst \<circ> snd) reps) = mset (j_allocated_nodes job)"
  shows "\<exists>job'. hm_get (c_jobs (foldl (apply_entry cfg) s (map (report_entry i (j_run_attempt job)) reps))) i = Some job'
     \<and> is_terminal (j_state job') \<and> j_node_completions job' = []"
proof (rule reports_run [OF assms(1)])
  have len: "length reps = length (j_allocated_nodes job)" using assms(7) by (metis length_map size_mset)
  then show "reps \<noteq> []" "length (j_node_completions job) + length reps = length (j_allocated_nodes job)" using assms(4,5) by auto
  show "distinct (map (fst \<circ> snd) reps)" using assms(6,7) by (metis mset_eq_imp_distinct_iff)
qed (use assms in \<open>simp_all add: reporting_def\<close>)

definition sample_running_job :: job where
  "sample_running_job = (job_new 20 1 sample_spec)\<lparr>j_state := Running, j_allocated_nodes := [''n1'', ''n2''], j_run_attempt := 1\<rparr>"

theorem reports_from_all_nodes_end_the_run_witness:
  "\<exists>job'. hm_get (c_jobs (foldl (apply_entry sample_config) ((cluster_new [] 1)\<lparr>c_jobs := [(1, sample_running_job)]\<rparr>)
       (map (report_entry 1 1) [(90, ''n2'', 0, 0), (95, ''n1'', 1, 0)]))) 1 = Some job'
     \<and> is_terminal (j_state job') \<and> j_node_completions job' = []"
  using reports_from_all_nodes_end_the_run [of "(cluster_new [] 1)\<lparr>c_jobs := [(1, sample_running_job)]\<rparr>" 1 sample_running_job
      "[(90, ''n2'', 0, 0), (95, ''n1'', 1, 0)]" sample_config]
  by (simp add: sample_running_job_def job_new_def is_active_def add_mset_commute)

section \<open>Earmarks\<close>

definition earmarks_at_most :: "nat \<Rightarrow> cluster \<Rightarrow> bool" where
  "earmarks_at_most k s = list_all (\<lambda>(_, owners). list_all (\<lambda>(_, r). unat r \<le> k) owners) (c_preempt_freed_nodes s)"

definition no_release_awaited :: "cluster \<Rightarrow> bool" where
  "no_release_awaited s = list_all (\<lambda>j. preemptor_awaiting_release j = None) (hm_values (c_jobs s))"

lemma tick_jobs [simp]: "c_jobs (tick_preempt_freed_earmarks s) = c_jobs s"
  by (simp add: tick_preempt_freed_earmarks_def)

lemma age_owner_down:
  assumes "list_all (\<lambda>j. preemptor_awaiting_release j = None) (hm_values jobs)" and "age_owner jobs p r = Some r'"
  shows "unat r = Suc (unat r') \<and> 0 < unat r'"
proof -
  have "\<not> list_ex (\<lambda>j. preemptor_awaiting_release j = Some p) (hm_values jobs)"
    using assms(1) by (auto simp: list_ex_iff list_all_iff)
  then have "r' = sat_sub r 1" "0 < r'" using assms(2) by (auto simp: age_owner_def Let_def split: if_splits)
  then show ?thesis using unat_sat_sub [of r 1] by (simp add: word_less_nat_alt)
qed

lemma tick_lowers:
  assumes "no_release_awaited s" and "earmarks_at_most (Suc k) s"
  shows "earmarks_at_most k (tick_preempt_freed_earmarks s)"
proof -
  have "unat r' \<le> k"
    if "(n, owners) \<in> set (c_preempt_freed_nodes s)" "(p, r) \<in> set owners" "age_owner (c_jobs s) p r = Some r'" for n owners p r r'
    using that age_owner_down [of "c_jobs s" p r r'] assms
    by (fastforce simp: no_release_awaited_def earmarks_at_most_def list_all_iff)
  then show ?thesis
    by (auto simp: earmarks_at_most_def tick_preempt_freed_earmarks_def list_all_iff List.map_filter_def)
qed

lemma tick_drops_last:
  assumes "no_release_awaited s" and "earmarks_at_most 1 s"
  shows "c_preempt_freed_nodes (tick_preempt_freed_earmarks s) = []"
proof -
  have "age_owner (c_jobs s) p r = None" if "(n, owners) \<in> set (c_preempt_freed_nodes s)" "(p, r) \<in> set owners" for n owners p r
    using that age_owner_down [of "c_jobs s" p r] assms
    by (cases "age_owner (c_jobs s) p r") (fastforce simp: no_release_awaited_def earmarks_at_most_def list_all_iff)+
  then show ?thesis
    by (force simp: tick_preempt_freed_earmarks_def filter_empty_conv List.map_filter_def)
qed

lemma ticks_expire:
  "no_release_awaited s \<Longrightarrow> earmarks_at_most (Suc k) s \<Longrightarrow> c_preempt_freed_nodes ((tick_preempt_freed_earmarks ^^ Suc k) s) = []"
proof (induction k arbitrary: s)
  case 0
  then show ?case using tick_drops_last by simp
next
  case (Suc k)
  have "no_release_awaited (tick_preempt_freed_earmarks s)" using Suc.prems(1) by (simp add: no_release_awaited_def)
  from Suc.IH [OF this tick_lowers [OF Suc.prems]] show ?case by (simp only: funpow_Suc_right comp_def)
qed

text \<open>
  Earmarks expire: while no preempted job is still releasing nodes, three scheduling passes drop every
  reservation of freed nodes for a preemptor, from any state whose budgets are within the initial one.
\<close>

theorem earmarks_expire:
  assumes "no_release_awaited s" and "earmarks_at_most (unat preempt_freed_earmark_passes) s"
  shows "c_preempt_freed_nodes ((tick_preempt_freed_earmarks ^^ unat preempt_freed_earmark_passes) s) = []"
proof -
  have "unat preempt_freed_earmark_passes = Suc 2" by (simp add: preempt_freed_earmark_passes_def)
  then show ?thesis using ticks_expire [OF assms(1), of 2] assms(2) by simp
qed

definition sample_earmarked :: cluster where
  "sample_earmarked = (cluster_new [] 1)\<lparr>c_jobs := [(1, job_new 20 1 sample_spec)], c_preempt_freed_nodes := [(''n1'', [(1, 3)])]\<rparr>"

theorem earmarks_expire_witness:
  "c_preempt_freed_nodes ((tick_preempt_freed_earmarks ^^ unat preempt_freed_earmark_passes) sample_earmarked) = []"
  by (rule earmarks_expire)
     (simp_all add: sample_earmarked_def no_release_awaited_def preemptor_awaiting_release_def job_new_def earmarks_at_most_def
       preempt_freed_earmark_passes_def)

end
