(* ===== verification/Admission.thy ===== *)
theory Admission
  imports Resource
begin

text \<open>
  Admission is antitone: a node that can take a request with some resources in use can take it with less in
  use. This is what lets the scheduler check a request only at the instants where usage grows.
\<close>

section \<open>Allocations without empty entries or overflowing totals\<close>

definition ra_pos :: "resource_allocations \<Rightarrow> bool" where
  "ra_pos a = (\<forall>ds \<in> snd ` set (ra_devices a). \<forall>d \<in> set ds. 0 < ad_count d)"

definition gres_total :: "(quantity \<Rightarrow> nat) \<Rightarrow> string \<Rightarrow> nat" where
  "gres_total v g = (\<Sum>i \<in> UNIV. v (QDevice g i))"

definition tame :: "resource_allocations \<Rightarrow> bool" where
  "tame a = (ra_wf a \<and> ra_pos a \<and> (\<forall>g. gres_total (ra_view a) g < 2 ^ 32))"

lemma gres_total_mono: "(\<And>q. v q \<le> w q) \<Longrightarrow> gres_total v g \<le> gres_total w g"
  by (simp add: gres_total_def sum_mono)

lemma ra_pos_entry: "ra_pos a \<Longrightarrow> hm_get (ra_devices a) g = Some ds \<Longrightarrow> \<forall>d \<in> set ds. 0 < ad_count d"
  unfolding ra_pos_def using hm_get_mem by (metis image_eqI snd_conv)

lemma ra_posI:
  assumes "hm_wf (ra_devices a)"
    and "\<And>g ds. hm_get (ra_devices a) g = Some ds \<Longrightarrow> \<forall>d \<in> set ds. 0 < ad_count d"
  shows "ra_pos a"
proof -
  have "\<forall>d \<in> set ds. 0 < ad_count d" if "(g, ds) \<in> set (ra_devices a)" for g ds
    using assms(2) [OF hm_mem_get [OF assms(1) that]] .
  then show ?thesis unfolding ra_pos_def by fastforce
qed

lemma sat_add_pos: "0 < (a :: u64) \<Longrightarrow> 0 < sat_add a b"
  by (simp add: word_less_nat_alt unat_sat_add)

lemma dev_merge_pos:
  "\<forall>e \<in> set es. 0 < ad_count e \<Longrightarrow> 0 < ad_count d \<Longrightarrow> \<forall>e \<in> set (dev_merge d es). 0 < ad_count e"
  by (induction es) (auto simp: sat_add_pos)

lemma dev_merges_pos:
  "\<forall>e \<in> set es. 0 < ad_count e \<Longrightarrow> \<forall>d \<in> set ds. 0 < ad_count d \<Longrightarrow>
     \<forall>e \<in> set (foldl (\<lambda>es d. dev_merge d es) es ds). 0 < ad_count e"
proof (induction ds arbitrary: es)
  case (Cons d ds)
  have "\<forall>e \<in> set (dev_merge d es). 0 < ad_count e" using Cons.prems by (intro dev_merge_pos) simp_all
  from Cons.IH [OF this] show ?case using Cons.prems(2) by simp
qed simp

lemma ra_pos_add:
  assumes "ra_wf a" "ra_wf b" "ra_pos a" "ra_pos b"
  shows "ra_pos (ra_add a b)"
proof (rule ra_posI)
  show "hm_wf (ra_devices (ra_add a b))" using assms ra_wf_add [of a b] by (simp add: ra_wf_def ra_ok_def)
  fix g ds assume "hm_get (ra_devices (ra_add a b)) g = Some ds"
  then have h: "(case hm_get (ra_devices b) g of None \<Rightarrow> hm_get (ra_devices a) g
      | Some bs \<Rightarrow> Some (foldl (\<lambda>es d. dev_merge d es)
                      (case hm_get (ra_devices a) g of None \<Rightarrow> [] | Some es \<Rightarrow> es) bs)) = Some ds"
    using hm_get_ra_add [OF ra_wf_ok [OF assms(2)], of a g] by simp
  show "\<forall>d \<in> set ds. 0 < ad_count d"
  proof (cases "hm_get (ra_devices b) g")
    case None
    then show ?thesis using h ra_pos_entry [OF assms(3)] by simp
  next
    case (Some bs)
    have "\<forall>d \<in> set (case hm_get (ra_devices a) g of None \<Rightarrow> [] | Some es \<Rightarrow> es). 0 < ad_count d"
      using ra_pos_entry [OF assms(3), of g] by (cases "hm_get (ra_devices a) g") simp_all
    from dev_merges_pos [OF this ra_pos_entry [OF assms(4) Some]] show ?thesis using h Some by simp
  qed
qed

lemma ra_pos_subtract:
  assumes "ra_wf a" "ra_wf b" "ra_pos a"
  shows "ra_pos (ra_subtract a b)"
proof (rule ra_posI)
  show "hm_wf (ra_devices (ra_subtract a b))" using assms ra_wf_subtract [of a b] by (simp add: ra_wf_def ra_ok_def)
  fix g ds assume h: "hm_get (ra_devices (ra_subtract a b)) g = Some ds"
  show "\<forall>d \<in> set ds. 0 < ad_count d"
  proof (cases "hm_get (ra_devices b) g")
    case None
    then show ?thesis using h ra_pos_entry [OF assms(3)] by (simp add: hm_get_ra_subtract ra_wf_ok assms)
  next
    case (Some bs)
    then show ?thesis
      using h by (cases "hm_get (ra_devices a) g") (auto simp: hm_get_ra_subtract ra_wf_ok assms Let_def split: if_splits)
  qed
qed

lemma ra_pos_default [simp]: "ra_pos ra_default"
  by (simp add: ra_pos_def ra_default_def)

lemma tame_default: "tame ra_default"
  by (simp add: tame_def gres_total_def del: ra_view.simps)

lemma dev_sum:
  "sum_list (map (\<lambda>d. if P (ad_device_id d) then unat (ad_count d) else 0) ds) = (\<Sum>i | P i. dev_total i ds)"
proof (induction ds)
  case (Cons d ds)
  have "(\<Sum>i | P i. if ad_device_id d = i then unat (ad_count d) else 0) = (if P (ad_device_id d) then unat (ad_count d) else 0)"
    by (simp add: sum.delta)
  then show ?case using Cons by (simp add: sum.distrib)
qed simp

lemma unat_sum_list_counts:
  "sum_list (map (\<lambda>d. unat (ad_count d)) ds) < 2 ^ 64 \<Longrightarrow> unat (sum_list (map ad_count ds)) = sum_list (map (\<lambda>d. unat (ad_count d)) ds)"
proof (induction ds)
  case (Cons d ds)
  then have "unat (sum_list (map ad_count ds)) = sum_list (map (\<lambda>d. unat (ad_count d)) ds)" by simp
  then show ?case using Cons.prems by (simp add: unat_plus_if')
qed simp

lemma generic_count_view:
  assumes "tame a"
  shows "unat (generic_count a g) = gres_total (ra_view a) g"
    and "unat (total_device_count a g) = gres_total (ra_view a) g"
proof -
  have "unat (generic_count a g) = gres_total (ra_view a) g"
  proof (cases "hm_get (ra_devices a) g")
    case (Some ds)
    have s: "sum_list (map (\<lambda>d. unat (ad_count d)) ds) = gres_total (ra_view a) g"
      using dev_sum [of "\<lambda>_. True" ds] Some by (simp add: gres_total_def)
    moreover have "gres_total (ra_view a) g < 2 ^ 32" using assms by (simp add: tame_def)
    ultimately show ?thesis using unat_sum_list_counts [of ds] Some by (simp add: generic_count_def)
  qed (simp add: generic_count_def gres_total_def)
  then show "unat (generic_count a g) = gres_total (ra_view a) g"
    "unat (total_device_count a g) = gres_total (ra_view a) g"
    by (simp_all add: generic_count_def total_device_count_def)
qed

text \<open>The free GPUs of a type: what the inventory has, less what is in use of it.\<close>

definition gpu_is :: "resource_set \<Rightarrow> string \<Rightarrow> u64 \<Rightarrow> bool" where
  "gpu_is rs ty i = (case find (\<lambda>g. gr_stable_id g = i) (rs_gpus rs) of None \<Rightarrow> False | Some g \<Rightarrow> gr_gpu_type g = ty)"

definition count_of :: "(string, u32) hashmap \<Rightarrow> string \<Rightarrow> u32" where
  "count_of m ty = (case hm_get m ty of None \<Rightarrow> 0 | Some n \<Rightarrow> n)"

lemma avail_fold:
  "unat (count_of (foldl (\<lambda>m dev. case find (\<lambda>g. gr_stable_id g = ad_device_id dev) (rs_gpus rs) of
              None \<Rightarrow> m
            | Some g \<Rightarrow> hm_insert (gr_gpu_type g)
                  (sat_sub (case hm_get m (gr_gpu_type g) of None \<Rightarrow> 0 | Some n \<Rightarrow> n) (ucast (ad_count dev))) m) m ds) ty)
   = unat (count_of m ty) - sum_list (map (\<lambda>d. if gpu_is rs ty (ad_device_id d) then unat (ucast (ad_count d) :: u32) else 0) ds)"
proof (induction ds arbitrary: m)
  case (Cons d ds)
  show ?case
    by (subst foldl_Cons, subst Cons.IH)
       (auto simp: gpu_is_def count_of_def hm_simps unat_sat_sub split: option.split)
qed simp

lemma dev_sum_le: "d \<in> set ds \<Longrightarrow> unat (ad_count d) \<le> sum_list (map (\<lambda>d. unat (ad_count d)) ds)"
  by (induction ds) auto

lemma unat_ucast_small: "unat (w :: u64) < 2 ^ 32 \<Longrightarrow> unat (ucast w :: u32) = unat w"
  by (simp add: unsigned_ucast_eq take_bit_nat_eq_self)

lemma avail_gpu_view:
  assumes "tame a"
  shows "unat (count_of (avail_gpu_counts rs a) ty)
    = unat (count_of (gpu_counts rs) ty) - (\<Sum>i | gpu_is rs ty i. ra_view a (QDevice gpu_gres i))"
proof -
  define ds where "ds = (case hm_get (ra_devices a) gpu_gres of None \<Rightarrow> [] | Some ds \<Rightarrow> ds)"
  have v: "ra_view a (QDevice gpu_gres i) = dev_total i ds" for i by (simp add: ds_def split: option.split)
  have "sum_list (map (\<lambda>d. unat (ad_count d)) ds) < 2 ^ 32"
    using assms dev_sum [of "\<lambda>_. True" ds] by (simp add: tame_def gres_total_def v [symmetric])
  then have "\<forall>d \<in> set ds. unat (ucast (ad_count d) :: u32) = unat (ad_count d)"
    using dev_sum_le [of _ ds] by (meson le_less_trans unat_ucast_small)
  then have "sum_list (map (\<lambda>d. if gpu_is rs ty (ad_device_id d) then unat (ucast (ad_count d) :: u32) else 0) ds)
      = (\<Sum>i | gpu_is rs ty i. ra_view a (QDevice gpu_gres i))"
    unfolding v dev_sum [symmetric] by (intro arg_cong [where f = sum_list] map_cong) auto
  then show ?thesis unfolding avail_gpu_counts_def ds_def [symmetric] avail_fold by simp
qed

lemma held_ids_view: "tame a \<Longrightarrow> i \<in> set (device_ids a gpu_gres) \<longleftrightarrow> 0 < ra_view a (QDevice gpu_gres i)"
proof -
  have "(\<forall>d \<in> set ds. 0 < ad_count d) \<Longrightarrow> i \<in> ad_device_id ` set ds \<longleftrightarrow> 0 < dev_total i ds" for ds
    by (induction ds) (auto simp: word_less_nat_alt)
  then show "tame a \<Longrightarrow> ?thesis"
    using ra_pos_entry [of a gpu_gres] by (cases "hm_get (ra_devices a) gpu_gres") (simp_all add: device_ids_def tame_def)
qed

section \<open>Admission\<close>

lemma holds_unknown_mono:
  assumes "tame a" "tame b" "\<And>q. ra_view b q \<le> ra_view a q" "holds_unknown_gpu rs b"
  shows "holds_unknown_gpu rs a"
proof -
  have "set (device_ids b gpu_gres) \<subseteq> set (device_ids a gpu_gres)"
    using held_ids_view [OF assms(1)] held_ids_view [OF assms(2)] less_le_trans [OF _ assms(3)]
    by (simp add: subset_iff del: ra_view.simps)
  then show ?thesis using assms(4) by (auto simp: holds_unknown_gpu_def list_ex_iff)
qed

lemma can_satisfy_iff:
  "can_satisfy_with_allocated rs a req \<longleftrightarrow>
     rs_cpus req \<le> sat_sub (rs_cpus rs) (ra_cpus a) \<and> rs_memory_mb req \<le> sat_sub (rs_memory_mb rs) (ra_memory_mb a)
     \<and> (rs_gpus req = [] \<or> \<not> holds_unknown_gpu rs a)
     \<and> (\<forall>(t, n) \<in> set (gpu_counts req).
          n \<le> (if t = ''any'' then sat_sub (sum_list (hm_values (gpu_counts rs))) (ucast (total_device_count a gpu_gres))
               else count_of (avail_gpu_counts rs a) t))
     \<and> (\<forall>(g, n) \<in> set (rs_generic req).
          n \<le> sat_sub (case hm_get (rs_generic rs) g of None \<Rightarrow> 0 | Some n \<Rightarrow> n) (generic_count a g))"
proof -
  have t: "(if c then n \<le> x else n \<le> y) = (n \<le> (if c then x else y))" for c and n x y :: u32 by simp
  have u: "(if x < y \<or> x' < y' then False else if B then False else C) = (y \<le> x \<and> y' \<le> x' \<and> \<not> B \<and> C)"
    for x y :: u32 and x' y' :: u64 and B C by auto
  show ?thesis
    unfolding can_satisfy_with_allocated_def Let_def u list_all_iff count_of_def [symmetric] not_less t
    by blast
qed

lemma can_satisfy_antitone:
  assumes a: "tame a" and b: "tame b" and le: "\<And>q. ra_view b q \<le> ra_view a q"
    and sat: "can_satisfy_with_allocated rs a req"
  shows "can_satisfy_with_allocated rs b req"
proof -
  have cpus: "sat_sub (rs_cpus rs) (ra_cpus a) \<le> sat_sub (rs_cpus rs) (ra_cpus b)"
    using le [of QCpus] by (simp add: word_le_nat_alt unat_sat_sub)
  have mem: "sat_sub (rs_memory_mb rs) (ra_memory_mb a) \<le> sat_sub (rs_memory_mb rs) (ra_memory_mb b)"
    using le [of QMemory] by (simp add: word_le_nat_alt unat_sat_sub)
  have tot: "gres_total (ra_view b) g \<le> gres_total (ra_view a) g" for g using le by (rule gres_total_mono)
  have gen: "sat_sub n (generic_count a g) \<le> sat_sub n (generic_count b g)" for n g
    using tot [of g] by (simp add: word_le_nat_alt unat_sat_sub generic_count_view a b diff_le_mono2)
  have small: "unat (ucast (total_device_count c gpu_gres) :: u32) = gres_total (ra_view c) gpu_gres" if "tame c" for c
    using that generic_count_view(2) [OF that, of gpu_gres] unat_ucast_small by (simp add: tame_def)
  have any: "sat_sub n (ucast (total_device_count a gpu_gres)) \<le> sat_sub n (ucast (total_device_count b gpu_gres) :: u32)" for n
    using tot [of gpu_gres] by (simp add: word_le_nat_alt unat_sat_sub small a b diff_le_mono2)
  have "(\<Sum>i | gpu_is rs t i. ra_view b (QDevice gpu_gres i)) \<le> (\<Sum>i | gpu_is rs t i. ra_view a (QDevice gpu_gres i))" for t
    using le by (rule sum_mono)
  then have typed: "count_of (avail_gpu_counts rs a) t \<le> count_of (avail_gpu_counts rs b) t" for t
    by (simp add: word_le_nat_alt avail_gpu_view a b diff_le_mono2 del: ra_view.simps)
  have unknown: "\<not> holds_unknown_gpu rs a \<Longrightarrow> \<not> holds_unknown_gpu rs b" using holds_unknown_mono [OF a b le] by blast
  have "rs_cpus req \<le> sat_sub (rs_cpus rs) (ra_cpus b)" "rs_memory_mb req \<le> sat_sub (rs_memory_mb rs) (ra_memory_mb b)"
    using sat order_trans [OF _ cpus] order_trans [OF _ mem] unfolding can_satisfy_iff by simp_all
  moreover have "rs_gpus req = [] \<or> \<not> holds_unknown_gpu rs b"
    using sat unknown unfolding can_satisfy_iff by (elim conjE disjE) simp_all
  moreover have "\<forall>(t, n) \<in> set (gpu_counts req).
      n \<le> (if t = ''any'' then sat_sub (sum_list (hm_values (gpu_counts rs))) (ucast (total_device_count b gpu_gres))
           else count_of (avail_gpu_counts rs b) t)" (is "?gpus b")
  proof -
    have g: "?gpus a" using sat unfolding can_satisfy_iff by (elim conjE)
    show ?thesis
    proof (rule ballI, clarify)
      fix t n assume m: "(t, n) \<in> set (gpu_counts req)"
      show "n \<le> (if t = ''any'' then sat_sub (sum_list (hm_values (gpu_counts rs))) (ucast (total_device_count b gpu_gres))
           else count_of (avail_gpu_counts rs b) t)"
        using bspec [OF g m] order_trans [OF _ any] order_trans [OF _ typed] by (cases "t = ''any''") simp_all
    qed
  qed
  moreover have "\<forall>(g, n) \<in> set (rs_generic req).
      n \<le> sat_sub (case hm_get (rs_generic rs) g of None \<Rightarrow> 0 | Some n \<Rightarrow> n) (generic_count b g)" (is "?generic b")
  proof -
    have g: "?generic a" using sat unfolding can_satisfy_iff by (elim conjE)
    show ?thesis
    proof (rule ballI, clarify)
      fix g n assume m: "(g, n) \<in> set (rs_generic req)"
      show "n \<le> sat_sub (case hm_get (rs_generic rs) g of None \<Rightarrow> 0 | Some n \<Rightarrow> n) (generic_count b g)"
        using bspec [OF g m] order_trans [OF _ gen] by simp
    qed
  qed
  ultimately show ?thesis unfolding can_satisfy_iff by (intro conjI)
qed

end
