(* ===== verification/Timeline.thy ===== *)
theory Timeline
  imports Admission "HOL-Library.Product_Lexorder" "HOL-Library.Multiset"
begin

text \<open>
  The resource timeline of one node (\<^verbatim>\<open>spur-sched/src/timeline.rs\<close>): reserved intervals sorted by start,
  the incremental sweep over them and the search for a start time.

  Instants and durations are nanosecond counts. A \<^verbatim>\<open>BinaryHeap\<close> of reversed pairs is the ascending list of
  its elements: \<^verbatim>\<open>peek\<close> is the head. \<^verbatim>\<open>partition_point\<close> is the length of the longest prefix that
  satisfies the predicate, which is what it returns on a partitioned slice.
\<close>

section \<open>Data\<close>

record interval =
  iv_start :: instant
  iv_end :: instant
  iv_resources :: resource_allocations
  iv_job_id :: "u32 option"

record node_timeline =
  tl_node_name :: string
  tl_total :: resource_set
  tl_intervals :: "interval list"

record allocation_sweep =
  sw_intervals :: "interval list"
  sw_used :: resource_allocations
  sw_next_start :: nat
  sw_ending :: "(instant \<times> nat) list"

definition unlimited_job_duration :: instant where
  "unlimited_job_duration = duration_days 365"

section \<open>The sweep\<close>

fun sweep_starts :: "instant \<Rightarrow> interval list \<Rightarrow> allocation_sweep \<Rightarrow> allocation_sweep" where
  "sweep_starts time [] sw = sw"
| "sweep_starts time (interval # rest) sw =
     (if iv_start interval \<le> time
      then sweep_starts time rest
             (sw\<lparr>sw_used := ra_add (sw_used sw) (iv_resources interval),
                 sw_ending := insort (iv_end interval, sw_next_start sw) (sw_ending sw),
                 sw_next_start := sw_next_start sw + 1\<rparr>)
      else sw)"

fun sweep_ends :: "instant \<Rightarrow> interval list \<Rightarrow> (instant \<times> nat) list \<Rightarrow> resource_allocations
    \<Rightarrow> (instant \<times> nat) list \<times> resource_allocations" where
  "sweep_ends time ivs [] used = ([], used)"
| "sweep_ends time ivs ((e, idx) # ending) used =
     (if e \<le> time then sweep_ends time ivs ending (ra_subtract used (iv_resources (ivs ! idx)))
      else ((e, idx) # ending, used))"

definition advance_to :: "instant \<Rightarrow> allocation_sweep \<Rightarrow> allocation_sweep" where
  "advance_to time sw0 =
     (let sw = sweep_starts time (drop (sw_next_start sw0) (sw_intervals sw0)) sw0;
          (ending, used) = sweep_ends time (sw_intervals sw) (sw_ending sw) (sw_used sw)
      in sw\<lparr>sw_ending := ending, sw_used := used\<rparr>)"

definition sweep_new :: "interval list \<Rightarrow> instant \<Rightarrow> allocation_sweep" where
  "sweep_new intervals time = advance_to time
     \<lparr>sw_intervals = intervals, sw_used = ra_default, sw_next_start = 0, sw_ending = []\<rparr>"

definition earliest_active_end :: "allocation_sweep \<Rightarrow> instant option" where
  "earliest_active_end sw = (case sw_ending sw of [] \<Rightarrow> None | (e, _) # _ \<Rightarrow> Some e)"

section \<open>Queries\<close>

definition timeline_new :: "string \<Rightarrow> resource_set \<Rightarrow> node_timeline" where
  "timeline_new node_name total_set = \<lparr>tl_node_name = node_name, tl_total = total_set, tl_intervals = []\<rparr>"

definition active_prefix_end :: "node_timeline \<Rightarrow> instant \<Rightarrow> nat" where
  "active_prefix_end self time = length (takeWhile (\<lambda>i. iv_start i \<le> time) (tl_intervals self))"

definition overlap_prefix_end :: "node_timeline \<Rightarrow> instant \<Rightarrow> nat" where
  "overlap_prefix_end self window_end = length (takeWhile (\<lambda>i. iv_start i < window_end) (tl_intervals self))"

text \<open>The loop of \<^verbatim>\<open>duration_blocker\<close>; the sweep it leaves behind is the caller's.\<close>

fun duration_blocker_loop :: "resource_set \<Rightarrow> resource_set \<Rightarrow> instant \<Rightarrow> interval list \<Rightarrow> allocation_sweep
    \<Rightarrow> instant option \<times> allocation_sweep" where
  "duration_blocker_loop total_set request start [] sw = (None, sw)"
| "duration_blocker_loop total_set request start (interval # rest) sw =
     (if iv_start interval \<le> start \<or> iv_end interval \<le> start
      then duration_blocker_loop total_set request start rest sw
      else (let sw' = advance_to (iv_start interval) sw
            in if \<not> can_satisfy_with_allocated total_set (sw_used sw') request
               then (Some (iv_end interval), sw')
               else duration_blocker_loop total_set request start rest sw'))"

definition duration_blocker :: "node_timeline \<Rightarrow> allocation_sweep \<Rightarrow> resource_set \<Rightarrow> instant \<Rightarrow> instant
    \<Rightarrow> instant option \<times> allocation_sweep" where
  "duration_blocker self sw request start duration =
     (let window_end = start + duration
      in duration_blocker_loop (tl_total self) request start
           (take (overlap_prefix_end self window_end) (tl_intervals self)) sw)"

definition accumulated_at :: "node_timeline \<Rightarrow> instant \<Rightarrow> resource_allocations" where
  "accumulated_at self time =
     foldl (\<lambda>used i. if time < iv_end i then ra_add used (iv_resources i) else used) ra_default
       (take (active_prefix_end self time) (tl_intervals self))"

definition can_satisfy_at :: "node_timeline \<Rightarrow> instant \<Rightarrow> resource_set \<Rightarrow> bool" where
  "can_satisfy_at self time request = can_satisfy_with_allocated (tl_total self) (accumulated_at self time) request"

partial_function (option) earliest_loop ::
  "node_timeline \<Rightarrow> resource_set \<Rightarrow> instant \<Rightarrow> instant \<Rightarrow> instant \<Rightarrow> allocation_sweep \<Rightarrow> instant option" where
  "earliest_loop self request duration max_check candidate sw0 =
     (if max_check < candidate then Some max_check
      else (let sw = advance_to candidate sw0
            in if can_satisfy_with_allocated (tl_total self) (sw_used sw) request
               then (case duration_blocker self sw request candidate duration of
                       (Some jump, sw') \<Rightarrow> earliest_loop self request duration max_check jump sw'
                     | (None, sw') \<Rightarrow> Some candidate)
               else (case earliest_active_end sw of
                       Some t \<Rightarrow> earliest_loop self request duration max_check t sw
                     | None \<Rightarrow> Some candidate)))"

definition earliest_start :: "node_timeline \<Rightarrow> resource_set \<Rightarrow> instant \<Rightarrow> instant \<Rightarrow> instant option" where
  "earliest_start self request duration after =
     earliest_loop self request duration (after + duration_days 365) after (sweep_new (tl_intervals self) after)"

section \<open>Updates\<close>

definition reserve_for_job ::
  "instant \<Rightarrow> instant \<Rightarrow> resource_allocations \<Rightarrow> u32 option \<Rightarrow> node_timeline \<Rightarrow> node_timeline" where
  "reserve_for_job start stop resources job_id self = self\<lparr>tl_intervals :=
     sort_key iv_start (tl_intervals self @
       [\<lparr>iv_start = start, iv_end = stop, iv_resources = resources, iv_job_id = job_id\<rparr>])\<rparr>"

definition reserve :: "instant \<Rightarrow> instant \<Rightarrow> resource_allocations \<Rightarrow> node_timeline \<Rightarrow> node_timeline" where
  "reserve start stop resources self = reserve_for_job start stop resources None self"

definition timeline_release :: "instant \<Rightarrow> instant \<Rightarrow> node_timeline \<Rightarrow> node_timeline" where
  "timeline_release start stop self = self\<lparr>tl_intervals :=
     filter (\<lambda>i. \<not> (iv_start i = start \<and> iv_end i = stop)) (tl_intervals self)\<rparr>"

definition gc :: "instant \<Rightarrow> node_timeline \<Rightarrow> node_timeline" where
  "gc horizon self = self\<lparr>tl_intervals := filter (\<lambda>i. horizon < iv_end i) (tl_intervals self)\<rparr>"

section \<open>Load\<close>

definition active_at :: "instant \<Rightarrow> interval \<Rightarrow> bool" where
  "active_at t i = (iv_start i \<le> t \<and> t < iv_end i)"

definition load :: "interval list \<Rightarrow> instant \<Rightarrow> quantity \<Rightarrow> nat" where
  "load ivs t q = (\<Sum>i\<leftarrow>ivs. if active_at t i then ra_view (iv_resources i) q else 0)"

definition demand :: "interval list \<Rightarrow> quantity \<Rightarrow> nat" where
  "demand ivs q = (\<Sum>i\<leftarrow>ivs. ra_view (iv_resources i) q)"

text \<open>
  A well-formed timeline: sorted by start, no empty interval, and even all reservations together
  stay below the width of the counters.
\<close>

definition timeline_wf :: "interval list \<Rightarrow> bool" where
  "timeline_wf ivs =
     (sorted (map iv_start ivs)
      \<and> (\<forall>i \<in> set ivs. iv_start i < iv_end i \<and> ra_wf (iv_resources i) \<and> ra_pos (iv_resources i))
      \<and> (\<forall>q. demand ivs q \<le> ra_cap q) \<and> (\<forall>g. gres_total (demand ivs) g < 2 ^ 32))"

lemma sum_list_le: "(\<And>x. x \<in> set xs \<Longrightarrow> f x \<le> (g x :: nat)) \<Longrightarrow> sum_list (map f xs) \<le> sum_list (map g xs)"
  by (induction xs) (auto intro: add_mono)

lemma load_le_demand: "load ivs t q \<le> demand ivs q"
  unfolding load_def demand_def by (rule sum_list_le) simp

lemma load_indices:
  "load ivs t q = (\<Sum>k | k < length ivs \<and> active_at t (ivs ! k). ra_view (iv_resources (ivs ! k)) q)"
proof -
  have "load ivs t q = (\<Sum>k < length ivs. if active_at t (ivs ! k) then ra_view (iv_resources (ivs ! k)) q else 0)"
    by (simp add: load_def sum_list_sum_nth atLeast0LessThan)
  also have "\<dots> = (\<Sum>k \<in> {..<length ivs} \<inter> {k. active_at t (ivs ! k)}. ra_view (iv_resources (ivs ! k)) q)"
    by (simp add: sum.inter_restrict)
  finally show ?thesis by (simp add: Int_def)
qed

lemma demand_indices: "demand ivs q = (\<Sum>k < length ivs. ra_view (iv_resources (ivs ! k)) q)"
  by (simp add: demand_def sum_list_sum_nth atLeast0LessThan)

lemma tame_load:
  assumes "timeline_wf ivs" "ra_wf a" "ra_pos a" "\<And>q. ra_view a q = load ivs t q"
  shows "tame a"
proof -
  have "gres_total (ra_view a) g < 2 ^ 32" for g
    using gres_total_mono [of "ra_view a" "demand ivs" g] assms load_le_demand [of ivs t]
    by (auto simp: timeline_wf_def intro: le_less_trans simp del: ra_view.simps)
  then show ?thesis using assms by (simp add: tame_def)
qed

subsection \<open>Accumulation\<close>

lemma sorted_takeWhile_filter:
  assumes "sorted (map f xs)" and down: "\<And>x y. f x \<le> f y \<Longrightarrow> P y \<Longrightarrow> P x"
  shows "takeWhile P xs = filter P xs"
  using assms(1)
proof (induction xs)
  case (Cons x xs)
  then have "\<not> P x \<Longrightarrow> filter P xs = []" using down by (fastforce simp: filter_empty_conv)
  then show ?case using Cons by simp
qed simp

lemma accumulated_filter:
  assumes "sorted (map iv_start (tl_intervals self))"
  shows "accumulated_at self t = foldl ra_add ra_default (map iv_resources (filter (active_at t) (tl_intervals self)))"
proof -
  have f: "foldl (\<lambda>used i. if t < iv_end i then ra_add used (iv_resources i) else used) a xs
      = foldl ra_add a (map iv_resources (filter (\<lambda>i. t < iv_end i) xs))" for a xs
    by (induction xs arbitrary: a) auto
  have "(\<lambda>i. iv_start i \<le> t \<and> t < iv_end i) = active_at t" by (simp add: fun_eq_iff active_at_def)
  then show ?thesis
    unfolding accumulated_at_def active_prefix_end_def takeWhile_eq_take [symmetric] f
    by (subst sorted_takeWhile_filter [OF assms]) (auto simp: filter_filter)
qed

lemma load_filter: "load ivs t q = (\<Sum>a\<leftarrow>map iv_resources (filter (active_at t) ivs). ra_view a q)"
  unfolding load_def by (induction ivs) simp_all

lemma ra_pos_adds: "ra_wf a \<Longrightarrow> ra_pos a \<Longrightarrow> \<forall>b \<in> set bs. ra_wf b \<and> ra_pos b \<Longrightarrow> ra_pos (foldl ra_add a bs)"
  by (induction bs arbitrary: a) (simp_all add: ra_pos_add ra_wf_add ra_wf_ok)

lemma accumulated_load:
  assumes "timeline_wf (tl_intervals self)"
  shows "ra_view (accumulated_at self t) q = load (tl_intervals self) t q"
    and "tame (accumulated_at self t)"
proof -
  let ?bs = "map iv_resources (filter (active_at t) (tl_intervals self))"
  have acc: "accumulated_at self t = foldl ra_add ra_default ?bs"
    using assms by (intro accumulated_filter) (simp add: timeline_wf_def)
  have ok: "list_all ra_ok ?bs" using assms by (auto simp: timeline_wf_def list_all_iff ra_wf_ok)
  have le: "load (tl_intervals self) t q \<le> ra_cap q" for q
    using assms load_le_demand le_trans by (metis timeline_wf_def)
  show v: "ra_view (accumulated_at self t) q = load (tl_intervals self) t q" for q
    using ra.view_charges [OF ra_wf_default ok, of q] le [of q] by (simp add: acc load_filter del: ra_view.simps)
  have "ra_wf (accumulated_at self t)" unfolding acc using ra.inv_charges [OF ra_wf_default ok] .
  moreover have "ra_pos (accumulated_at self t)"
    unfolding acc using assms by (intro ra_pos_adds) (auto simp: timeline_wf_def)
  ultimately show "tame (accumulated_at self t)" using tame_load [OF assms] v by blast
qed

subsection \<open>The sweep agrees with accumulation\<close>

definition ends_of :: "interval list \<Rightarrow> nat set \<Rightarrow> (instant \<times> nat) set" where
  "ends_of ivs ks = (\<lambda>k. (iv_end (ivs ! k), k)) ` ks"

text \<open>What both loops of \<^const>\<open>advance_to\<close> keep: the sum in use is the sum over the queued intervals.\<close>

definition loaded :: "interval list \<Rightarrow> allocation_sweep \<Rightarrow> nat set \<Rightarrow> bool" where
  "loaded ivs sw ks =
     (sw_intervals sw = ivs \<and> sw_next_start sw \<le> length ivs \<and> ks \<subseteq> {..<sw_next_start sw}
      \<and> sorted (sw_ending sw) \<and> distinct (sw_ending sw) \<and> set (sw_ending sw) = ends_of ivs ks
      \<and> ra_wf (sw_used sw) \<and> ra_pos (sw_used sw)
      \<and> (\<forall>q. ra_view (sw_used sw) q = (\<Sum>k \<in> ks. ra_view (iv_resources (ivs ! k)) q)))"

lemma ends_of_mem [simp]: "(e, k) \<in> ends_of ivs ks \<longleftrightarrow> k \<in> ks \<and> e = iv_end (ivs ! k)"
  by (auto simp: ends_of_def)

lemma ends_of_insert: "ends_of ivs (insert k ks) = insert (iv_end (ivs ! k), k) (ends_of ivs ks)"
  by (simp add: ends_of_def)

lemma sum_indices_le:
  "ks \<subseteq> {..<length ivs} \<Longrightarrow> (\<Sum>k \<in> ks. ra_view (iv_resources (ivs ! k)) q) \<le> demand ivs q"
  unfolding demand_indices by (rule sum_mono2) auto

lemma loaded_start:
  assumes wf: "timeline_wf ivs" and l: "loaded ivs sw ks" and n: "sw_next_start sw < length ivs"
  shows "loaded ivs (sw\<lparr>sw_used := ra_add (sw_used sw) (iv_resources (ivs ! sw_next_start sw)),
            sw_ending := insort (iv_end (ivs ! sw_next_start sw), sw_next_start sw) (sw_ending sw),
            sw_next_start := sw_next_start sw + 1\<rparr>) (insert (sw_next_start sw) ks)"
proof -
  let ?n = "sw_next_start sw"
  have fresh: "?n \<notin> ks" "finite ks" using l by (auto simp: loaded_def intro: finite_subset)
  have i: "ra_wf (iv_resources (ivs ! ?n))" "ra_pos (iv_resources (ivs ! ?n))" using wf n by (auto simp: timeline_wf_def)
  have used: "ra_wf (sw_used sw)" "ra_pos (sw_used sw)" using l by (auto simp: loaded_def)
  have "ra_view (ra_add (sw_used sw) (iv_resources (ivs ! ?n))) q
      = (\<Sum>k \<in> insert ?n ks. ra_view (iv_resources (ivs ! k)) q)" for q
  proof -
    have "insert ?n ks \<subseteq> {..<length ivs}" using l n by (auto simp: loaded_def)
    then have "(\<Sum>k \<in> insert ?n ks. ra_view (iv_resources (ivs ! k)) q) \<le> ra_cap q"
      using wf le_trans [OF sum_indices_le, of "insert ?n ks" ivs q] by (simp add: timeline_wf_def del: ra_view.simps)
    moreover have "ra_view (sw_used sw) q = (\<Sum>k \<in> ks. ra_view (iv_resources (ivs ! k)) q)"
      using l unfolding loaded_def by blast
    ultimately show ?thesis
      using fresh ra_view_add [OF used(1) ra_wf_ok [OF i(1)], of q] by (simp del: ra_view.simps)
  qed
  then show ?thesis
    using l n fresh ra_wf_add [OF used(1) ra_wf_ok [OF i(1)]] ra_pos_add [OF used(1) i(1) used(2) i(2)]
    unfolding loaded_def
    by (simp add: sorted_insort distinct_insort set_insort_key ends_of_insert lessThan_Suc less_Suc_eq subset_iff
        del: ra_view.simps)
qed

lemma loaded_starts:
  assumes "timeline_wf ivs" "loaded ivs sw ks" "rest = drop (sw_next_start sw) ivs"
  shows "loaded ivs (sweep_starts t rest sw) (ks \<union> {sw_next_start sw..<sw_next_start (sweep_starts t rest sw)})
    \<and> sw_next_start sw \<le> sw_next_start (sweep_starts t rest sw)
    \<and> (\<forall>k. sw_next_start sw \<le> k \<and> k < sw_next_start (sweep_starts t rest sw) \<longrightarrow> iv_start (ivs ! k) \<le> t)
    \<and> (sw_next_start (sweep_starts t rest sw) < length ivs \<longrightarrow>
         t < iv_start (ivs ! sw_next_start (sweep_starts t rest sw)))"
  using assms(2,3)
proof (induction rest arbitrary: sw ks)
  case Nil
  then show ?case by (auto simp: loaded_def)
next
  case (Cons i rest)
  let ?n = "sw_next_start sw"
  have n: "?n < length ivs" using Cons.prems(2) by (metis drop_all list.distinct(1) not_le)
  then have i: "i = ivs ! ?n" and rest: "rest = drop (?n + 1) ivs"
    using Cons.prems(2) [unfolded Cons_nth_drop_Suc [OF n, symmetric]] by simp_all
  show ?case
  proof (cases "iv_start i \<le> t")
    case True
    let ?sw = "sw\<lparr>sw_used := ra_add (sw_used sw) (iv_resources i),
       sw_ending := insort (iv_end i, ?n) (sw_ending sw), sw_next_start := ?n + 1\<rparr>"
    have l: "loaded ivs ?sw (insert ?n ks)" using loaded_start [OF assms(1) Cons.prems(1) n] by (simp add: i)
    let ?m = "sw_next_start (sweep_starts t rest ?sw)"
    from Cons.IH [OF l] have IH: "loaded ivs (sweep_starts t rest ?sw) (insert ?n ks \<union> {?n + 1..<?m})" "?n + 1 \<le> ?m"
      "\<forall>k. ?n + 1 \<le> k \<and> k < ?m \<longrightarrow> iv_start (ivs ! k) \<le> t" "?m < length ivs \<longrightarrow> t < iv_start (ivs ! ?m)"
      using rest by simp_all
    have "insert ?n ks \<union> {?n + 1..<?m} = ks \<union> {?n..<?m}" using IH(2) by auto
    then show ?thesis
      using IH True by (auto simp: i not_less_eq_eq dest: le_neq_implies_less)
  next
    case False
    then show ?thesis using Cons.prems(1) by (simp add: i)
  qed
qed

lemma loaded_end:
  assumes "timeline_wf ivs" "loaded ivs sw ks" "sw_ending sw = (e, k) # rest"
  shows "loaded ivs (sw\<lparr>sw_ending := rest, sw_used := ra_subtract (sw_used sw) (iv_resources (ivs ! k))\<rparr>) (ks - {k})"
    and "k \<in> ks" and "e = iv_end (ivs ! k)"
proof -
  have "set (sw_ending sw) = ends_of ivs ks" using assms(2) by (simp add: loaded_def)
  then have "(e, k) \<in> ends_of ivs ks" using assms(3) by (metis list.set_intros(1))
  then show k: "k \<in> ks" "e = iv_end (ivs ! k)" by simp_all
  have "k < length ivs" using k assms(2) by (auto simp: loaded_def)
  then have i: "ra_wf (iv_resources (ivs ! k))" using assms(1) by (auto simp: timeline_wf_def)
  have used: "ra_wf (sw_used sw)" "ra_pos (sw_used sw)" "finite ks"
    using assms(2) by (auto simp: loaded_def intro: finite_subset)
  have "ra_view (ra_subtract (sw_used sw) (iv_resources (ivs ! k))) q
      = (\<Sum>k \<in> ks - {k}. ra_view (iv_resources (ivs ! k)) q)" for q
  proof -
    have "ra_view (sw_used sw) q = (\<Sum>k \<in> ks. ra_view (iv_resources (ivs ! k)) q)"
      using assms(2) unfolding loaded_def by blast
    then show ?thesis
      using k used(3) ra_view_subtract [OF used(1) ra_wf_ok [OF i], of q]
        sum.remove [OF used(3) k(1), of "\<lambda>k. ra_view (iv_resources (ivs ! k)) q"] by (simp del: ra_view.simps)
  qed
  moreover have "set rest = ends_of ivs (ks - {k})"
  proof -
    have "set ((e, k) # rest) = ends_of ivs ks" "(e, k) \<notin> set rest" using assms(2,3) by (simp_all add: loaded_def)
    then have "set rest = ends_of ivs ks - {(e, k)}" by auto
    also have "\<dots> = ends_of ivs (ks - {k})" using k by (auto simp: ends_of_def)
    finally show ?thesis .
  qed
  ultimately show "loaded ivs (sw\<lparr>sw_ending := rest,
      sw_used := ra_subtract (sw_used sw) (iv_resources (ivs ! k))\<rparr>) (ks - {k})"
    using assms(2,3) ra_wf_subtract [OF used(1) ra_wf_ok [OF i]] ra_pos_subtract [OF used(1) i used(2)]
    unfolding loaded_def by (auto simp del: ra_view.simps)
qed

lemma loaded_ends:
  assumes "timeline_wf ivs" "loaded ivs sw ks" "sweep_ends t ivs (sw_ending sw) (sw_used sw) = (ending, used)"
  shows "loaded ivs (sw\<lparr>sw_ending := ending, sw_used := used\<rparr>) {k \<in> ks. t < iv_end (ivs ! k)}"
  using assms(2,3)
proof (induction "sw_ending sw" arbitrary: sw ks)
  case Nil
  then have "ks = {}" by (auto simp: loaded_def ends_of_def)
  then show ?case using Nil by (simp add: loaded_def)
next
  case (Cons x rest)
  obtain e k where x: "x = (e, k)" by force
  note hd = Cons.hyps(2) [symmetric, unfolded x]
  note step = loaded_end [OF assms(1) Cons.prems(1) hd]
  show ?case
  proof (cases "e \<le> t")
    case True
    let ?sw = "sw\<lparr>sw_ending := rest, sw_used := ra_subtract (sw_used sw) (iv_resources (ivs ! k))\<rparr>"
    have "{j \<in> ks - {k}. t < iv_end (ivs ! j)} = {j \<in> ks. t < iv_end (ivs ! j)}" using True step(3) by auto
    then show ?thesis using Cons.hyps(1) [of ?sw, OF _ step(1)] Cons.prems(2) True hd by simp
  next
    case False
    have "t < iv_end (ivs ! j)" if "j \<in> ks" for j
    proof -
      have "(iv_end (ivs ! j), j) \<in> set (sw_ending sw)" using that Cons.prems(1) by (simp add: loaded_def)
      moreover have "sorted (sw_ending sw)" using Cons.prems(1) by (simp add: loaded_def)
      ultimately show ?thesis using False hd by (auto simp: less_eq_prod_def)
    qed
    then have "{j \<in> ks. t < iv_end (ivs ! j)} = ks" by auto
    then show ?thesis using False hd Cons.prems by auto
  qed
qed

definition swept :: "interval list \<Rightarrow> instant \<Rightarrow> allocation_sweep \<Rightarrow> bool" where
  "swept ivs t sw =
     (loaded ivs sw {k. k < sw_next_start sw \<and> t < iv_end (ivs ! k)}
      \<and> (\<forall>k < sw_next_start sw. iv_start (ivs ! k) \<le> t)
      \<and> (sw_next_start sw < length ivs \<longrightarrow> t < iv_start (ivs ! sw_next_start sw)))"

lemma swept_advance_from:
  assumes wf: "timeline_wf ivs"
    and l: "loaded ivs sw {k. k < sw_next_start sw \<and> s < iv_end (ivs ! k)}"
    and early: "\<forall>k < sw_next_start sw. iv_start (ivs ! k) \<le> s" and le: "s \<le> t"
  shows "swept ivs t (advance_to t sw)"
proof -
  let ?sw = "sweep_starts t (drop (sw_next_start sw) ivs) sw"
  let ?n = "sw_next_start sw" and ?m = "sw_next_start ?sw"
  obtain ending used where e: "sweep_ends t ivs (sw_ending ?sw) (sw_used ?sw) = (ending, used)" by force
  note st = loaded_starts [OF wf l refl, of t]
  have ivs: "sw_intervals sw = ivs" "sw_intervals ?sw = ivs" using l st by (simp_all add: loaded_def)
  have adv: "advance_to t sw = ?sw\<lparr>sw_ending := ending, sw_used := used\<rparr>"
    by (simp add: advance_to_def ivs e Let_def)
  have "{k \<in> {k. k < ?n \<and> s < iv_end (ivs ! k)} \<union> {?n..<?m}. t < iv_end (ivs ! k)} = {k. k < ?m \<and> t < iv_end (ivs ! k)}"
    using st le by auto
  then have "loaded ivs (advance_to t sw) {k. k < ?m \<and> t < iv_end (ivs ! k)}"
    using loaded_ends [OF wf conjunct1 [OF st] e] by (simp add: adv)
  moreover have "iv_start (ivs ! k) \<le> t" if "k < ?m" for k
    using st early le that by (cases "k < ?n") auto
  ultimately show ?thesis using st by (simp add: swept_def adv)
qed

lemma swept_advance: "timeline_wf ivs \<Longrightarrow> swept ivs s sw \<Longrightarrow> s \<le> t \<Longrightarrow> swept ivs t (advance_to t sw)"
  unfolding swept_def [of _ s] by (blast intro: swept_advance_from)

lemma swept_new: "timeline_wf ivs \<Longrightarrow> swept ivs t (sweep_new ivs t)"
  unfolding sweep_new_def by (rule swept_advance_from [where s = t]) (auto simp: loaded_def ends_of_def)

lemma swept_used:
  assumes "timeline_wf ivs" "swept ivs t sw"
  shows "ra_view (sw_used sw) q = load ivs t q" and "tame (sw_used sw)"
proof -
  let ?n = "sw_next_start sw"
  have "t < iv_start (ivs ! k)" if "?n \<le> k" "k < length ivs" for k
    using that assms sorted_nth_mono [of "map iv_start ivs" ?n k]
    by (auto simp: timeline_wf_def swept_def loaded_def)
  then have "{k. k < length ivs \<and> active_at t (ivs ! k)} = {k. k < ?n \<and> t < iv_end (ivs ! k)}"
    using assms(2) by (force simp: swept_def loaded_def active_at_def not_le [symmetric])
  then show v: "ra_view (sw_used sw) q = load ivs t q" for q
    using assms(2) unfolding load_indices swept_def loaded_def by simp
  show "tame (sw_used sw)"
    using tame_load [OF assms(1) _ _ v] assms(2) by (simp add: swept_def loaded_def)
qed

lemma sweep_admits:
  assumes "timeline_wf (tl_intervals self)" "swept (tl_intervals self) t sw"
  shows "can_satisfy_with_allocated (tl_total self) (sw_used sw) req = can_satisfy_at self t req"
  unfolding can_satisfy_at_def
  using swept_used [OF assms] accumulated_load [OF assms(1), of t]
  by (blast intro: can_satisfy_antitone eq_refl trans sym)

section \<open>The search for a start\<close>

lemma load_mono: "(\<And>i. i \<in> set ivs \<Longrightarrow> active_at u i \<Longrightarrow> active_at s i) \<Longrightarrow> load ivs u q \<le> load ivs s q"
  unfolding load_def by (rule sum_list_le) simp

lemma can_satisfy_at_mono:
  assumes "timeline_wf (tl_intervals self)" "can_satisfy_at self s req"
    and "\<And>i. i \<in> set (tl_intervals self) \<Longrightarrow> active_at u i \<Longrightarrow> active_at s i"
  shows "can_satisfy_at self u req"
  using assms(2) can_satisfy_antitone [OF accumulated_load(2) accumulated_load(2), OF assms(1) assms(1)]
    load_mono [of "tl_intervals self" u s, OF assms(3)]
  unfolding can_satisfy_at_def accumulated_load(1) [OF assms(1)] by blast

lemma blocker_loop:
  assumes "timeline_wf (tl_intervals self)" "sorted (map iv_start xs)" "swept (tl_intervals self) s sw" "c \<le> s"
    and "\<And>i. i \<in> set xs \<Longrightarrow> c < iv_start i \<Longrightarrow> s \<le> iv_start i"
  shows "case duration_blocker_loop (tl_total self) req c xs sw of
      (None, _) \<Rightarrow> \<forall>i \<in> set xs. c < iv_start i \<and> c < iv_end i \<longrightarrow> can_satisfy_at self (iv_start i) req
    | (Some jump, sw') \<Rightarrow> \<exists>i \<in> set xs. jump = iv_end i \<and> c < iv_start i \<and> \<not> can_satisfy_at self (iv_start i) req
        \<and> swept (tl_intervals self) (iv_start i) sw'"
  using assms(2-)
proof (induction xs arbitrary: sw s)
  case (Cons i xs)
  show ?case
  proof (cases "iv_start i \<le> c \<or> iv_end i \<le> c")
    case True
    then show ?thesis using Cons.IH [OF _ Cons.prems(2,3)] Cons.prems by (auto split: prod.splits option.splits)
  next
    case False
    let ?sw = "advance_to (iv_start i) sw"
    have a: "swept (tl_intervals self) (iv_start i) ?sw"
      using swept_advance [OF assms(1) Cons.prems(2)] Cons.prems(4) [of i] False by simp
    note ad = sweep_admits [OF assms(1) a, of req]
    have "case duration_blocker_loop (tl_total self) req c xs ?sw of
      (None, _) \<Rightarrow> \<forall>i \<in> set xs. c < iv_start i \<and> c < iv_end i \<longrightarrow> can_satisfy_at self (iv_start i) req
    | (Some jump, sw') \<Rightarrow> \<exists>i \<in> set xs. jump = iv_end i \<and> c < iv_start i \<and> \<not> can_satisfy_at self (iv_start i) req
        \<and> swept (tl_intervals self) (iv_start i) sw'"
      using Cons.IH [OF _ a] Cons.prems(1) False by auto
    then show ?thesis using False a ad by (auto simp: Let_def split: prod.splits option.splits)
  qed
qed simp

lemma overlap_window:
  assumes "timeline_wf (tl_intervals self)"
  shows "take (overlap_prefix_end self e) (tl_intervals self) = filter (\<lambda>i. iv_start i < e) (tl_intervals self)"
  unfolding overlap_prefix_end_def takeWhile_eq_take [symmetric]
  using assms by (intro sorted_takeWhile_filter [where f = iv_start]) (auto simp: timeline_wf_def)

lemma blocker:
  assumes wf: "timeline_wf (tl_intervals self)" and sw: "swept (tl_intervals self) c sw"
  shows "case duration_blocker self sw req c d of
      (None, _) \<Rightarrow> \<forall>i \<in> set (tl_intervals self). c < iv_start i \<and> iv_start i < c + d \<longrightarrow> can_satisfy_at self (iv_start i) req
    | (Some jump, sw') \<Rightarrow> \<exists>i \<in> set (tl_intervals self). jump = iv_end i \<and> c < iv_start i \<and> iv_start i < c + d
        \<and> \<not> can_satisfy_at self (iv_start i) req \<and> swept (tl_intervals self) (iv_start i) sw'"
proof -
  let ?xs = "filter (\<lambda>i. iv_start i < c + d) (tl_intervals self)"
  have "sorted (map iv_start ?xs)" using wf by (simp add: timeline_wf_def sorted_filter)
  from blocker_loop [OF wf this sw order_refl, of req] show ?thesis
    unfolding duration_blocker_def Let_def overlap_window [OF wf]
    using wf by (auto simp: timeline_wf_def split: prod.splits option.splits)
qed

text \<open>Usage only grows where an interval starts, so a window is free when those instants are.\<close>

lemma window_free:
  assumes wf: "timeline_wf (tl_intervals self)" and c: "can_satisfy_at self c req"
    and starts: "\<forall>i \<in> set (tl_intervals self). c < iv_start i \<and> iv_start i < c + d \<longrightarrow> can_satisfy_at self (iv_start i) req"
    and u: "c \<le> u" "u < c + d"
  shows "can_satisfy_at self u req"
proof (cases "\<exists>i \<in> set (tl_intervals self). active_at u i \<and> c < iv_start i")
  case True
  define S where "S = iv_start ` {i \<in> set (tl_intervals self). active_at u i \<and> c < iv_start i}"
  have S: "finite S" "S \<noteq> {}" using True by (auto simp: S_def)
  from Max_in [OF S] obtain i where i: "i \<in> set (tl_intervals self)" "active_at u i" "c < iv_start i" "Max S = iv_start i"
    by (auto simp: S_def)
  have top: "iv_start j \<le> iv_start i" if "j \<in> set (tl_intervals self)" "active_at u j" for j
  proof (cases "c < iv_start j")
    case True
    then have "iv_start j \<in> S" using that by (auto simp: S_def)
    then show ?thesis using Max_ge [OF S(1)] i(4) by simp
  next
    case False
    then show ?thesis using i(3) by simp
  qed
  have "iv_start i \<le> u" using i(2) by (simp add: active_at_def)
  then have "can_satisfy_at self (iv_start i) req" using starts i(1,3) u by simp
  then show ?thesis
    by (rule can_satisfy_at_mono [OF wf]) (use top \<open>iv_start i \<le> u\<close> in \<open>simp add: active_at_def\<close>)
next
  case False
  then show ?thesis
    using u by (intro can_satisfy_at_mono [OF wf c]) (simp add: active_at_def, metis not_le order_trans less_le_trans le_less_trans)
qed

lemma idle_end:
  assumes "timeline_wf (tl_intervals self)" "swept (tl_intervals self) c sw" "sw_ending sw = []"
    and "\<not> can_satisfy_at self c req"
  shows "\<not> can_satisfy_at self u req"
proof -
  have "{k. k < sw_next_start sw \<and> c < iv_end (tl_intervals self ! k)} = {}"
    using assms(2,3) by (auto simp: swept_def loaded_def ends_of_def)
  then have "loaded (tl_intervals self) sw {}" using assms(2) by (simp add: swept_def del: Collect_empty_eq)
  then have "ra_view (sw_used sw) q = 0" for q by (simp add: loaded_def)
  then have "load (tl_intervals self) c q = 0" for q using swept_used(1) [OF assms(1,2)] by metis
  then have "can_satisfy_at self u req \<Longrightarrow> can_satisfy_at self c req"
    unfolding can_satisfy_at_def using accumulated_load [OF assms(1)]
    by (intro can_satisfy_antitone [of "accumulated_at self u" "accumulated_at self c"]) simp_all
  then show ?thesis using assms(4) by blast
qed

lemma earliest_active:
  assumes "swept ivs c sw" "earliest_active_end sw = Some t"
  shows "\<exists>i \<in> set ivs. t = iv_end i" and "c < t"
proof -
  obtain k rest where "sw_ending sw = (t, k) # rest"
    using assms(2) by (auto simp: earliest_active_end_def split: list.splits)
  moreover have "set (sw_ending sw) = ends_of ivs {k. k < sw_next_start sw \<and> c < iv_end (ivs ! k)}"
    "sw_next_start sw \<le> length ivs"
    using assms(1) by (simp_all add: swept_def loaded_def)
  ultimately have "(t, k) \<in> ends_of ivs {k. k < sw_next_start sw \<and> c < iv_end (ivs ! k)}" "sw_next_start sw \<le> length ivs"
    by (metis list.set_intros(1))+
  then show "\<exists>i \<in> set ivs. t = iv_end i" "c < t" by auto
qed

lemma ends_left: "i \<in> set ivs \<Longrightarrow> c < iv_end i \<Longrightarrow>
   length (filter (\<lambda>j. iv_end i < iv_end j) ivs) < length (filter (\<lambda>j. c < iv_end j) ivs)"
proof (induction ivs)
  case (Cons j ivs)
  have "length (filter (\<lambda>j. iv_end i < iv_end j) ivs) \<le> length (filter (\<lambda>j. c < iv_end j) ivs)"
    using Cons.prems(2) by (induction ivs) auto
  then show ?case using Cons by (cases "i \<in> set ivs") auto
qed simp

text \<open>
  Every turn of the search moves to the end of an interval that is later than the candidate, so the number of
  ends still ahead bounds the turns.
\<close>

lemma earliest_loop_returns:
  assumes wf: "timeline_wf (tl_intervals self)" and "swept (tl_intervals self) s sw0" and "s \<le> c"
  shows "\<exists>r. earliest_loop self req d m c sw0 = Some r \<and> r \<le> m \<and> min c m \<le> r
     \<and> (r = m \<or> (\<forall>u. r \<le> u \<and> u < r + d \<longrightarrow> can_satisfy_at self u req) \<or> (\<forall>u. \<not> can_satisfy_at self u req))"
  using assms(2,3)
proof (induction "length (filter (\<lambda>i. c < iv_end i) (tl_intervals self))" arbitrary: c s sw0 rule: less_induct)
  case less
  let ?sw = "advance_to c sw0"
  have sw: "swept (tl_intervals self) c ?sw" using swept_advance [OF wf] less.prems by blast
  note ad = sweep_admits [OF wf sw, of req]
  have again: "\<exists>r. earliest_loop self req d m t sw' = Some r \<and> r \<le> m \<and> min c m \<le> r
      \<and> (r = m \<or> (\<forall>u. r \<le> u \<and> u < r + d \<longrightarrow> can_satisfy_at self u req) \<or> (\<forall>u. \<not> can_satisfy_at self u req))"
    if e: "\<exists>i \<in> set (tl_intervals self). t = iv_end i" and lt: "c < t"
      and sw': "swept (tl_intervals self) s' sw'" "s' \<le> t" for t s' sw'
  proof -
    from e obtain i where "i \<in> set (tl_intervals self)" "t = iv_end i" by blast
    then have fewer: "length (filter (\<lambda>i. t < iv_end i) (tl_intervals self))
        < length (filter (\<lambda>i. c < iv_end i) (tl_intervals self))"
      using ends_left [of i "tl_intervals self" c] lt by simp
    obtain r where "earliest_loop self req d m t sw' = Some r" "r \<le> m" "min t m \<le> r"
      "r = m \<or> (\<forall>u. r \<le> u \<and> u < r + d \<longrightarrow> can_satisfy_at self u req) \<or> (\<forall>u. \<not> can_satisfy_at self u req)"
      using less.hyps [OF fewer sw'] by blast
    then show ?thesis using lt by (intro exI [of _ r]) auto
  qed
  show ?case
  proof (cases "m < c")
    case True
    then show ?thesis by (subst earliest_loop.simps) simp
  next
    case late: False
    show ?thesis
    proof (cases "can_satisfy_at self c req")
      case True
      obtain o' sw' where b: "duration_blocker self ?sw req c d = (o', sw')" by force
      note bl = blocker [OF wf sw, where req = req and d = d, unfolded b]
      show ?thesis
      proof (cases o')
        case None
        then show ?thesis
          using late True bl b ad window_free [OF wf True] by (subst earliest_loop.simps) (simp add: Let_def)
      next
        case (Some jump)
        then obtain i where i: "i \<in> set (tl_intervals self)" "jump = iv_end i" "c < iv_start i"
          "swept (tl_intervals self) (iv_start i) sw'" using bl by auto
        then have e: "\<exists>i \<in> set (tl_intervals self). jump = iv_end i" and lt: "c < jump" and le: "iv_start i \<le> jump"
          using wf by (auto simp: timeline_wf_def)
        show ?thesis
          using late True b ad Some again [OF e lt i(4) le] by (subst earliest_loop.simps) (simp add: Let_def)
      qed
    next
      case False
      show ?thesis
      proof (cases "earliest_active_end ?sw")
        case None
        then have "sw_ending ?sw = []" by (auto simp: earliest_active_end_def split: list.splits)
        then show ?thesis
          using late False ad None idle_end [OF wf sw _ False] by (subst earliest_loop.simps) (simp add: Let_def)
      next
        case (Some t)
        then show ?thesis
          using late False ad again [OF earliest_active [OF sw Some] sw] earliest_active(2) [OF sw Some]
          by (subst earliest_loop.simps) (simp add: Let_def)
      qed
    qed
  qed
qed

lemma earliest_start_now:
  assumes wf: "timeline_wf (tl_intervals self)" and d: "0 < d"
    and free: "\<And>u. after \<le> u \<Longrightarrow> u < after + d \<Longrightarrow> can_satisfy_at self u req"
  shows "earliest_start self req d after = Some after"
proof -
  let ?sw = "advance_to after (sweep_new (tl_intervals self) after)"
  have sw: "swept (tl_intervals self) after ?sw" using swept_advance [OF wf swept_new [OF wf] order_refl] .
  obtain o' sw' where b: "duration_blocker self ?sw req after d = (o', sw')" by force
  have "o' = None"
    using blocker [OF wf sw, where req = req and d = d, unfolded b] free by (cases o') auto
  moreover have "can_satisfy_at self after req" using free d by simp
  ultimately show ?thesis
    unfolding earliest_start_def using sweep_admits [OF wf sw, of req] b
    by (subst earliest_loop.simps) (simp add: Let_def duration_days_def duration_seconds_def nanos_per_sec_def)
qed

section \<open>Updates of the timeline\<close>

lemma sum_list_perm:
  assumes "mset xs = mset ys"
  shows "sum_list (map f xs) = (sum_list (map f ys) :: nat)"
  using arg_cong [where f = "\<lambda>m. sum_mset (image_mset f m)", OF assms] by (simp flip: mset_map add: sum_mset_sum_list)

lemma demand_perm: "mset xs = mset ys \<Longrightarrow> demand xs q = demand ys q"
  unfolding demand_def by (rule sum_list_perm)

lemma load_perm: "mset xs = mset ys \<Longrightarrow> load xs t q = load ys t q"
  unfolding load_def by (rule sum_list_perm)

lemma timeline_wf_reserve:
  assumes "timeline_wf (tl_intervals self)" "start < stop" "ra_wf a" "ra_pos a"
    and "\<And>q. demand (tl_intervals self) q + ra_view a q \<le> ra_cap q"
    and "\<And>g. gres_total (demand (tl_intervals self)) g + gres_total (ra_view a) g < 2 ^ 32"
  shows "timeline_wf (tl_intervals (reserve_for_job start stop a job self))"
proof -
  let ?i = "\<lparr>iv_start = start, iv_end = stop, iv_resources = a, iv_job_id = job\<rparr>"
  have d: "demand (sort_key iv_start (tl_intervals self @ [?i])) = (\<lambda>q. demand (tl_intervals self) q + ra_view a q)"
    by (rule ext, subst demand_perm [of _ "tl_intervals self @ [?i]"]) (simp_all add: demand_def del: ra_view.simps)
  have "gres_total (\<lambda>q. demand (tl_intervals self) q + ra_view a q) g < 2 ^ 32" for g
    using assms(6) [of g] by (simp add: gres_total_def sum.distrib del: ra_view.simps)
  then show ?thesis
    using assms by (auto simp: timeline_wf_def reserve_for_job_def d simp del: ra_view.simps)
qed

lemma load_reserve:
  "load (tl_intervals (reserve_for_job start stop a job self)) t q
     = load (tl_intervals self) t q + (if start \<le> t \<and> t < stop then ra_view a q else 0)"
proof -
  let ?i = "\<lparr>iv_start = start, iv_end = stop, iv_resources = a, iv_job_id = job\<rparr>"
  have "load (sort_key iv_start (tl_intervals self @ [?i])) t q = load (tl_intervals self @ [?i]) t q"
    by (rule load_perm) simp
  then show ?thesis by (simp add: reserve_for_job_def load_def active_at_def del: ra_view.simps)
qed

lemma sorted_gc: "sorted (map iv_start (tl_intervals self)) \<Longrightarrow> sorted (map iv_start (tl_intervals (gc h self)))"
  by (simp add: gc_def sorted_filter)

lemma gc_accumulated:
  assumes "sorted (map iv_start (tl_intervals self))" "h \<le> t"
  shows "accumulated_at (gc h self) t = accumulated_at self t"
proof -
  have "filter (active_at t) (tl_intervals (gc h self)) = filter (active_at t) (tl_intervals self)"
    unfolding gc_def using assms(2) by (simp, intro filter_cong) (auto simp: active_at_def)
  then show ?thesis by (simp add: accumulated_filter assms sorted_gc)
qed

section \<open>Properties\<close>

text \<open>A four-core node with two overlapping reservations of two cores each.\<close>

definition sample_timeline :: node_timeline where
  "sample_timeline = reserve 5 100 (with_scalar 2 0) (reserve 0 10 (with_scalar 2 0)
     (timeline_new ''n1'' (rs_default\<lparr>rs_cpus := 4\<rparr>)))"

definition two_cores :: resource_set where
  "two_cores = rs_default\<lparr>rs_cpus := 2\<rparr>"

lemma sample_intervals:
  "tl_intervals sample_timeline =
     [\<lparr>iv_start = 0, iv_end = 10, iv_resources = with_scalar 2 0, iv_job_id = None\<rparr>,
      \<lparr>iv_start = 5, iv_end = 100, iv_resources = with_scalar 2 0, iv_job_id = None\<rparr>]"
  "tl_total sample_timeline = rs_default\<lparr>rs_cpus := 4\<rparr>"
  by (simp_all add: sample_timeline_def reserve_def reserve_for_job_def timeline_new_def)

lemma sample_timeline_wf: "timeline_wf (tl_intervals sample_timeline)"
proof -
  have d: "demand (tl_intervals sample_timeline) q = (if q = QCpus then 4 else 0)" for q
    by (cases q) (simp_all add: demand_def sample_intervals with_scalar_def ra_default_def)
  have "demand (tl_intervals sample_timeline) q \<le> ra_cap q" for q by (cases q) (simp_all add: d)
  moreover have "gres_total (demand (tl_intervals sample_timeline)) g < 2 ^ 32" for g by (simp add: gres_total_def d)
  ultimately show ?thesis
    by (simp add: timeline_wf_def sample_intervals) (simp add: with_scalar_def ra_default_def ra_wf_def ra_pos_def)
qed

lemmas admission_eval = can_satisfy_with_allocated_def two_cores_def rs_default_def ra_default_def with_scalar_def
  gpu_counts_def ra_add_def ra_subtract_def sat_sub_def sat_add_def Let_def

lemma sample_admits: "10 \<le> u \<Longrightarrow> u < 30 \<Longrightarrow> can_satisfy_at sample_timeline u two_cores"
  by (simp add: can_satisfy_at_def accumulated_at_def active_prefix_end_def sample_intervals admission_eval)

lemma swept_advances:
  assumes wf: "timeline_wf ivs"
  shows "swept ivs s sw \<Longrightarrow> sorted (s # ts) \<Longrightarrow> swept ivs (last (s # ts)) (foldl (\<lambda>sw t. advance_to t sw) sw ts)"
proof (induction ts arbitrary: s sw)
  case (Cons t ts)
  then have "swept ivs t (advance_to t sw)" by (intro swept_advance [OF wf Cons.prems(1)]) simp
  from Cons.IH [OF this] show ?case using Cons.prems(2) by simp
qed simp

text \<open>
  C14. However the incremental sweep of a timeline is stepped forward, it ends up with the same quantities in use
  as adding up, from scratch, the reservations that cover the instant it was stepped to, and so admits the same
  requests.
\<close>
theorem sweep_equals_accumulation:
  assumes "timeline_wf (tl_intervals self)" and "sorted (s # ts)"
  shows "ra_view (sw_used (foldl (\<lambda>sw t. advance_to t sw) (sweep_new (tl_intervals self) s) ts)) q
           = ra_view (accumulated_at self (last (s # ts))) q
    \<and> can_satisfy_with_allocated (tl_total self)
           (sw_used (foldl (\<lambda>sw t. advance_to t sw) (sweep_new (tl_intervals self) s) ts)) request
         = can_satisfy_at self (last (s # ts)) request"
proof -
  have sw: "swept (tl_intervals self) (last (s # ts)) (foldl (\<lambda>sw t. advance_to t sw) (sweep_new (tl_intervals self) s) ts)"
    by (rule swept_advances [OF assms(1) swept_new [OF assms(1)] assms(2)])
  show ?thesis
    unfolding swept_used(1) [OF assms(1) sw] accumulated_load(1) [OF assms(1)] sweep_admits [OF assms(1) sw] by simp
qed

theorem sweep_equals_accumulation_witness:
  "ra_view (sw_used (foldl (\<lambda>sw t. advance_to t sw) (sweep_new (tl_intervals sample_timeline) 0) [7, 12])) QCpus = 2"
proof -
  have "ra_view (accumulated_at sample_timeline 12) QCpus = 2"
    by (simp add: accumulated_at_def active_prefix_end_def sample_intervals admission_eval)
  then show ?thesis
    using sweep_equals_accumulation [OF sample_timeline_wf, of 0 "[7, 12]" QCpus] by (simp del: ra_view.simps)
qed

text \<open>
  C13. The search for a start always returns: at an instant between the one asked for and the one-year horizon,
  from which the request is satisfied at every instant of the duration, unless the horizon was hit or the request
  does not fit the node at any instant. When the request is satisfied for the duration from the instant asked
  for, that instant is the answer.
\<close>
theorem earliest_start_finds_a_free_window:
  assumes "timeline_wf (tl_intervals self)"
  shows "\<exists>r. earliest_start self request duration after = Some r \<and> after \<le> r \<and> r \<le> after + duration_days 365
     \<and> (r = after + duration_days 365
        \<or> (\<forall>u. r \<le> u \<and> u < r + duration \<longrightarrow> can_satisfy_at self u request)
        \<or> (\<forall>u. \<not> can_satisfy_at self u request))
     \<and> (0 < duration \<and> (\<forall>u. after \<le> u \<and> u < after + duration \<longrightarrow> can_satisfy_at self u request) \<longrightarrow> r = after)"
proof -
  have "after \<le> after + duration_days 365" by (simp add: duration_days_def duration_seconds_def nanos_per_sec_def)
  then show ?thesis
    using earliest_loop_returns [OF assms swept_new [OF assms] order_refl, of request duration "after + duration_days 365" after]
      earliest_start_now [OF assms, of duration after request]
    unfolding earliest_start_def by fastforce
qed

theorem earliest_start_finds_a_free_window_witness:
  "\<exists>r. earliest_start sample_timeline two_cores 20 12 = Some r \<and> r = 12"
proof -
  have "12 \<le> u \<and> u < 12 + 20 \<Longrightarrow> can_satisfy_at sample_timeline u two_cores" for u
    by (simp add: can_satisfy_at_def accumulated_at_def active_prefix_end_def sample_intervals admission_eval)
  then show ?thesis
    using earliest_start_finds_a_free_window [OF sample_timeline_wf, of two_cores 20 12] by fastforce
qed

text \<open>
  C36. The search may return later than the earliest free window: when the request is satisfied at the instant asked
  for but not for the whole duration, it jumps to the end of a reservation that begins inside the window and leaves no
  room, and so past any free window that begins before the ends of all such reservations.
\<close>
theorem earliest_start_skips_a_free_window:
  assumes wf: "timeline_wf (tl_intervals self)" and now: "can_satisfy_at self after request"
    and u: "after \<le> u" "u < after + duration" "\<not> can_satisfy_at self u request"
    and t: "t < after + duration_days 365" "\<forall>v. t \<le> v \<and> v < t + duration \<longrightarrow> can_satisfy_at self v request"
    and past: "\<forall>i \<in> set (tl_intervals self). after < iv_start i \<and> iv_start i < after + duration
      \<and> \<not> can_satisfy_at self (iv_start i) request \<longrightarrow> t < iv_end i"
  shows "\<exists>r. earliest_start self request duration after = Some r \<and> t < r"
proof -
  let ?sw = "advance_to after (sweep_new (tl_intervals self) after)" and ?m = "after + duration_days 365"
  have sw: "swept (tl_intervals self) after ?sw" using swept_advance [OF wf swept_new [OF wf] order_refl] .
  obtain o' sw' where b: "duration_blocker self ?sw request after duration = (o', sw')" by force
  note bl = blocker [OF wf sw, where req = request and d = duration, unfolded b]
  have "o' \<noteq> None" using bl window_free [OF wf now _ u(1,2)] u(3) by (cases o') auto
  then obtain i where i: "i \<in> set (tl_intervals self)" "o' = Some (iv_end i)" "after < iv_start i" "iv_start i < after + duration"
    "\<not> can_satisfy_at self (iv_start i) request" "swept (tl_intervals self) (iv_start i) sw'"
    using bl by auto
  have le: "iv_start i \<le> iv_end i" using wf i(1) by (auto simp: timeline_wf_def)
  obtain r where r: "earliest_loop self request duration ?m (iv_end i) sw' = Some r" "min (iv_end i) ?m \<le> r"
    using earliest_loop_returns [OF wf i(6) le] by blast
  have "earliest_start self request duration after = Some r"
    unfolding earliest_start_def using sweep_admits [OF wf sw, of request] now b i(2) r(1)
    by (subst earliest_loop.simps) (simp add: Let_def duration_days_def duration_seconds_def nanos_per_sec_def)
  moreover have "t < iv_end i" using past i by blast
  ultimately show ?thesis using r(2) t(1) by auto
qed

theorem earliest_start_skips_a_free_window_witness:
  "\<exists>r. earliest_start sample_timeline two_cores 20 0 = Some r \<and> 10 < r"
proof -
  note eval = can_satisfy_at_def accumulated_at_def active_prefix_end_def sample_intervals admission_eval
  have now: "can_satisfy_at sample_timeline 0 two_cores" and busy: "\<not> can_satisfy_at sample_timeline 5 two_cores"
    by (simp_all add: eval)
  show ?thesis
    by (rule earliest_start_skips_a_free_window [OF sample_timeline_wf now, where u = 5])
      (use busy sample_admits in \<open>simp_all add: sample_intervals duration_days_def duration_seconds_def nanos_per_sec_def\<close>)
qed

text \<open>
  Dropping the intervals that ended by a horizon changes no query at or after it, and a reservation adds exactly
  its resources to the load of the instants it covers and to no other.
\<close>
theorem gc_and_reserve_keep_queries:
  assumes "timeline_wf (tl_intervals self)" and "horizon \<le> t"
    and "start < stop" and "ra_wf a" and "ra_pos a"
    and "\<And>q. demand (tl_intervals self) q + ra_view a q \<le> ra_cap q"
    and "\<And>g. gres_total (demand (tl_intervals self)) g + gres_total (ra_view a) g < 2 ^ 32"
  shows "accumulated_at (gc horizon self) t = accumulated_at self t
    \<and> timeline_wf (tl_intervals (reserve_for_job start stop a job self))
    \<and> ra_view (accumulated_at (reserve_for_job start stop a job self) t) q
        = ra_view (accumulated_at self t) q + (if start \<le> t \<and> t < stop then ra_view a q else 0)"
proof (intro conjI)
  show "accumulated_at (gc horizon self) t = accumulated_at self t"
    using assms(1,2) by (intro gc_accumulated) (simp_all add: timeline_wf_def)
  show wf: "timeline_wf (tl_intervals (reserve_for_job start stop a job self))"
    by (rule timeline_wf_reserve [OF assms(1,3-7)])
  show "ra_view (accumulated_at (reserve_for_job start stop a job self) t) q
      = ra_view (accumulated_at self t) q + (if start \<le> t \<and> t < stop then ra_view a q else 0)"
    unfolding accumulated_load(1) [OF wf] accumulated_load(1) [OF assms(1)] load_reserve ..
qed

theorem gc_and_reserve_keep_queries_witness:
  "accumulated_at (gc 20 sample_timeline) 30 = accumulated_at sample_timeline 30
   \<and> timeline_wf (tl_intervals (reserve_for_job 20 40 (with_scalar 2 0) (Some 7) sample_timeline))
   \<and> ra_view (accumulated_at (reserve_for_job 20 40 (with_scalar 2 0) (Some 7) sample_timeline) 30) QCpus = 4"
proof -
  have d: "demand (tl_intervals sample_timeline) q + ra_view (with_scalar 2 0) q = (if q = QCpus then 6 else 0)" for q
    by (cases q) (simp_all add: demand_def sample_intervals with_scalar_def ra_default_def)
  have room: "demand (tl_intervals sample_timeline) q + ra_view (with_scalar 2 0) q \<le> ra_cap q" for q
    unfolding d by (cases q) simp_all
  have gres: "gres_total (demand (tl_intervals sample_timeline)) g + gres_total (ra_view (with_scalar 2 0)) g < 2 ^ 32" for g
    unfolding gres_total_def sum.distrib [symmetric] d by simp
  have a: "ra_wf (with_scalar 2 0)" "ra_pos (with_scalar 2 0)" by (simp_all add: with_scalar_def ra_default_def ra_wf_def ra_pos_def)
  have now: "ra_view (accumulated_at sample_timeline 30) QCpus = 2"
    by (simp add: accumulated_at_def active_prefix_end_def sample_intervals admission_eval)
  show ?thesis
    using gc_and_reserve_keep_queries [OF sample_timeline_wf _ _ a room gres, of 20 30 20 40 "Some 7" QCpus] now
    by (simp add: with_scalar_def ra_default_def)
qed

end
