(* ===== verification/Constraints.thy ===== *)
theory Constraints
  imports Gpu_Request "HOL-Library.Sublist"
begin

text \<open>
  Node features and GPU property constraints of a job (\<^verbatim>\<open>spur-core/src/constraints.rs\<close>): the parser of
  \<^verbatim>\<open>--constraint\<close>, the predicates on devices and the validation at submission. An error keeps the
  branch that raised it and the offending text, not the wording of the message. The lemmas show that a near-miss of the
  typed syntax never becomes a node feature.
\<close>

section \<open>Fields and values\<close>

datatype gpu_field = FieldType | FieldVram | FieldPhysicalPod | FieldVpod | FieldNuma | FieldPciRoot

fun gpu_field_rank :: "gpu_field \<Rightarrow> nat" where
  "gpu_field_rank FieldType = 0"
| "gpu_field_rank FieldVram = 1"
| "gpu_field_rank FieldPhysicalPod = 2"
| "gpu_field_rank FieldVpod = 3"
| "gpu_field_rank FieldNuma = 4"
| "gpu_field_rank FieldPciRoot = 5"

lemma gpu_field_rank_inj: "gpu_field_rank a = gpu_field_rank b \<Longrightarrow> a = b"
  by (cases a; cases b) simp_all

instantiation gpu_field :: linorder
begin

definition less_eq_gpu_field :: "gpu_field \<Rightarrow> gpu_field \<Rightarrow> bool" where
  "less_eq_gpu_field a b = (gpu_field_rank a \<le> gpu_field_rank b)"

definition less_gpu_field :: "gpu_field \<Rightarrow> gpu_field \<Rightarrow> bool" where
  "less_gpu_field a b = (gpu_field_rank a < gpu_field_rank b)"

instance
  by standard (auto simp: less_eq_gpu_field_def less_gpu_field_def dest: gpu_field_rank_inj)

end

datatype constraint_error =
    UnsupportedField string
  | NearMiss string
  | TooLongOrAlternative
  | TooManyTerms
  | ComparisonRequired string
  | UnsupportedOperator string
  | UnsupportedValue string
  | OnlyEquality
  | UnsupportedTerm string
  | InvalidNumber string
  | InvalidUnit string
  | NumberOverflows string
  | HeterogeneousJob
  | GroupsWithinOneNode
  | InvalidDemand gpu_request_error
  | NeedsGpuRequest

definition gpu_field_parse :: "string \<Rightarrow> constraint_error + gpu_field" where
  "gpu_field_parse value =
     (if value = ''gpu.type'' \<or> value = ''gpu.gpu_type'' then Inr FieldType
      else if value = ''gpu.vram'' \<or> value = ''gpu.vram_bytes'' then Inr FieldVram
      else if value = ''gpu.physical_pod_id'' \<or> value = ''gpu.physical_domain_id'' then Inr FieldPhysicalPod
      else if value = ''gpu.vpod_id'' \<or> value = ''gpu.fabric_domain_id'' then Inr FieldVpod
      else if value = ''gpu.numa_node_id'' then Inr FieldNuma
      else if value = ''gpu.pcie_root_id'' then Inr FieldPciRoot
      else Inl (UnsupportedField value))"

definition field_numeric :: "gpu_field \<Rightarrow> bool" where
  "field_numeric field = (field = FieldVram \<or> field = FieldNuma)"

datatype field_value = Number u64 | Text string

definition nonempty_text :: "string option \<Rightarrow> field_value option" where
  "nonempty_text s = (case s of None \<Rightarrow> None | Some t \<Rightarrow> if t = [] then None else Some (Text t))"

definition field_value_of :: "gpu_field \<Rightarrow> gpu_resource \<Rightarrow> field_value option" where
  "field_value_of field gpu =
     (if field = FieldType
      then (if gr_gpu_type gpu = [] then None else Some (Text (to_lowercase (gr_gpu_type gpu))))
      else
        (case gr_topology gpu of
           None \<Rightarrow> None
         | Some t \<Rightarrow>
             (case field of
                FieldVram \<Rightarrow> map_option Number (dt_vram_bytes t)
              | FieldNuma \<Rightarrow> map_option (\<lambda>i. Number (ucast i)) (dt_numa_node t)
              | FieldPciRoot \<Rightarrow> nonempty_text (dt_pci_root t)
              | FieldType \<Rightarrow> None
              | _ \<Rightarrow>
                  (case dt_fabric t of
                     None \<Rightarrow> None
                   | Some f \<Rightarrow>
                       if fo_status f \<noteq> Consistent \<or> fo_issues f \<noteq> [] then None
                       else nonempty_text
                              (if field = FieldPhysicalPod then fo_physical_domain_id f else fo_fabric_domain_id f)))))"

fun value_less :: "field_value \<Rightarrow> field_value \<Rightarrow> bool" where
  "value_less (Number a) (Number b) = (a < b)"
| "value_less (Number _) (Text _) = True"
| "value_less (Text _) (Number _) = False"
| "value_less (Text a) (Text b) = (a < b)"

datatype comparison = CmpEq | CmpNe | CmpGt | CmpGe | CmpLt | CmpLe

fun compares :: "comparison \<Rightarrow> field_value \<Rightarrow> field_value \<Rightarrow> bool" where
  "compares CmpEq v w = (v = w)"
| "compares CmpNe v w = (v \<noteq> w)"
| "compares CmpGt v w = value_less w v"
| "compares CmpGe v w = (\<not> value_less v w)"
| "compares CmpLt v w = value_less v w"
| "compares CmpLe v w = (\<not> value_less w v)"

record predicate =
  pd_field :: gpu_field
  pd_comparison :: comparison
  pd_value :: field_value

text \<open>A \<^verbatim>\<open>BTreeSet\<close> of fields is their ascending list.\<close>

record constraints =
  co_features :: "string list"
  co_same_fabric :: bool
  co_same :: "gpu_field list"
  co_predicates :: "predicate list"

definition constraints_default :: constraints where
  "constraints_default = \<lparr>co_features = [], co_same_fabric = False, co_same = [], co_predicates = []\<rparr>"

section \<open>Parsing\<close>

definition contains_any :: "string \<Rightarrow> string \<Rightarrow> bool" where
  "contains_any chars s = list_ex (\<lambda>c. c \<in> set chars) s"

text \<open>Splitting at either of two characters: the second is read as the first.\<close>

definition split_either :: "char \<Rightarrow> char \<Rightarrow> string \<Rightarrow> string list" where
  "split_either a b s = str_split a (map (\<lambda>c. if c = b then a else c) s)"

definition strip_suffix :: "string \<Rightarrow> string \<Rightarrow> string option" where
  "strip_suffix p s = map_option rev (strip_prefix (rev p) (rev s))"

definition near_miss_part :: "string \<Rightarrow> bool" where
  "near_miss_part part =
     (let lower = to_lowercase part;
          same = (case strip_prefix ''same'' lower of
              None \<Rightarrow> False
            | Some rest \<Rightarrow> (case dropWhile is_ascii_ws rest of [] \<Rightarrow> False | c # _ \<Rightarrow> c = CHR ''('' \<or> c = CHR ''[''));
          gpu = (prefix ''gpu.'' lower \<and> contains_any ''()[]=<>!:~'' part)
      in same \<or> gpu \<or> (case gpu_field_parse lower of Inl _ \<Rightarrow> False | Inr _ \<Rightarrow> True))"

definition looks_like_gpu_term :: "string \<Rightarrow> bool" where
  "looks_like_gpu_term trm = list_ex (\<lambda>p. near_miss_part (str_trim p)) (split_either (CHR ''&'') (CHR ''|'') trm)"

definition unit_multiplier :: "bool \<Rightarrow> string \<Rightarrow> nat option" where
  "unit_multiplier bytes u =
     (if u = [] then Some 1
      else if \<not> bytes then None
      else if u = ''b'' then Some 1
      else if u = ''kib'' then Some 1024
      else if u = ''mib'' then Some (1024 * 1024)
      else if u = ''gib'' then Some (1024 * 1024 * 1024)
      else if u = ''tib'' then Some (1024 ^ 4)
      else if u = ''kb'' then Some 1000
      else if u = ''mb'' then Some (1000 * 1000)
      else if u = ''gb'' then Some (1000 * 1000 * 1000)
      else if u = ''tb'' then Some (1000 ^ 4)
      else None)"

definition parse_number :: "string \<Rightarrow> bool \<Rightarrow> constraint_error + u64" where
  "parse_number raw bytes =
     (case parse_uint 64 (takeWhile is_digit raw) of
        None \<Rightarrow> Inl (InvalidNumber raw)
      | Some number \<Rightarrow>
          (case unit_multiplier bytes (to_lowercase (dropWhile is_digit raw)) of
             None \<Rightarrow> Inl (InvalidUnit raw)
           | Some multiplier \<Rightarrow>
               if number * multiplier < 2 ^ 64 then Inr (of_nat (number * multiplier))
               else Inl (NumberOverflows raw)))"

definition operators :: "(string \<times> comparison) list" where
  "operators = [(''!='', CmpNe), (''>='', CmpGe), (''<='', CmpLe), (''='', CmpEq), (''>'', CmpGt), (''<'', CmpLt)]"

definition parse_value :: "gpu_field \<Rightarrow> comparison \<Rightarrow> string \<Rightarrow> constraint_error + field_value" where
  "parse_value field comparison raw =
     (if raw = [] \<or> contains_any [CHR ''('', CHR '')'', CHR ''='', CHR ''!'', CHR ''<'', CHR ''>'', CHR 0x22, CHR 0x27] raw
         \<or> list_ex is_ascii_ws raw
      then Inl (UnsupportedValue raw)
      else if field_numeric field then
        (case parse_number raw (field = FieldVram) of Inl e \<Rightarrow> Inl e | Inr n \<Rightarrow> Inr (Number n))
      else if comparison \<notin> {CmpEq, CmpNe} then Inl OnlyEquality
      else Inr (Text (if field = FieldType then to_lowercase raw else raw)))"

definition parse_predicate :: "string \<Rightarrow> constraint_error + predicate" where
  "parse_predicate trm =
     (let at_op = (\<lambda>c. c \<in> set ''=!<>'');
          tail = dropWhile (\<lambda>c. \<not> at_op c) trm
      in if tail = [] then Inl (ComparisonRequired trm)
         else
           (case gpu_field_parse (str_trim (takeWhile (\<lambda>c. \<not> at_op c) trm)) of
              Inl e \<Rightarrow> Inl e
            | Inr field \<Rightarrow>
                (case find (\<lambda>(op, _). prefix op tail) operators of
                   None \<Rightarrow> Inl (UnsupportedOperator trm)
                 | Some (op, comparison) \<Rightarrow>
                     (case parse_value field comparison (str_trim (drop (length op) tail)) of
                        Inl e \<Rightarrow> Inl e
                      | Inr v \<Rightarrow> Inr \<lparr>pd_field = field, pd_comparison = comparison, pd_value = v\<rparr>))))"

definition parse_term :: "string \<Rightarrow> constraints \<Rightarrow> constraint_error + constraints" where
  "parse_term trm result =
     (case Option.bind (strip_prefix ''same('' trm) (strip_suffix '')'') of
        Some f \<Rightarrow>
          (case gpu_field_parse (str_trim f) of
             Inl e \<Rightarrow> Inl e
           | Inr field \<Rightarrow>
               if field = FieldVpod then Inr (result\<lparr>co_same_fabric := True\<rparr>)
               else Inr (result\<lparr>co_same := (if field \<in> set (co_same result) then co_same result
                                            else insort field (co_same result))\<rparr>))
      | None \<Rightarrow>
          if prefix ''gpu.'' trm then
            (case parse_predicate trm of
               Inl e \<Rightarrow> Inl e
             | Inr p \<Rightarrow> Inr (result\<lparr>
                 co_same_fabric := co_same_fabric result \<or> pd_field p = FieldVpod \<and> pd_comparison p = CmpEq,
                 co_predicates := co_predicates result @ [p]\<rparr>))
          else if trm = [] \<or> contains_any ''()=!<>'' trm \<or> looks_like_gpu_term trm then Inl (UnsupportedTerm trm)
          else Inr (result\<lparr>co_features := co_features result @ [trm]\<rparr>))"

fun parse_terms :: "nat \<Rightarrow> string list \<Rightarrow> constraints \<Rightarrow> constraint_error + constraints" where
  "parse_terms index [] result = Inr result"
| "parse_terms index (trm # rest) result =
     (if 32 \<le> index then Inl TooManyTerms
      else case parse_term trm result of Inl e \<Rightarrow> Inl e | Inr r \<Rightarrow> parse_terms (index + 1) rest r)"

definition constraints_parse :: "string option \<Rightarrow> constraint_error + constraints" where
  "constraints_parse value0 =
     (let value = (case value0 of None \<Rightarrow> [] | Some v \<Rightarrow> v);
          typed = (sublist ''same('' value \<or> sublist ''gpu.'' value \<and> contains_any ''()=<>!'' value)
      in if \<not> typed then
           (let features = filter (\<lambda>s. s \<noteq> []) (map str_trim (str_split (CHR '','') value))
            in case find looks_like_gpu_term features of
                 Some trm \<Rightarrow> Inl (NearMiss trm)
               | None \<Rightarrow> Inr (constraints_default\<lparr>co_features := features\<rparr>))
         else if 4096 < length value \<or> CHR ''|'' \<in> set value then Inl TooLongOrAlternative
         else parse_terms 0 (map str_trim (split_either (CHR '','') (CHR ''&'') value)) constraints_default)"

section \<open>Uses\<close>

definition has_gpu :: "constraints \<Rightarrow> bool" where
  "has_gpu c = (co_same_fabric c \<or> co_same c \<noteq> [] \<or> co_predicates c \<noteq> [])"

definition matches_gpu :: "constraints \<Rightarrow> gpu_resource \<Rightarrow> bool" where
  "matches_gpu c gpu =
     (if (case Option.bind (gr_topology gpu) dt_fabric of None \<Rightarrow> False | Some f \<Rightarrow> fo_status f = ObsUnavailable)
      then False
      else list_all (\<lambda>p. case field_value_of (pd_field p) gpu of
               None \<Rightarrow> False
             | Some v \<Rightarrow> compares (pd_comparison p) v (pd_value p)) (co_predicates c))"

definition key_part :: "string \<Rightarrow> gpu_resource \<Rightarrow> gpu_field \<Rightarrow> string list option" where
  "key_part node gpu field =
     map_option (\<lambda>v. (if field = FieldNuma \<or> field = FieldPciRoot then [node] else [])
         @ [case v of Number n \<Rightarrow> show_word n | Text s \<Rightarrow> s]) (field_value_of field gpu)"

definition group_key :: "constraints \<Rightarrow> string \<Rightarrow> gpu_resource \<Rightarrow> string list option" where
  "group_key c node gpu =
     (let parts = map (key_part node gpu) (co_same c)
      in if None \<in> set parts then None else Some (concat (map the parts)))"

definition requires_same_fabric :: "job_spec \<Rightarrow> bool" where
  "requires_same_fabric spec =
     (case constraints_parse (js_constraint spec) of Inl _ \<Rightarrow> False | Inr c \<Rightarrow> co_same_fabric c)"

definition requires_gpu_properties :: "job_spec \<Rightarrow> bool" where
  "requires_gpu_properties spec =
     (case constraints_parse (js_constraint spec) of Inl _ \<Rightarrow> False | Inr c \<Rightarrow> has_gpu c)"

definition constraints_validate :: "job_spec \<Rightarrow> constraint_error + unit" where
  "constraints_validate spec =
     (case constraints_parse (js_constraint spec) of
        Inl e \<Rightarrow> Inl e
      | Inr c \<Rightarrow>
          if \<not> has_gpu c then Inr ()
          else if js_het_group spec \<noteq> None then Inl HeterogeneousJob
          else if 1 < js_num_nodes spec \<and> list_ex (\<lambda>f. f = FieldNuma \<or> f = FieldPciRoot) (co_same c)
          then Inl GroupsWithinOneNode
          else
            (case resolve_gpu_demand spec of
               Inl e \<Rightarrow> Inl (InvalidDemand e)
             | Inr demand \<Rightarrow>
                 if demand = DemandNone \<and> \<not> js_exclusive spec then Inl NeedsGpuRequest else Inr ()))"

section \<open>Node features\<close>

lemma parse_term_features:
  "parse_term trm result = Inr r \<Longrightarrow>
     co_features r = co_features result \<or> co_features r = co_features result @ [trm] \<and> trm \<noteq> [] \<and> \<not> looks_like_gpu_term trm"
  by (auto simp: parse_term_def Let_def split: if_splits sum.splits option.splits list.splits)

lemma parse_terms_features:
  "parse_terms k trms result = Inr r \<Longrightarrow> f \<in> set (co_features r) \<Longrightarrow>
     f \<in> set (co_features result) \<or> f \<noteq> [] \<and> \<not> looks_like_gpu_term f"
proof (induction trms arbitrary: k result)
  case (Cons trm trms)
  then obtain r1 where "parse_term trm result = Inr r1" "parse_terms (k + 1) trms r1 = Inr r"
    by (auto split: if_splits sum.splits)
  then show ?case using Cons.IH [of "k + 1" r1] Cons.prems(2) parse_term_features [of trm result r1] by auto
qed simp

text \<open>No node feature of a parsed constraint is empty or a misspelt GPU term.\<close>

lemma near_miss_is_no_feature:
  assumes "constraints_parse v = Inr c" and "f \<in> set (co_features c)"
  shows "f \<noteq> [] \<and> \<not> looks_like_gpu_term f"
proof -
  have start: "co_features constraints_default = []" by (simp add: constraints_default_def)
  show ?thesis
    using assms parse_terms_features [where f = f and result = constraints_default and r = c]
    by (fastforce simp: constraints_parse_def Let_def start find_None_iff split: if_splits option.splits)
qed

end
