(* ===== verification/Node_Match.thy ===== *)
theory Node_Match
  imports Cluster Constraints
begin

text \<open>
  Which nodes a job may be placed on (\<^verbatim>\<open>spur-sched/src/node_match.rs\<close>): the parsed placement constraints of a
  job and the tests the scheduler and the pending-reason classifier share. A \<^verbatim>\<open>HashSet\<close> of names is a list
  without repetitions.
\<close>

record node_placement =
  np_job :: job
  np_nodelist :: "string list option"
  np_exclude :: "string list"
  np_required_features :: "string list"
  np_partitions :: "string list"

definition expanded_names :: "string option \<Rightarrow> string list option" where
  "expanded_names pattern =
     (case pattern of
        None \<Rightarrow> None
      | Some s \<Rightarrow> if s = [] then None else Some (remdups (expand_hostlist_or_split s)))"

definition placement_build :: "job \<Rightarrow> bool \<Rightarrow> node_placement" where
  "placement_build job use_preferred_nodes =
     (let spec = j_spec job
      in \<lparr>np_job = job,
          np_nodelist = (case expanded_names (js_nodelist spec) of
              Some names \<Rightarrow> Some names
            | None \<Rightarrow> if use_preferred_nodes \<and> j_preferred_nodes job \<noteq> [] then Some (j_preferred_nodes job) else None),
          np_exclude = (case expanded_names (js_exclude spec) of None \<Rightarrow> [] | Some names \<Rightarrow> names),
          np_required_features = (case constraints_parse (js_constraint spec) of
              Inr c \<Rightarrow> co_features c
            | Inl _ \<Rightarrow> [case js_constraint spec of None \<Rightarrow> [] | Some s \<Rightarrow> s]),
          np_partitions = (case js_partition spec of
              None \<Rightarrow> []
            | Some p \<Rightarrow> map str_trim (str_split (CHR '','') p))\<rparr>)"

definition placement_new :: "job \<Rightarrow> node_placement" where
  "placement_new job = placement_build job True"

definition new_ignoring_preferred_nodes :: "job \<Rightarrow> node_placement" where
  "new_ignoring_preferred_nodes job = placement_build job False"

definition nodelist_is_additive :: "node_placement \<Rightarrow> bool" where
  "nodelist_is_additive self =
     (case np_nodelist self of
        None \<Rightarrow> False
      | Some nodelist \<Rightarrow> length nodelist < max (unat (js_num_nodes (j_spec (np_job self)))) 1)"

definition allows_name :: "node_placement \<Rightarrow> string \<Rightarrow> bool" where
  "allows_name self name =
     ((case np_nodelist self of
         None \<Rightarrow> True
       | Some allowed \<Rightarrow> nodelist_is_additive self \<or> name \<in> set allowed)
      \<and> name \<notin> set (np_exclude self))"

definition is_listed :: "node_placement \<Rightarrow> string \<Rightarrow> bool" where
  "is_listed self name = (case np_nodelist self of None \<Rightarrow> False | Some nodelist \<Rightarrow> name \<in> set nodelist)"

definition in_partition :: "node_placement \<Rightarrow> node \<Rightarrow> bool" where
  "in_partition self node =
     (np_partitions self = [] \<or> list_ex (\<lambda>rp. rp \<in> set (n_partitions node)) (np_partitions self))"

definition has_features :: "node_placement \<Rightarrow> node \<Rightarrow> bool" where
  "has_features self node = list_all (\<lambda>f. f \<in> set (n_features node)) (np_required_features self)"

definition reservation_ok :: "node_placement \<Rightarrow> node \<Rightarrow> reservation list \<Rightarrow> instant \<Rightarrow> bool" where
  "reservation_ok self node reservations now =
     (let spec = j_spec (np_job self);
          active = filter (\<lambda>r. rv_is_active r now \<and> covers_node r (n_name node)) reservations;
          none_used = (active = [])
      in case js_reservation spec of
           None \<Rightarrow> none_used
         | Some res_name \<Rightarrow>
             if res_name = [] then none_used
             else list_ex (\<lambda>r. rv_name r = res_name \<and> allows_user r (js_user spec) (js_account spec)) active)"

definition eligible :: "node_placement \<Rightarrow> node \<Rightarrow> reservation list \<Rightarrow> instant \<Rightarrow> bool" where
  "eligible self node reservations now =
     (allows_name self (n_name node) \<and> in_partition self node \<and> has_features self node
      \<and> reservation_ok self node reservations now)"

definition matches_ignoring_k0s :: "node_placement \<Rightarrow> node \<Rightarrow> reservation list \<Rightarrow> instant \<Rightarrow> bool" where
  "matches_ignoring_k0s self node reservations now =
     (eligible self node reservations now \<and> is_schedulable node
      \<and> \<not> (js_exclusive (j_spec (np_job self))
           \<and> (0 < ra_cpus (n_alloc_resources node) \<or> has_devices (n_alloc_resources node))))"

definition placement_matches :: "node_placement \<Rightarrow> node \<Rightarrow> reservation list \<Rightarrow> instant \<Rightarrow> bool" where
  "placement_matches self node reservations now =
     (\<not> is_k0s_reserved node \<and> matches_ignoring_k0s self node reservations now)"

definition matches_for_reservation :: "node_placement \<Rightarrow> node \<Rightarrow> reservation list \<Rightarrow> instant \<Rightarrow> bool" where
  "matches_for_reservation self node reservations now =
     (\<not> is_k0s_reserved node \<and> eligible self node reservations now \<and> Node.is_up (n_state node)
      \<and> layout_block_reason node = None)"

definition additive_listed_node_unavailable ::
  "node_placement \<Rightarrow> node list \<Rightarrow> reservation list \<Rightarrow> instant \<Rightarrow> resource_set \<Rightarrow> bool" where
  "additive_listed_node_unavailable self nodes reservations now required =
     (nodelist_is_additive self
      \<and> list_ex (\<lambda>n. is_listed self (n_name n) \<and> eligible self n reservations now
           \<and> can_satisfy (n_total_resources n) required
           \<and> \<not> matches_for_reservation self n reservations now) nodes)"

end
