(* ===== verification/Topology.thy ===== *)
theory Topology
  imports Node "HOL-Library.Product_Lexorder"
begin

text \<open>
  The switch topology of the cluster (\<^verbatim>\<open>spur-core/src/topology.rs\<close>): its construction from the configuration, from
  blocks or from observed fabrics, the distance of two nodes and the choice of nodes that are close together.

  The two walks of the source have no visited set: the breadth-first pass that sets the depths and the climb to the
  ancestors are loops over option, where \<^verbatim>\<open>None\<close> stands for a loop that does not end. The lemmas show
  that the choice of local nodes returns distinct candidates, as many as asked for, and that a cycle of switches in the
  configuration keeps the controller in the breadth-first pass.
\<close>

section \<open>Data\<close>

record switch =
  swi_name :: string
  swi_nodes :: "string list"
  swi_children :: "string list"
  swi_parent :: "string option"
  swi_depth :: u32

record topology_tree =
  tt_switches :: "(string, switch) hashmap"
  tt_node_switch :: "(string, string) hashmap"

record switch_config =
  scf_name :: string
  scf_nodes :: "string option"
  scf_switches :: "string option"

record unresolved_fabric_device =
  ufd_device :: fabric_device_key
  ufd_issue :: string

record fabric_view =
  fv_namespace :: string
  fv_blocks :: "fabric_block list"
  fv_unresolved :: "unresolved_fabric_device list"

section \<open>Construction\<close>

text \<open>The nodes of a leaf, attached to it in the lookup table.\<close>

definition attach :: "string \<Rightarrow> string list \<Rightarrow> (string, string) hashmap \<Rightarrow> (string, string) hashmap" where
  "attach name nodes table = foldl (\<lambda>m node. hm_insert node name m) table nodes"

definition leaf :: "string \<Rightarrow> string list \<Rightarrow> switch" where
  "leaf name nodes = \<lparr>swi_name = name, swi_nodes = nodes, swi_children = [], swi_parent = None, swi_depth = 0\<rparr>"

definition add_leaf :: "string \<Rightarrow> string list \<Rightarrow> topology_tree \<Rightarrow> topology_tree" where
  "add_leaf name nodes t = t\<lparr>tt_node_switch := attach name nodes (tt_node_switch t),
     tt_switches := hm_insert name (leaf name nodes) (tt_switches t)\<rparr>"

definition empty_tree :: topology_tree where
  "empty_tree = \<lparr>tt_switches = [], tt_node_switch = []\<rparr>"

definition fabric_block_name :: "fabric_block_key \<Rightarrow> string" where
  "fabric_block_name key =
     ''fabric:'' @ show_nat (length (fk_namespace key)) @ '':'' @ fk_namespace key
       @ show_nat (length (fk_physical_domain key)) @ '':'' @ fk_physical_domain key
       @ show_nat (length (fk_fabric_domain key)) @ '':'' @ fk_fabric_domain key"

definition block_nodes :: "fabric_block \<Rightarrow> string list" where
  "block_nodes block = map (\<lambda>m. fd_node (fm_device m)) (blk_members block)"

definition from_fabric :: "fabric_view \<Rightarrow> topology_tree" where
  "from_fabric view =
     (let blocks = fv_blocks view;
          excluded = map (\<lambda>u. fd_node (ufd_device u)) (fv_unresolved view)
            @ concat (map block_nodes (filter (\<lambda>b. blk_issues b \<noteq> []) blocks));
          members = remdups (sort (concat (map block_nodes blocks)));
          owners = (\<lambda>node. filter (\<lambda>i. node \<in> set (block_nodes (blocks ! i))) [0..<length blocks]);
          group = (\<lambda>i. filter (\<lambda>node. node \<notin> set excluded \<and> owners node = [i]) members)
      in foldl (\<lambda>t i. if group i = [] then t else add_leaf (fabric_block_name (blk_key (blocks ! i))) (group i) t)
           empty_tree [0..<length blocks])"

definition add_configured :: "topology_tree \<Rightarrow> switch_config \<Rightarrow> topology_tree" where
  "add_configured t sc =
     (let nodes = (case scf_nodes sc of
              None \<Rightarrow> []
            | Some pattern \<Rightarrow> (case expand pattern of Inl _ \<Rightarrow> [] | Inr names \<Rightarrow> names));
          children = (case scf_switches sc of
              None \<Rightarrow> []
            | Some pattern \<Rightarrow> map str_trim (str_split (CHR '','') pattern))
      in t\<lparr>tt_node_switch := attach (scf_name sc) nodes (tt_node_switch t),
           tt_switches := hm_insert (scf_name sc)
             ((leaf (scf_name sc) nodes)\<lparr>swi_children := children\<rparr>) (tt_switches t)\<rparr>)"

definition set_parents :: "(string, switch) hashmap \<Rightarrow> (string, switch) hashmap" where
  "set_parents switches =
     (let child_to_parent = foldl (\<lambda>m (child, parent). hm_insert child parent m) []
            (concat (map (\<lambda>sw. map (\<lambda>child. (child, swi_name sw)) (swi_children sw)) (hm_values switches)))
      in foldl (\<lambda>m (child, parent). hm_modify child (\<lambda>sw. sw\<lparr>swi_parent := Some parent\<rparr>) m) switches child_to_parent)"

partial_function (option) compute_depths ::
  "(string \<times> u32) list \<Rightarrow> (string, switch) hashmap \<Rightarrow> (string, switch) hashmap option" where
  "compute_depths queue switches =
     (case queue of
        [] \<Rightarrow> Some switches
      | (name, depth) # rest \<Rightarrow>
          (case hm_get switches name of
             None \<Rightarrow> compute_depths rest switches
           | Some sw \<Rightarrow> compute_depths (rest @ map (\<lambda>child. (child, depth + 1)) (swi_children sw))
               (hm_insert name (sw\<lparr>swi_depth := depth\<rparr>) switches)))"

definition from_switches :: "switch_config list \<Rightarrow> topology_tree option" where
  "from_switches switch_configs =
     (let t = foldl add_configured empty_tree switch_configs;
          switches = set_parents (tt_switches t);
          roots = map swi_name (filter (\<lambda>sw. swi_parent sw = None) (hm_values switches))
      in map_option (\<lambda>sws. t\<lparr>tt_switches := sws\<rparr>) (compute_depths (map (\<lambda>name. (name, 0)) roots) switches))"

fun chunks_from :: "nat \<Rightarrow> nat \<Rightarrow> 'a list \<Rightarrow> 'a list list" where
  "chunks_from 0 k xs = []"
| "chunks_from (Suc n) k xs = (if xs = [] then [] else take k xs # chunks_from n k (drop k xs))"

definition from_blocks :: "string list \<Rightarrow> nat \<Rightarrow> topology_tree" where
  "from_blocks all_nodes block_size0 =
     (let block_size = max block_size0 1;
          chunks = chunks_from (length all_nodes) block_size all_nodes
      in foldl (\<lambda>t i. add_leaf (''block'' @ pad_num 3 i) (chunks ! i) t) empty_tree [0..<length chunks])"

section \<open>Distances\<close>

partial_function (option) ancestors_loop ::
  "(string, switch) hashmap \<Rightarrow> string \<Rightarrow> u32 \<Rightarrow> (u32 \<times> string) list \<Rightarrow> (u32 \<times> string) list option" where
  "ancestors_loop switches current hops result =
     (case hm_get switches current of
        None \<Rightarrow> Some result
      | Some sw \<Rightarrow>
          (case swi_parent sw of
             None \<Rightarrow> Some result
           | Some parent \<Rightarrow> ancestors_loop switches parent (hops + 1) (result @ [(hops, parent)])))"

definition ancestors :: "topology_tree \<Rightarrow> string \<Rightarrow> (u32 \<times> string) list option" where
  "ancestors t switch_name = ancestors_loop (tt_switches t) switch_name 1 [(0, switch_name)]"

definition common_hops :: "(u32 \<times> string) list \<Rightarrow> (u32 \<times> string) list \<Rightarrow> u32" where
  "common_hops as bs =
     (case filter (\<lambda>((_, a), (_, b)). a = b) (List.product as bs) of
        [] \<Rightarrow> - 1
      | ((da, _), (db, _)) # _ \<Rightarrow> da + db)"

definition switch_distance :: "topology_tree \<Rightarrow> string \<Rightarrow> string \<Rightarrow> u32 option" where
  "switch_distance t a b =
     (if a = b then Some 0
      else case ancestors t a of
          None \<Rightarrow> None
        | Some as \<Rightarrow> (case ancestors t b of None \<Rightarrow> None | Some bs \<Rightarrow> Some (common_hops as bs)))"

definition node_distance :: "topology_tree \<Rightarrow> string \<Rightarrow> string \<Rightarrow> u32 option" where
  "node_distance t a b =
     (case hm_get (tt_node_switch t) a of
        None \<Rightarrow> Some (- 1)
      | Some sw_a \<Rightarrow>
          (case hm_get (tt_node_switch t) b of
             None \<Rightarrow> Some (- 1)
           | Some sw_b \<Rightarrow> switch_distance t sw_a sw_b))"

section \<open>Choice of nodes\<close>

definition group_by_switch :: "topology_tree \<Rightarrow> string list \<Rightarrow> (string, string list) hashmap" where
  "group_by_switch t nodes =
     foldl (\<lambda>groups node. hm_entry []
         (case hm_get (tt_node_switch t) node of None \<Rightarrow> ''unknown'' | Some s \<Rightarrow> s) (\<lambda>ns. ns @ [node]) groups) [] nodes"

fun take_groups :: "nat \<Rightarrow> string list list \<Rightarrow> string list \<Rightarrow> string list" where
  "take_groups n [] result = result"
| "take_groups n (nodes # rest) result =
     (let remaining = n - length result
      in if remaining = 0 then result
         else take_groups n rest (result @ take (min remaining (length nodes)) nodes))"

fun with_distances ::
  "topology_tree \<Rightarrow> string \<Rightarrow> (string \<times> string list) list \<Rightarrow> (u32 \<times> string \<times> string list) list option" where
  "with_distances t seed [] = Some []"
| "with_distances t seed ((name, nodes) # rest) =
     (case switch_distance t seed name of
        None \<Rightarrow> None
      | Some d \<Rightarrow> map_option (\<lambda>ds. (d, name, nodes) # ds) (with_distances t seed rest))"

definition select_local_nodes :: "topology_tree \<Rightarrow> string list \<Rightarrow> nat \<Rightarrow> string list option" where
  "select_local_nodes t candidates n =
     (if length candidates \<le> n then Some candidates
      else
        (let known = filter (\<lambda>node. hm_contains (tt_node_switch t) node) candidates;
             unknown = filter (\<lambda>node. \<not> hm_contains (tt_node_switch t) node) candidates
         in if known = [] then Some (take n candidates)
            else
              (case sort_key (\<lambda>(name, nodes). (- int (length nodes), name)) (group_by_switch t known) of
                 [] \<Rightarrow> Some []
               | (seed, largest) # others \<Rightarrow>
                   if n \<le> length largest then Some (take n largest)
                   else
                     (case with_distances t seed ((seed, largest) # others) of
                        None \<Rightarrow> None
                      | Some groups \<Rightarrow>
                          (let result = take_groups n
                                 (map (\<lambda>(_, _, nodes). nodes) (sort_key (\<lambda>(d, name, _). (d, name)) groups)) []
                           in Some (result @ take (n - length result) unknown))))))"

record topology_config =
  tc_block_file :: bool
  tc_plugin :: string
  tc_switches :: "switch_config list"
  tc_block_size :: "nat option"

text \<open>The outer option is the result of the source, the inner one tells whether the construction ends.\<close>

definition topology_build :: "topology_config \<Rightarrow> node list \<Rightarrow> fabric_view \<Rightarrow> topology_tree option option" where
  "topology_build cfg nodes view =
     (if tc_plugin cfg = ''tree'' \<and> tc_switches cfg \<noteq> [] then Some (from_switches (tc_switches cfg))
      else if tc_plugin cfg \<noteq> ''tree'' \<and> tc_plugin cfg \<noteq> ''block'' then None
      else if fv_blocks view \<noteq> []
         \<or> list_ex (\<lambda>u. ufd_issue u \<noteq> ''missing_observation'' \<and> ufd_issue u \<noteq> ''unavailable_observation'') (fv_unresolved view)
         \<or> tc_block_file cfg
      then Some (Some (from_fabric view))
      else if tc_plugin cfg = ''tree'' then Some (from_switches (tc_switches cfg))
      else Some (Some (from_blocks (sort (map n_name nodes)) (case tc_block_size cfg of None \<Rightarrow> 18 | Some s \<Rightarrow> s))))"

section \<open>The choice returns candidates\<close>

lemma hm_entry_push_mset:
  "hm_wf m \<Longrightarrow> mset (concat (hm_values (hm_entry [] k (\<lambda>ns. ns @ [n]) m))) = add_mset n (mset (concat (hm_values m)))"
  by (induction m) (auto simp: hm_wf_def hm_entry_def split: option.splits)

lemma mset_group_by_switch: "mset (concat (hm_values (group_by_switch t ns))) = mset ns"
proof -
  have "mset (concat (hm_values (foldl (\<lambda>groups node. hm_entry [] (f node) (\<lambda>ns. ns @ [node]) groups) m ns)))
      = mset (concat (hm_values m)) + mset ns" if "hm_wf m" for f :: "string \<Rightarrow> string" and m
    using that by (induction ns arbitrary: m) (simp_all add: hm_entry_push_mset)
  from this [of "[]"] show ?thesis by (simp add: group_by_switch_def)
qed

lemma take_groups_take:
  "length result \<le> n \<Longrightarrow> take_groups n groups result = result @ take (n - length result) (concat groups)"
proof (induction n groups result rule: take_groups.induct)
  case (2 n nodes rest result)
  have "n - length result - length nodes = n - (length result + length nodes)" by simp
  with 2 show ?case by (cases "n - length result = 0") (auto simp: Let_def min_def)
qed simp

lemma with_distances_groups:
  "with_distances t seed gs = Some ds \<Longrightarrow> map (\<lambda>(_, name, nodes). (name, nodes)) ds = gs"
  by (induction t seed gs arbitrary: ds rule: with_distances.induct) (auto split: option.splits)

lemma mset_concat_perm: "mset xs = mset ys \<Longrightarrow> mset (concat (map f xs)) = mset (concat (map f ys))"
  by (simp add: mset_concat flip: sum_mset_sum_list)

lemma sorted_groups_mset:
  "mset (concat (map snd (sort_key f (group_by_switch t ns)))) = mset ns"
  using mset_concat_perm [of "sort_key f (group_by_switch t ns)" "group_by_switch t ns" snd] mset_group_by_switch [of t ns]
  by simp

lemma distance_groups_mset:
  assumes "with_distances t seed gs = Some ds"
  shows "mset (concat (map (\<lambda>(_, _, nodes). nodes) (sort_key f ds))) = mset (concat (map snd gs))"
proof -
  have "map (\<lambda>(_, _, nodes). nodes) ds = map snd gs"
    using with_distances_groups [OF assms] by (auto simp: case_prod_beta)
  then show ?thesis
    using mset_concat_perm [of "sort_key f ds" ds "\<lambda>(_, _, nodes). nodes"] by simp
qed

text \<open>Everything the choice returns: a prefix of a permutation of the candidates.\<close>

definition chosen_from :: "'a list \<Rightarrow> nat \<Rightarrow> 'a list \<Rightarrow> bool" where
  "chosen_from xs n r = (\<exists>ys. mset ys = mset xs \<and> r = take n ys)"

lemma chosen_from_split:
  assumes "mset ys = mset (filter p xs)" and "r = take n ys @ take (n - length (take n ys)) (filter (\<lambda>x. \<not> p x) xs)"
  shows "chosen_from xs n r"
proof -
  have "mset (ys @ filter (\<lambda>x. \<not> p x) xs) = mset xs" using assms(1) by simp
  moreover have "r = take n (ys @ filter (\<lambda>x. \<not> p x) xs)" using assms(2) by (simp add: min_def)
  ultimately show ?thesis unfolding chosen_from_def by blast
qed

lemma select_local_nodes_chosen:
  assumes "select_local_nodes t candidates n = Some r"
  shows "chosen_from candidates n r"
proof (cases "length candidates \<le> n")
  case True
  then show ?thesis using assms by (auto simp: select_local_nodes_def chosen_from_def intro!: exI [of _ candidates])
next
  case False
  let ?p = "\<lambda>node. hm_contains (tt_node_switch t) node"
  let ?known = "filter ?p candidates"
  let ?groups = "sort_key (\<lambda>(name, nodes). (- int (length nodes), name)) (group_by_switch t ?known)"
  have groups: "mset (concat (map snd ?groups)) = mset ?known" by (rule sorted_groups_mset)
  show ?thesis
  proof (cases "?known = []")
    case True
    then show ?thesis using assms False by (auto simp: select_local_nodes_def Let_def chosen_from_def)
  next
    case known: False
    then obtain seed largest others where g: "?groups = (seed, largest) # others"
      using groups by (cases ?groups) auto
    show ?thesis
    proof (cases "n \<le> length largest")
      case True
      then have "r = take n largest" using assms False known g by (simp add: select_local_nodes_def Let_def)
      then show ?thesis
        using chosen_from_split [OF groups, of r n] True g by simp
    next
      case larger: False
      obtain ds where ds: "with_distances t seed ((seed, largest) # others) = Some ds"
        using assms False known g larger by (auto simp: select_local_nodes_def Let_def split: option.splits)
      let ?ys = "concat (map (\<lambda>(_, _, nodes). nodes) (sort_key (\<lambda>(d, name, _). (d, name)) ds))"
      have "mset ?ys = mset ?known" using distance_groups_mset [OF ds] groups g by metis
      moreover have "r = take n ?ys @ take (n - length (take n ?ys)) (filter (\<lambda>x. \<not> ?p x) candidates)"
        using assms False known g larger ds by (simp add: select_local_nodes_def Let_def take_groups_take)
      ultimately show ?thesis by (rule chosen_from_split)
    qed
  qed
qed

section \<open>Walks\<close>

text \<open>The parent links have no cycle: some rank decreases along them.\<close>

definition ranked :: "(string \<Rightarrow> nat) \<Rightarrow> (string, switch) hashmap \<Rightarrow> bool" where
  "ranked rank switches = (\<forall>name sw parent.
     hm_get switches name = Some sw \<longrightarrow> swi_parent sw = Some parent \<longrightarrow> rank parent < rank name)"

lemma leaves_ranked: "ranked (\<lambda>_. 0) (tt_switches (foldl (\<lambda>t i. add_leaf (f i) (g i) t) empty_tree is))"
proof -
  have leaf: "ranked (\<lambda>_. 0) (tt_switches (add_leaf n ns t))" if "ranked (\<lambda>_. 0) (tt_switches t)" for n ns t
    using that by (auto simp: ranked_def add_leaf_def leaf_def hm_simps)
  have "ranked (\<lambda>_. 0) (tt_switches (foldl (\<lambda>t i. add_leaf (f i) (g i) t) t is))" if "ranked (\<lambda>_. 0) (tt_switches t)" for t
    using that by (induction "is" arbitrary: t) (simp_all add: leaf)
  moreover have "ranked (\<lambda>_. 0) (tt_switches empty_tree)" by (simp add: empty_tree_def ranked_def)
  ultimately show ?thesis .
qed

lemma ancestors_loop_returns:
  "ranked rank switches \<Longrightarrow> \<exists>r. ancestors_loop switches current hops result = Some r"
proof (induction "rank current" arbitrary: current hops result rule: less_induct)
  case less
  then show ?case
    by (subst ancestors_loop.simps) (auto simp: ranked_def split: option.split)
qed

lemma switch_distance_returns: "ranked rank (tt_switches t) \<Longrightarrow> \<exists>d. switch_distance t a b = Some d"
  using ancestors_loop_returns [of rank "tt_switches t"]
  by (auto simp: switch_distance_def ancestors_def split: option.split) (metis option.distinct(1))+

lemma with_distances_returns: "ranked rank (tt_switches t) \<Longrightarrow> \<exists>ds. with_distances t seed gs = Some ds"
proof (induction gs)
  case (Cons g gs)
  then show ?case using switch_distance_returns [OF Cons.prems, of seed "fst g"] by (cases g) auto
qed simp

lemma select_local_nodes_returns:
  assumes "ranked rank (tt_switches t)"
  shows "\<exists>r. select_local_nodes t candidates n = Some r"
proof -
  let ?known = "filter (\<lambda>node. hm_contains (tt_node_switch t) node) candidates"
  let ?groups = "sort_key (\<lambda>(name, nodes). (- int (length nodes), name)) (group_by_switch t ?known)"
  have "\<exists>r. (case ?groups of
      [] \<Rightarrow> Some []
    | (seed, largest) # others \<Rightarrow>
        if n \<le> length largest then Some (take n largest)
        else (case with_distances t seed ((seed, largest) # others) of None \<Rightarrow> None | Some groups \<Rightarrow> Some (f groups)))
      = Some r" for f
  proof (cases ?groups)
    case (Cons g others)
    obtain ds where "with_distances t (fst g) (g # others) = Some ds" using with_distances_returns [OF assms] by blast
    then show ?thesis using Cons by (cases g) simp
  qed simp
  then show ?thesis unfolding select_local_nodes_def Let_def by (cases "length candidates \<le> n"; cases "?known = []") auto
qed

text \<open>A root above a cycle of two switches: the queue of the breadth-first pass never runs empty.\<close>

definition cyclic_switches :: "switch_config list" where
  "cyclic_switches =
     [\<lparr>scf_name = ''core'', scf_nodes = None, scf_switches = Some ''a''\<rparr>,
      \<lparr>scf_name = ''a'', scf_nodes = None, scf_switches = Some ''b''\<rparr>,
      \<lparr>scf_name = ''b'', scf_nodes = None, scf_switches = Some ''a''\<rparr>]"

definition loops_forever :: "(string, switch) hashmap \<Rightarrow> string \<Rightarrow> bool" where
  "loops_forever switches name = (\<exists>names. name \<in> names
     \<and> (\<forall>a \<in> names. \<exists>sw. hm_get switches a = Some sw \<and> (\<exists>b \<in> set (swi_children sw). b \<in> names)))"

lemma loops_forever_step:
  assumes "loops_forever switches name"
  obtains sw child where "hm_get switches name = Some sw" and "child \<in> set (swi_children sw)" and "loops_forever switches child"
  using assms unfolding loops_forever_def by metis

lemma loops_forever_depth:
  assumes "loops_forever switches x" and "hm_get switches name = Some sw"
  shows "loops_forever (hm_insert name (sw\<lparr>swi_depth := d\<rparr>) switches) x"
proof -
  let ?s = "hm_insert name (sw\<lparr>swi_depth := d\<rparr>) switches"
  have "\<exists>sw'. hm_get ?s a = Some sw' \<and> swi_children sw' = swi_children sw0" if "hm_get switches a = Some sw0" for a sw0
    using that assms(2) by (auto simp: hm_simps)
  then show ?thesis using assms(1) unfolding loops_forever_def by metis
qed

lemma compute_depths_diverges:
  "(name, d) \<in> set queue \<Longrightarrow> loops_forever switches name \<Longrightarrow> compute_depths queue switches = None"
proof (rule ccontr)
  assume "(name, d) \<in> set queue" "loops_forever switches name" "compute_depths queue switches \<noteq> None"
  then obtain r where r: "compute_depths queue switches = Some r" by blast
  have "(\<nexists>name d. (name, d) \<in> set queue \<and> loops_forever switches name)"
  proof (rule compute_depths.raw_induct [where P = "\<lambda>queue switches _. \<nexists>name d. (name, d) \<in> set queue \<and> loops_forever switches name", OF _ r])
    fix self :: "(string \<times> u32) list \<Rightarrow> (string, switch) hashmap \<Rightarrow> (string, switch) hashmap option"
    fix queue switches r
    assume ih: "\<And>queue switches r. self queue switches = Some r \<Longrightarrow> \<nexists>name d. (name, d) \<in> set queue \<and> loops_forever switches name"
      and eq: "(case queue of
        [] \<Rightarrow> Some switches
      | (name, depth) # rest \<Rightarrow>
          (case hm_get switches name of
             None \<Rightarrow> self rest switches
           | Some sw \<Rightarrow> self (rest @ map (\<lambda>child. (child, depth + 1)) (swi_children sw))
               (hm_insert name (sw\<lparr>swi_depth := depth\<rparr>) switches))) = Some r"
    show "\<nexists>name d. (name, d) \<in> set queue \<and> loops_forever switches name"
    proof (cases queue)
      case (Cons e rest)
      obtain name depth where e: "e = (name, depth)" by force
      show ?thesis
      proof (cases "hm_get switches name")
        case None
        then have "\<not> loops_forever switches name" by (auto elim: loops_forever_step)
        then show ?thesis using ih [of rest switches r] eq None Cons e by auto
      next
        case (Some sw)
        let ?s = "hm_insert name (sw\<lparr>swi_depth := depth\<rparr>) switches"
        have "self (rest @ map (\<lambda>child. (child, depth + 1)) (swi_children sw)) ?s = Some r" using eq Some Cons e by simp
        from ih [OF this] have no:
          "\<nexists>name d. (name, d) \<in> set (rest @ map (\<lambda>child. (child, depth + 1)) (swi_children sw)) \<and> loops_forever ?s name" .
        then have "\<not> loops_forever switches n'" if "(n', d') \<in> set rest" for n' d'
          using that loops_forever_depth [OF _ Some] by fastforce
        moreover have "\<not> loops_forever switches name"
        proof
          assume "loops_forever switches name"
          then obtain child where "child \<in> set (swi_children sw)" "loops_forever switches child"
            using Some by (auto elim: loops_forever_step)
          then show False using no loops_forever_depth [OF _ Some] by fastforce
        qed
        ultimately show ?thesis using Cons e by auto
      qed
    qed simp
  qed
  then show False using \<open>(name, d) \<in> set queue\<close> \<open>loops_forever switches name\<close> by blast
qed

definition cyclic_table :: "(string, switch) hashmap" where
  "cyclic_table =
     [(''core'', \<lparr>swi_name = ''core'', swi_nodes = [], swi_children = [''a''], swi_parent = None, swi_depth = 0\<rparr>),
      (''a'', \<lparr>swi_name = ''a'', swi_nodes = [], swi_children = [''b''], swi_parent = Some ''b'', swi_depth = 0\<rparr>),
      (''b'', \<lparr>swi_name = ''b'', swi_nodes = [], swi_children = [''a''], swi_parent = Some ''a'', swi_depth = 0\<rparr>)]"

lemma cyclic_switches_table: "set_parents (tt_switches (foldl add_configured empty_tree cyclic_switches)) = cyclic_table"
  by (simp add: cyclic_switches_def cyclic_table_def set_parents_def add_configured_def empty_tree_def leaf_def attach_def
      str_trim_def is_ascii_ws_def hm_modify_def Let_def)

section \<open>Properties\<close>



text \<open>
  C39. A configuration in which two switches name each other as children, below a root, is accepted, and the
  construction of the topology never ends.
\<close>
theorem cyclic_configuration_hangs: "from_switches cyclic_switches = None"
proof -
  let ?roots = "map swi_name (filter (\<lambda>sw. swi_parent sw = None) (hm_values cyclic_table))"
  have "loops_forever cyclic_table ''core''"
    unfolding loops_forever_def by (rule exI [of _ "{''core'', ''a'', ''b''}"]) (simp add: cyclic_table_def)
  moreover have "(''core'', 0) \<in> set (map (\<lambda>name. (name, 0)) ?roots)" by (simp add: cyclic_table_def)
  ultimately have "compute_depths (map (\<lambda>name. (name, 0)) ?roots) cyclic_table = None"
    by (metis compute_depths_diverges)
  then show ?thesis by (simp add: from_switches_def cyclic_switches_table Let_def)
qed

end
