(* ===== verification/Backfill.thy ===== *)
theory Backfill
  imports Node_Match Timeline Topology
begin

text \<open>
  The backfill scheduler (\<^verbatim>\<open>spur-sched/src/backfill.rs\<close>, \<^verbatim>\<open>traits.rs\<close>): the request of a job,
  the handoff of nodes to preemptors, the search for a common start and the pass over the queue.

  \<open>now\<close> is the clock read at the start of the pass. The three loops without a counter are over option, where
  \<^verbatim>\<open>None\<close> stands for a loop that does not end. A request names one GPU type, so the hash map of its GPU counts
  has one order. Jobs with GPU property constraints are planned by \<open>plan_gpu\<close>, present when the cluster has a
  fabric context; theory \<open>Gpu_Planning\<close> gives it, by trial passes that run without one.
\<close>

section \<open>The request of a job\<close>

text \<open>The products of the source overflow silently in a release build, which is what the words do.\<close>

definition add_generic :: "(string, u64) hashmap \<Rightarrow> string \<Rightarrow> (string, u64) hashmap" where
  "add_generic generic gres =
     (case parse_gres gres of
        None \<Rightarrow> generic
      | Some (name, gtype, cnt) \<Rightarrow>
          if name = ''gpu'' \<or> name = ''license'' then generic
          else hm_entry 0 (case gtype of Some t \<Rightarrow> name @ '':'' @ t | None \<Rightarrow> name) (\<lambda>n. n + ucast cnt) generic)"

definition base_node_request :: "job \<Rightarrow> resource_set" where
  "base_node_request job =
     (let spec = j_spec job;
          cpus = max (case js_tasks_per_node spec of
                Some tasks_per_node \<Rightarrow> tasks_per_node * js_cpus_per_task spec
              | None \<Rightarrow> (js_num_tasks spec div max (js_num_nodes spec) 1) * js_cpus_per_task spec) 1;
          memory = (case js_memory_per_node_mb spec of
                Some m \<Rightarrow> m
              | None \<Rightarrow> (case js_memory_per_cpu_mb spec of Some m \<Rightarrow> m * ucast cpus | None \<Rightarrow> 0))
      in rs_default\<lparr>rs_cpus := cpus, rs_memory_mb := memory, rs_generic := foldl add_generic [] (js_gres spec)\<rparr>)"

definition placeholder_gpus :: "u32 \<Rightarrow> string option \<Rightarrow> gpu_resource list" where
  "placeholder_gpus cnt gpu_type =
     map (\<lambda>i. \<lparr>gr_device_id = of_nat i, gr_gpu_type = (case gpu_type of None \<Rightarrow> ''any'' | Some t \<Rightarrow> t),
        gr_memory_mb = 0, gr_peer_gpus = [], gr_link_type = PCIe, gr_stable_id = 0, gr_topology = None\<rparr>) [0..<unat cnt]"

fun homogeneous_per_node :: "gpu_demand \<Rightarrow> u32 option" where
  "homogeneous_per_node DemandNone = Some 0"
| "homogeneous_per_node (DemandPerNode counts _) =
     (let first = (case counts of [] \<Rightarrow> 0 | c # _ \<Rightarrow> c)
      in if list_all (\<lambda>c. c = first) counts then Some first else None)"
| "homogeneous_per_node (DemandTotal _ _) = None"

definition cpu_per_node_counts :: "job \<Rightarrow> u32 list" where
  "cpu_per_node_counts job =
     (let spec = j_spec job; cpt = max (js_cpus_per_task spec) 1
      in map (\<lambda>tasks. max (tasks * cpt) 1) (tasks_per_node_counts spec (max (js_num_nodes spec) 1)))"

definition cpu_is_heterogeneous :: "job \<Rightarrow> bool" where
  "cpu_is_heterogeneous job =
     (\<not> js_exclusive (j_spec job)
      \<and> (case cpu_per_node_counts job of [] \<Rightarrow> False | c # cs \<Rightarrow> Min (set (c # cs)) \<noteq> Max (set (c # cs))))"

definition demand_of :: "job \<Rightarrow> gpu_demand" where
  "demand_of job = (case resolve_gpu_demand (j_spec job) of Inl _ \<Rightarrow> DemandNone | Inr d \<Rightarrow> d)"

definition job_resource_request :: "job \<Rightarrow> resource_set" where
  "job_resource_request job =
     (let dem = demand_of job;
          per_node = (case homogeneous_per_node dem of None \<Rightarrow> 1 | Some n \<Rightarrow> n)
      in (base_node_request job)\<lparr>rs_gpus := placeholder_gpus per_node (demand_gpu_type dem)\<rparr>)"

section \<open>Handoffs\<close>

text \<open>\<open>hg_owners\<close> are the pending preemptors of each node, \<open>hg_held_until\<close> what the pass has planned for them.\<close>

record handoff_gate =
  hg_owners :: "(string, job_id list) hashmap"
  hg_held_until :: "(string, (job_id, instant) hashmap) hashmap"
  hg_released :: "(string \<times> job_id) list"

definition gate_new :: "(string, job_id list) hashmap \<Rightarrow> handoff_gate" where
  "gate_new owners = \<lparr>hg_owners = owners, hg_held_until = [], hg_released = []\<rparr>"

definition blockers :: "handoff_gate \<Rightarrow> job \<Rightarrow> string \<Rightarrow> job_id list" where
  "blockers gate job node =
     (case hm_get (hg_owners gate) node of
        None \<Rightarrow> []
      | Some owners \<Rightarrow> if j_job_id job \<in> set owners then [] else owners)"

definition held_for :: "handoff_gate \<Rightarrow> string \<Rightarrow> job_id \<Rightarrow> instant option" where
  "held_for gate node owner = Option.bind (hm_get (hg_held_until gate) node) (\<lambda>m. hm_get m owner)"

definition hides :: "handoff_gate \<Rightarrow> job \<Rightarrow> string \<Rightarrow> bool" where
  "hides gate job node = list_ex (\<lambda>o'. held_for gate node o' = None) (blockers gate job node)"

definition gate_floor :: "handoff_gate \<Rightarrow> job \<Rightarrow> string \<Rightarrow> instant \<Rightarrow> instant" where
  "gate_floor gate job node now = foldl max now (List.map_filter (held_for gate node) (blockers gate job node))"

definition owner_planned :: "job_id \<Rightarrow> string list \<Rightarrow> instant \<Rightarrow> instant \<Rightarrow> handoff_gate \<Rightarrow> handoff_gate" where
  "owner_planned owner picked start now gate0 =
     foldl (\<lambda>gate (node, owners).
        if owner \<in> set owners then
          (let until = (if node \<in> set picked then start else now);
               gate1 = (if node \<in> set picked then gate else gate\<lparr>hg_released := hg_released gate @ [(node, owner)]\<rparr>)
           in gate1\<lparr>hg_held_until := hm_entry [] node (hm_insert owner until) (hg_held_until gate1)\<rparr>)
        else gate) gate0 (hg_owners gate0)"

section \<open>State\<close>

record assignment =
  as_job_id :: job_id
  as_nodes :: "string list"
  as_per_node_alloc :: "(string, resource_allocations) hashmap"

record cluster_state =
  cs_nodes :: "node list"
  cs_reservations :: "reservation list"
  cs_topology :: "topology_tree option"
  cs_busy_until :: "(string, instant) hashmap"
  cs_preemption_handoffs :: "(string, job_id list) hashmap"

datatype unplaced_kind =
    FabricUnavailable | HetGroupIncomplete | NoSuitableNodes | RequestedNodesUnavailable
  | TooFewCandidates | NoCapacityAtStart | FutureSlotReserved

record unplaced =
  up_kind :: unplaced_kind
  up_needed_nodes :: u32
  up_candidates :: u32
  up_planned_start :: "instant option"

text \<open>What changes during a pass, and the sets it keeps of the groups seen and the jobs to skip.\<close>

record pass =
  ps_timelines :: "node_timeline list"
  ps_gate :: handoff_gate
  ps_checked_groups :: "job_id list"
  ps_skip :: "nat list"
  ps_assignments :: "assignment list"
  ps_unplaced :: "(job_id, unplaced) hashmap"

type_synonym gpu_planner = "job \<Rightarrow> cluster_state \<Rightarrow> node_timeline list \<Rightarrow> handoff_gate \<Rightarrow> instant
  \<Rightarrow> (assignment \<times> instant) option option"

record backfill_scheduler =
  bs_timelines :: "node_timeline list"
  bs_max_jobs :: nat
  bs_last_outcome :: "(job_id, unplaced) hashmap"
  bs_report_unplaced :: bool
  bs_released_handoffs :: "(string \<times> job_id) list"

definition scheduler_new :: "nat \<Rightarrow> backfill_scheduler" where
  "scheduler_new max_jobs = \<lparr>bs_timelines = [], bs_max_jobs = max_jobs, bs_last_outcome = [], bs_report_unplaced = True,
     bs_released_handoffs = []\<rparr>"

definition for_trial :: "backfill_scheduler \<Rightarrow> backfill_scheduler" where
  "for_trial self = (scheduler_new (bs_max_jobs self))\<lparr>bs_report_unplaced := False\<rparr>"

definition fabric_unavailable_jobs :: "backfill_scheduler \<Rightarrow> job_id list" where
  "fabric_unavailable_jobs self = map fst (filter (\<lambda>(_, o'). up_kind o' = FabricUnavailable) (bs_last_outcome self))"

definition clear_outcomes :: "backfill_scheduler \<Rightarrow> backfill_scheduler" where
  "clear_outcomes self = self\<lparr>bs_last_outcome := []\<rparr>"

definition same_situation :: "unplaced \<Rightarrow> unplaced \<Rightarrow> bool" where
  "same_situation a b = (up_kind a = up_kind b \<and> up_needed_nodes a = up_needed_nodes b)"

definition newly_unplaced :: "backfill_scheduler \<Rightarrow> (job_id, unplaced) hashmap \<Rightarrow> (job_id \<times> unplaced) list" where
  "newly_unplaced self current =
     filter (\<lambda>(i, outcome). \<not> (case hm_get (bs_last_outcome self) i of
         None \<Rightarrow> False | Some prev \<Rightarrow> same_situation prev outcome)) current"

definition log_unplaced :: "(job_id, unplaced) hashmap \<Rightarrow> backfill_scheduler \<Rightarrow> backfill_scheduler" where
  "log_unplaced current self = (if bs_report_unplaced self then self\<lparr>bs_last_outcome := current\<rparr> else self)"

definition planned_starts :: "backfill_scheduler \<Rightarrow> instant \<Rightarrow> (string, job_id \<times> instant) hashmap" where
  "planned_starts self now =
     foldl (\<lambda>m line.
        (let future = List.map_filter (\<lambda>iv. map_option (\<lambda>i. (i, iv_start iv)) (iv_job_id iv))
               (filter (\<lambda>iv. now < iv_start iv) (tl_intervals line))
         in if \<not> ra_is_empty (accumulated_at line now) then m
            else case sort_key snd future of
                [] \<Rightarrow> m
              | e # _ \<Rightarrow> hm_insert (tl_node_name line) e m)) [] (bs_timelines self)"

definition planned_job_starts :: "backfill_scheduler \<Rightarrow> instant \<Rightarrow> (job_id, string list \<times> instant) hashmap" where
  "planned_job_starts self now =
     foldl (\<lambda>by_job line.
        (let earliest_per_job = foldl (\<lambda>m iv. case iv_job_id iv of
                 None \<Rightarrow> m
               | Some i \<Rightarrow> hm_insert i (case hm_get m i of None \<Rightarrow> iv_start iv | Some s \<Rightarrow> min s (iv_start iv)) m) []
               (filter (\<lambda>iv. now < iv_start iv) (tl_intervals line))
         in foldl (\<lambda>by_job (i, start). hm_entry ([], start) i (\<lambda>(ns, t). (ns @ [tl_node_name line], max t start)) by_job)
              by_job earliest_per_job)) [] (bs_timelines self)"

section \<open>Search on one node\<close>

definition reservation_blocker :: "job \<Rightarrow> string \<Rightarrow> reservation list \<Rightarrow> instant \<Rightarrow> duration \<Rightarrow> instant option" where
  "reservation_blocker job node reservations start duration =
     (case map rv_end_time (filter (\<lambda>r. prospective_overlap_at job r node start duration) reservations) of
        [] \<Rightarrow> None
      | e # es \<Rightarrow> Some (Max (set (e # es))))"

partial_function (option) earliest_valid_loop ::
  "node_timeline \<Rightarrow> job \<Rightarrow> string \<Rightarrow> reservation list \<Rightarrow> resource_set \<Rightarrow> duration \<Rightarrow> instant \<Rightarrow> instant \<Rightarrow> instant option" where
  "earliest_valid_loop line job node reservations request duration max_check candidate =
     (if max_check < candidate then Some max_check
      else
        (case earliest_start line request duration candidate of
           None \<Rightarrow> None
         | Some start \<Rightarrow>
             (case reservation_blocker job node reservations start duration of
                None \<Rightarrow> Some start
              | Some blocked_until \<Rightarrow>
                  earliest_valid_loop line job node reservations request duration max_check blocked_until)))"

definition earliest_valid_start ::
  "node_timeline \<Rightarrow> job \<Rightarrow> string \<Rightarrow> reservation list \<Rightarrow> resource_set \<Rightarrow> duration \<Rightarrow> instant \<Rightarrow> instant option" where
  "earliest_valid_start line job node reservations request duration floor_at =
     earliest_valid_loop line job node reservations request duration (floor_at + duration_days 365) floor_at"

definition find_suitable_nodes :: "job \<Rightarrow> cluster_state \<Rightarrow> handoff_gate \<Rightarrow> instant \<Rightarrow> nat list" where
  "find_suitable_nodes job cl gate now =
     (let nodes = cs_nodes cl;
          reservations = cs_reservations cl;
          required = job_resource_request job;
          placement = placement_new job;
          suitable = (\<lambda>node. matches_for_reservation placement node reservations now
              \<and> can_satisfy (n_total_resources node) required \<and> \<not> hides gate job (n_name node));
          listed_node_hidden = (hg_owners gate \<noteq> [] \<and> nodelist_is_additive placement
              \<and> list_ex (\<lambda>n. is_listed placement (n_name n) \<and> hides gate job (n_name n)) nodes)
      in if additive_listed_node_unavailable placement nodes reservations now required \<or> listed_node_hidden then []
         else filter (\<lambda>i. suitable (nodes ! i)) [0..<length nodes])"

definition free_gpus_at :: "node_timeline \<Rightarrow> node \<Rightarrow> string option \<Rightarrow> instant \<Rightarrow> u32" where
  "free_gpus_at line node gpu_type time =
     of_nat (length (available_device_ids (n_total_resources node) (accumulated_at line time) gpu_gres gpu_type))"

section \<open>Shares on several nodes\<close>

text \<open>The GPUs each assigned node is to give; \<open>None\<close> when they cannot be spread.\<close>

definition gpu_targets ::
  "node_timeline list \<Rightarrow> node list \<Rightarrow> gpu_demand \<Rightarrow> (nat \<times> instant) list \<Rightarrow> instant \<Rightarrow> (nat, u32) hashmap option" where
  "gpu_targets lines nodes dem assigned at_time =
     (case dem of
        DemandNone \<Rightarrow> Some []
      | DemandPerNode counts _ \<Rightarrow>
          if length counts \<noteq> length assigned then None
          else Some (zip (map fst assigned) counts)
      | DemandTotal cnt gpu_type \<Rightarrow>
          (let caps = sort_key (\<lambda>(_, cap). - uint cap)
                 (map (\<lambda>(ni, _). (ni, free_gpus_at (lines ! ni) (nodes ! ni) gpu_type at_time)) assigned)
           in map_option (\<lambda>targets. zip (map fst caps) targets) (distribute_total cnt (map snd caps))))"

definition node_share ::
  "node_timeline list \<Rightarrow> node list \<Rightarrow> job \<Rightarrow> string option \<Rightarrow> (nat, u32) hashmap \<Rightarrow> instant \<Rightarrow> nat \<Rightarrow> nat
     \<Rightarrow> (string \<times> resource_allocations) option" where
  "node_share lines nodes job gpu_type targets at_time idx ni =
     (let base = base_node_request job;
          node = nodes ! ni;
          current = accumulated_at (lines ! ni) at_time;
          counts = cpu_per_node_counts job;
          cpus = max (if idx < length counts then counts ! idx else rs_cpus base) 1;
          memory = (case js_memory_per_cpu_mb (j_spec job) of
              Some mem_per_cpu \<Rightarrow> mem_per_cpu * ucast cpus
            | None \<Rightarrow> rs_memory_mb base);
          req = base\<lparr>rs_cpus := cpus, rs_memory_mb := memory,
              rs_gpus := placeholder_gpus (case hm_get targets ni of None \<Rightarrow> 0 | Some n \<Rightarrow> n) gpu_type\<rparr>
      in if \<not> can_satisfy_with_allocated (n_total_resources node) current req then None
         else Some (n_name node, build_node_allocation (gpu_counts req) (n_total_resources node) current req))"

definition plan_per_node_alloc ::
  "node_timeline list \<Rightarrow> job \<Rightarrow> gpu_demand \<Rightarrow> (nat \<times> instant) list \<Rightarrow> node list \<Rightarrow> instant
     \<Rightarrow> (string, resource_allocations) hashmap option" where
  "plan_per_node_alloc lines job dem assigned nodes at_time =
     (case gpu_targets lines nodes dem assigned at_time of
        None \<Rightarrow> None
      | Some targets \<Rightarrow>
          map_option (foldl (\<lambda>m (name, share). hm_insert name share m) [])
            (those (map (\<lambda>(idx, ni, _). node_share lines nodes job (demand_gpu_type dem) targets at_time idx ni)
               (zip [0..<length assigned] assigned))))"

section \<open>The common start\<close>

definition timing_request :: "job \<Rightarrow> node list \<Rightarrow> nat \<Rightarrow> resource_set" where
  "timing_request job nodes ni =
     (if js_exclusive (j_spec job) then n_total_resources (nodes ! ni) else job_resource_request job)"

definition node_start ::
  "node_timeline list \<Rightarrow> cluster_state \<Rightarrow> job \<Rightarrow> duration \<Rightarrow> instant \<Rightarrow> nat \<Rightarrow> instant option" where
  "node_start lines cl job duration floor_at ni =
     earliest_valid_start (lines ! ni) job (n_name (cs_nodes cl ! ni)) (cs_reservations cl)
       (timing_request job (cs_nodes cl) ni) duration floor_at"

definition common_start ::
  "node_timeline list \<Rightarrow> cluster_state \<Rightarrow> job \<Rightarrow> duration \<Rightarrow> (nat \<times> instant) list \<Rightarrow> instant \<Rightarrow> instant option" where
  "common_start lines cl job duration assigned earliest =
     map_option (\<lambda>starts. if starts = [] then earliest else Max (set starts))
       (those (map (\<lambda>(ni, _). node_start lines cl job duration earliest ni) assigned))"

definition next_release :: "node_timeline list \<Rightarrow> (nat \<times> instant) list \<Rightarrow> instant \<Rightarrow> instant \<Rightarrow> instant option" where
  "next_release lines assigned earliest horizon =
     (case filter (\<lambda>e. earliest < e \<and> e < horizon)
             (concat (map (\<lambda>(ni, _). map iv_end (tl_intervals (lines ! ni))) assigned)) of
        [] \<Rightarrow> None
      | e # es \<Rightarrow> Some (Min (set (e # es))))"

text \<open>The result is the start and, for a job with unequal shares, the shares; \<open>Some None\<close> when there is no room.\<close>

partial_function (option) converge ::
  "node_timeline list \<Rightarrow> cluster_state \<Rightarrow> job \<Rightarrow> gpu_demand \<Rightarrow> duration \<Rightarrow> bool \<Rightarrow> instant \<Rightarrow> (nat \<times> instant) list \<Rightarrow> instant
     \<Rightarrow> (instant \<times> (string, resource_allocations) hashmap) option option" where
  "converge lines cl job dem duration heterogeneous horizon assigned earliest0 =
     (case common_start lines cl job duration assigned earliest0 of
        None \<Rightarrow> None
      | Some earliest \<Rightarrow>
          if earliest \<noteq> earliest0 \<and> earliest < horizon
          then converge lines cl job dem duration heterogeneous horizon assigned earliest
          else if \<not> heterogeneous then Some (Some (earliest, []))
          else
            (case plan_per_node_alloc lines job dem assigned (cs_nodes cl) earliest of
               Some allocations \<Rightarrow> Some (Some (earliest, allocations))
             | None \<Rightarrow>
                 (case next_release lines assigned earliest horizon of
                    Some release \<Rightarrow> converge lines cl job dem duration heterogeneous horizon assigned release
                  | None \<Rightarrow> Some None)))"

section \<open>The candidates of a job\<close>

definition pull_named ::
  "node list \<Rightarrow> string list \<Rightarrow> (nat \<times> instant) list \<Rightarrow> (nat \<times> instant) list" where
  "pull_named nodes names starts =
     (case foldl (\<lambda>(reordered, rest) name.
          case find (\<lambda>(ni, _). n_name (nodes ! ni) = name) rest of
            None \<Rightarrow> (reordered, rest)
          | Some e \<Rightarrow> (reordered @ [e], remove1 e rest)) ([], starts) names of
        (reordered, rest) \<Rightarrow> reordered @ rest)"

definition by_preference ::
  "node_timeline list \<Rightarrow> cluster_state \<Rightarrow> job \<Rightarrow> gpu_demand \<Rightarrow> (nat \<times> instant) list \<Rightarrow> (nat \<times> instant) list" where
  "by_preference lines cl job dem starts =
     (let free = (\<lambda>ni t. if dem = DemandNone then 0
              else uint (free_gpus_at (lines ! ni) (cs_nodes cl ! ni) (demand_gpu_type dem) t));
          load_at = (\<lambda>ni t. uint (ra_cpus (accumulated_at (lines ! ni) t)))
      in if js_spread_job (j_spec job)
         then sort_key (\<lambda>(ni, t). (t, - free ni t, load_at ni t)) starts
         else sort_key (\<lambda>(ni, t). (t, - free ni t, - uint (n_weight (cs_nodes cl ! ni)), load_at ni t)) starts)"

definition by_locality ::
  "cluster_state \<Rightarrow> job \<Rightarrow> nat \<Rightarrow> (nat \<times> instant) list \<Rightarrow> (nat \<times> instant) list option" where
  "by_locality cl job needed starts =
     (case cs_topology cl of
        None \<Rightarrow> Some starts
      | Some topo \<Rightarrow>
          if 1 < needed \<and> (js_topology (j_spec job) = Some ''tree'' \<or> js_topology (j_spec job) = Some ''block'')
          then map_option (\<lambda>names. pull_named (cs_nodes cl) names starts)
                 (select_local_nodes topo (map (\<lambda>(ni, _). n_name (cs_nodes cl ! ni)) starts) needed)
          else Some starts)"

definition listed_first :: "node_placement \<Rightarrow> cluster_state \<Rightarrow> (nat \<times> instant) list \<Rightarrow> (nat \<times> instant) list" where
  "listed_first placement cl starts =
     (if nodelist_is_additive placement
      then sort_key (\<lambda>(ni, _). \<not> is_listed placement (n_name (cs_nodes cl ! ni))) starts else starts)"

text \<open>The handoff checks of callers outside a pass.\<close>

definition handoff_allows :: "cluster_state \<Rightarrow> job \<Rightarrow> string \<Rightarrow> bool" where
  "handoff_allows cl job node =
     (case hm_get (cs_preemption_handoffs cl) node of None \<Rightarrow> True | Some owners \<Rightarrow> j_job_id job \<in> set owners)"

definition listed_node_handed_off :: "cluster_state \<Rightarrow> job \<Rightarrow> node_placement \<Rightarrow> bool" where
  "listed_node_handed_off cl job placement =
     (cs_preemption_handoffs cl \<noteq> [] \<and> nodelist_is_additive placement
      \<and> list_ex (\<lambda>n. is_listed placement (n_name n) \<and> \<not> handoff_allows cl job (n_name n)) (cs_nodes cl))"

section \<open>Placing a job\<close>

definition note_unplaced :: "job \<Rightarrow> unplaced_kind \<Rightarrow> nat \<Rightarrow> instant option \<Rightarrow> pass \<Rightarrow> pass" where
  "note_unplaced job kind candidates planned_start p = p\<lparr>ps_unplaced := hm_insert (j_job_id job)
     \<lparr>up_kind = kind, up_needed_nodes = max (js_num_nodes (j_spec job)) 1, up_candidates = of_nat candidates,
      up_planned_start = planned_start\<rparr> (ps_unplaced p)\<rparr>"

definition job_duration :: "job \<Rightarrow> duration" where
  "job_duration job = (case js_time_limit (j_spec job) of None \<Rightarrow> unlimited_job_duration | Some d \<Rightarrow> d)"

definition uniform_shares ::
  "node_timeline list \<Rightarrow> cluster_state \<Rightarrow> job \<Rightarrow> (nat \<times> instant) list \<Rightarrow> instant \<Rightarrow> (string, resource_allocations) hashmap" where
  "uniform_shares lines cl job assigned earliest =
     (let required = job_resource_request job
      in foldl (\<lambda>m (ni, _).
           (let node = cs_nodes cl ! ni
            in hm_insert (n_name node)
                 (if js_exclusive (j_spec job) then build_exclusive_allocation (n_total_resources node) (rs_memory_mb required)
                  else build_node_allocation (gpu_counts required) (n_total_resources node)
                         (accumulated_at (lines ! ni) earliest) required) m)) [] assigned)"

definition reserve_shares ::
  "cluster_state \<Rightarrow> (nat \<times> instant) list \<Rightarrow> (string, resource_allocations) hashmap \<Rightarrow> instant \<Rightarrow> instant \<Rightarrow> job_id
     \<Rightarrow> node_timeline list \<Rightarrow> node_timeline list" where
  "reserve_shares cl assigned shares start stop i lines0 =
     foldl (\<lambda>lines (ni, _). lines[ni := reserve_for_job start stop
         (case hm_get shares (n_name (cs_nodes cl ! ni)) of None \<Rightarrow> ra_default | Some a \<Rightarrow> a) (Some i) (lines ! ni)])
       lines0 assigned"

text \<open>The end of the loop body, once the start and the shares are known.\<close>

definition commit_placement ::
  "cluster_state \<Rightarrow> instant \<Rightarrow> job \<Rightarrow> (nat \<times> instant) list \<Rightarrow> instant \<Rightarrow> (string, resource_allocations) hashmap \<Rightarrow> pass \<Rightarrow> pass" where
  "commit_placement cl now job assigned earliest shares p =
     (let names = map (\<lambda>(ni, _). n_name (cs_nodes cl ! ni)) assigned;
          duration = job_duration job;
          p1 = (if earliest \<le> now \<or> \<not> j_idle_fill job
                then p\<lparr>ps_gate := owner_planned (j_job_id job) names earliest now (ps_gate p)\<rparr> else p)
      in if earliest \<le> now then
           p1\<lparr>ps_timelines := reserve_shares cl assigned shares now (now + duration) (j_job_id job) (ps_timelines p1),
              ps_assignments := ps_assignments p1
                @ [\<lparr>as_job_id = j_job_id job, as_nodes = names, as_per_node_alloc = shares\<rparr>]\<rparr>
         else if j_idle_fill job then note_unplaced job NoCapacityAtStart (length assigned) None p1
         else note_unplaced job FutureSlotReserved (length assigned) (Some earliest)
                (p1\<lparr>ps_timelines := reserve_shares cl assigned shares earliest (earliest + duration) (j_job_id job)
                      (ps_timelines p1)\<rparr>))"

definition is_heterogeneous :: "job \<Rightarrow> bool" where
  "is_heterogeneous job =
     (\<not> js_exclusive (j_spec job)
      \<and> (homogeneous_per_node (demand_of job) = None \<or> cpu_is_heterogeneous job))"

definition needed_nodes :: "job \<Rightarrow> nat" where
  "needed_nodes job = max (unat (js_num_nodes (j_spec job))) 1"

text \<open>From the chosen nodes to the commitment: the common start, then the shares.\<close>

definition place_on ::
  "cluster_state \<Rightarrow> instant \<Rightarrow> job \<Rightarrow> (nat \<times> instant) list \<Rightarrow> pass \<Rightarrow> pass option" where
  "place_on cl now job assigned p =
     (case converge (ps_timelines p) cl job (demand_of job) (job_duration job) (is_heterogeneous job)
             (now + duration_days 365) assigned (if assigned = [] then now else Max (snd ` set assigned)) of
        None \<Rightarrow> None
      | Some None \<Rightarrow> Some (note_unplaced job NoCapacityAtStart (length assigned) None p)
      | Some (Some (earliest, allocations)) \<Rightarrow>
          Some (commit_placement cl now job assigned earliest
            (if is_heterogeneous job then allocations else uniform_shares (ps_timelines p) cl job assigned earliest) p))"

definition choose_nodes ::
  "cluster_state \<Rightarrow> job \<Rightarrow> node_timeline list \<Rightarrow> (nat \<times> instant) list \<Rightarrow> (nat \<times> instant) list option" where
  "choose_nodes cl job lines starts =
     map_option (\<lambda>local. take (needed_nodes job) (listed_first (placement_new job) cl local))
       (by_locality cl job (needed_nodes job) (by_preference lines cl job (demand_of job) starts))"

definition place_suitable :: "cluster_state \<Rightarrow> instant \<Rightarrow> job \<Rightarrow> nat list \<Rightarrow> pass \<Rightarrow> pass option" where
  "place_suitable cl now job suitable p =
     (let placement = placement_new job;
          listed = (\<lambda>ni. is_listed placement (n_name (cs_nodes cl ! ni)));
          floor_of = (\<lambda>ni. gate_floor (ps_gate p) job (n_name (cs_nodes cl ! ni)) now)
      in case those (map (\<lambda>ni. map_option (Pair ni)
               (node_start (ps_timelines p) cl job (job_duration job) (floor_of ni) ni)) suitable) of
           None \<Rightarrow> None
         | Some starts \<Rightarrow>
             if nodelist_is_additive placement \<and> length (filter (listed \<circ> fst) starts) < length (filter listed suitable)
             then Some (note_unplaced job RequestedNodesUnavailable (length suitable) None p)
             else if length starts < needed_nodes job
             then Some (note_unplaced job TooFewCandidates (length starts) None p)
             else
               (case choose_nodes cl job (ps_timelines p) starts of
                  None \<Rightarrow> None
                | Some assigned \<Rightarrow> place_on cl now job assigned p))"

text \<open>A job with GPU property constraints, planned in one piece.\<close>

definition place_planned :: "cluster_state \<Rightarrow> instant \<Rightarrow> job \<Rightarrow> (assignment \<times> instant) option \<Rightarrow> pass \<Rightarrow> pass" where
  "place_planned cl now job plan p =
     (case plan of
        None \<Rightarrow> note_unplaced job FabricUnavailable 0 None p
      | Some (a, start) \<Rightarrow>
          (let lines = foldl (\<lambda>lines (name, share).
                 case find (\<lambda>i. n_name (cs_nodes cl ! i) = name) [0..<length (cs_nodes cl)] of
                   None \<Rightarrow> lines
                 | Some i \<Rightarrow> lines[i := reserve_for_job start (start + job_duration job) share (Some (j_job_id job)) (lines ! i)])
                 (ps_timelines p) (as_per_node_alloc a);
               p1 = p\<lparr>ps_gate := owner_planned (j_job_id job) (as_nodes a) start now (ps_gate p), ps_timelines := lines\<rparr>
           in if start \<le> now then p1\<lparr>ps_assignments := ps_assignments p1 @ [a]\<rparr>
              else note_unplaced job FutureSlotReserved (length (as_nodes a)) (Some start) p1))"

section \<open>The pass\<close>

definition het_key :: "job \<Rightarrow> job_id option" where
  "het_key job =
     (case j_het_job_id job of
        Some h \<Rightarrow> Some h
      | None \<Rightarrow> if j_het_group job = Some 0 then Some (j_job_id job) else None)"

definition het_groups :: "job list \<Rightarrow> (job_id, nat list) hashmap" where
  "het_groups pending =
     foldl (\<lambda>m idx. case het_key (pending ! idx) of None \<Rightarrow> m | Some h \<Rightarrow> hm_entry [] h (\<lambda>is. is @ [idx]) m)
       [] [0..<length pending]"

definition group_of :: "(job_id, nat list) hashmap \<Rightarrow> nat \<Rightarrow> (job_id \<times> nat list) option" where
  "group_of groups idx = find (\<lambda>(_, indices). 1 < length indices \<and> idx \<in> set indices) groups"

definition check_group :: "cluster_state \<Rightarrow> instant \<Rightarrow> job list \<Rightarrow> nat \<Rightarrow> pass \<Rightarrow> pass" where
  "check_group cl now pending idx p =
     (case group_of (het_groups pending) idx of
        None \<Rightarrow> p
      | Some (g, indices) \<Rightarrow>
          if g \<in> set (ps_checked_groups p) then p
          else
            (let p1 = p\<lparr>ps_checked_groups := g # ps_checked_groups p\<rparr>
             in if list_all (\<lambda>i. unat (js_num_nodes (j_spec (pending ! i)))
                      \<le> length (find_suitable_nodes (pending ! i) cl (ps_gate p) now)) indices
                then p1 else p1\<lparr>ps_skip := indices @ ps_skip p1\<rparr>))"

definition schedule_job ::
  "gpu_planner option \<Rightarrow> cluster_state \<Rightarrow> instant \<Rightarrow> job list \<Rightarrow> nat \<Rightarrow> pass \<Rightarrow> pass option" where
  "schedule_job plan_gpu cl now pending idx p0 =
     (let job = pending ! idx;
          p = check_group cl now pending idx p0;
          gpu = requires_gpu_properties (j_spec job)
      in if idx \<in> set (ps_skip p) then Some (note_unplaced job HetGroupIncomplete 0 None p)
         else if constraints_validate (j_spec job) \<noteq> Inr () \<or> gpu \<and> plan_gpu = None
         then Some (note_unplaced job FabricUnavailable 0 None p)
         else if gpu then
           map_option (\<lambda>plan. place_planned cl now job plan p) (the plan_gpu job cl (ps_timelines p) (ps_gate p) now)
         else
           (let suitable = find_suitable_nodes job cl (ps_gate p) now
            in if suitable = [] then Some (note_unplaced job NoSuitableNodes 0 None p)
               else place_suitable cl now job suitable p))"

fun schedule_from :: "gpu_planner option \<Rightarrow> cluster_state \<Rightarrow> instant \<Rightarrow> job list \<Rightarrow> nat list \<Rightarrow> pass \<Rightarrow> pass option" where
  "schedule_from plan_gpu cl now pending [] p = Some p"
| "schedule_from plan_gpu cl now pending (idx # rest) p =
     (case schedule_job plan_gpu cl now pending idx p of
        None \<Rightarrow> None
      | Some p' \<Rightarrow> schedule_from plan_gpu cl now pending rest p')"

definition init_timelines :: "node list \<Rightarrow> node_timeline list" where
  "init_timelines nodes = map (\<lambda>n. timeline_new (n_name n) (n_total_resources n)) nodes"

definition busy_timeline :: "cluster_state \<Rightarrow> instant \<Rightarrow> node \<Rightarrow> node_timeline \<Rightarrow> node_timeline" where
  "busy_timeline cl now node line =
     (if 0 < ra_cpus (n_alloc_resources node) \<or> has_devices (n_alloc_resources node)
      then reserve now (case hm_get (cs_busy_until cl) (n_name node) of
               Some free_at \<Rightarrow> free_at
             | None \<Rightarrow> now + duration_seconds (24 * 3600)) (n_alloc_resources node) line
      else line)"

definition group_needs_binding :: "gpu_planner option \<Rightarrow> job list \<Rightarrow> nat list \<Rightarrow> bool" where
  "group_needs_binding plan_gpu pending indices =
     (plan_gpu \<noteq> None \<and> list_ex (\<lambda>i. requires_gpu_properties (j_spec (pending ! i))) indices)"

definition pass_new :: "gpu_planner option \<Rightarrow> job list \<Rightarrow> node_timeline list \<Rightarrow> handoff_gate \<Rightarrow> pass" where
  "pass_new plan_gpu pending lines gate =
     \<lparr>ps_timelines = lines, ps_gate = gate, ps_checked_groups = [],
      ps_skip = concat (filter (group_needs_binding plan_gpu pending) (hm_values (het_groups pending))),
      ps_assignments = [], ps_unplaced = []\<rparr>"

definition schedule_jobs_with ::
  "gpu_planner option \<Rightarrow> job list \<Rightarrow> cluster_state \<Rightarrow> instant \<Rightarrow> bool \<Rightarrow> handoff_gate \<Rightarrow> backfill_scheduler
     \<Rightarrow> (assignment list \<times> backfill_scheduler) option" where
  "schedule_jobs_with plan_gpu pending cl now initialize gate self =
     (let lines = (if initialize
            then map (\<lambda>(node, line). busy_timeline cl now node line) (zip (cs_nodes cl) (init_timelines (cs_nodes cl)))
            else bs_timelines self)
      in map_option (\<lambda>p.
           (let self1 = self\<lparr>bs_timelines := ps_timelines p\<rparr>;
                self2 = (if initialize
                  then (log_unplaced (ps_unplaced p) self1)\<lparr>bs_released_handoffs := hg_released (ps_gate p)\<rparr> else self1)
            in (ps_assignments p, self2)))
           (schedule_from plan_gpu cl now pending [0..<min (length pending) (bs_max_jobs self)]
              (pass_new plan_gpu pending lines gate)))"

end
