(* ===== verification/Gpu_Planning.thy ===== *)
theory Gpu_Planning
  imports Backfill Bindings
begin

text \<open>
  Placement of jobs with GPU property constraints (\<^verbatim>\<open>plan_gpu_job\<close> of \<^verbatim>\<open>spur-sched/src/backfill.rs\<close>)
  and the entry point of the scheduler: the candidate groups of GPUs, a trial pass on the cluster reduced to one
  group, and the choice of devices that stay free for the whole run.

  A group is the list of its (node, device) pairs. The loop that moves the floor of the trial pass is over option.
\<close>

section \<open>Candidate groups\<close>

definition block_members :: "fabric_block \<Rightarrow> (string \<times> u64) list" where
  "block_members block = map (\<lambda>m. (fd_node (fm_device m), fd_stable_id (fm_device m))) (blk_members block)"

text \<open>The GPUs of a node that satisfy the constraints, with their group keys.\<close>

definition keyed_gpus :: "constraints \<Rightarrow> fabric_block option \<Rightarrow> node \<Rightarrow> (string list \<times> string \<times> u64) list" where
  "keyed_gpus c block node =
     List.map_filter (\<lambda>gpu.
        if \<not> matches_gpu c gpu
           \<or> (case block of None \<Rightarrow> False | Some b \<Rightarrow> (n_name node, gr_stable_id gpu) \<notin> set (block_members b))
        then None
        else map_option (\<lambda>key. (key, n_name node, gr_stable_id gpu)) (group_key c (n_name node) gpu))
       (rs_gpus (n_total_resources node))"

definition gpu_groups :: "constraints \<Rightarrow> fabric_block option \<Rightarrow> node list \<Rightarrow> (string \<times> u64) list list" where
  "gpu_groups c block nodes =
     (let keyed = concat (map (keyed_gpus c block) nodes)
      in map (\<lambda>key. remdups (map snd (filter (\<lambda>e. fst e = key) keyed))) (sort (remdups (map fst keyed))))"

definition candidate_blocks :: "constraints \<Rightarrow> fabric_view \<Rightarrow> fabric_block option list" where
  "candidate_blocks c view =
     (if co_same_fabric c
      then map Some (sort_key (\<lambda>b. (length (blk_members b), fk_namespace (blk_key b), fk_physical_domain (blk_key b),
               fk_fabric_domain (blk_key b))) (filter (\<lambda>b. blk_issues b = []) (fv_blocks view)))
      else [None])"

definition has_properties :: "constraints \<Rightarrow> bool" where
  "has_properties c = (co_same c \<noteq> [] \<or> co_predicates c \<noteq> [])"

section \<open>The reduced cluster\<close>

text \<open>A node with only the devices of the group; one that has none of them, or cannot bind them, is down.\<close>

definition project_node :: "constraints \<Rightarrow> bool \<Rightarrow> (string \<times> u64) list \<Rightarrow> node \<Rightarrow> node" where
  "project_node c exclusive allowed original =
     (let total = n_total_resources original;
          gpus = filter (\<lambda>gpu. (n_name original, gr_stable_id gpu) \<in> set allowed) (rs_gpus total);
          capability = (if has_properties c then gpu_properties_capability else fabric_binding_version);
          node = original\<lparr>n_total_resources := total\<lparr>rs_gpus := gpus\<rparr>\<rparr>
      in if gpus = [] \<or> rs_fabric_binding_version total < capability \<or> (exclusive \<and> length gpus \<noteq> length (rs_gpus total))
         then node\<lparr>n_state := NS_Down\<rparr> else node)"

definition restrict_gpus :: "u64 list \<Rightarrow> resource_allocations \<Rightarrow> resource_allocations" where
  "restrict_gpus ids a =
     a\<lparr>ra_devices := hm_modify gpu_gres (filter (\<lambda>d. ad_device_id d \<in> set ids)) (ra_devices a)\<rparr>"

definition trial_timeline :: "node_timeline \<Rightarrow> node \<Rightarrow> node_timeline" where
  "trial_timeline line node =
     line\<lparr>tl_total := n_total_resources node,
       tl_intervals := map (\<lambda>iv. iv\<lparr>iv_resources :=
           restrict_gpus (map gr_stable_id (rs_gpus (n_total_resources node))) (iv_resources iv)\<rparr>) (tl_intervals line)\<rparr>"

definition trial_timelines :: "node_timeline list \<Rightarrow> node list \<Rightarrow> node_timeline list" where
  "trial_timelines lines nodes = map2 trial_timeline lines nodes @ drop (length nodes) lines"

definition trial_scheduler :: "node_timeline list \<Rightarrow> backfill_scheduler" where
  "trial_scheduler lines = (scheduler_new 1)\<lparr>bs_timelines := lines, bs_report_unplaced := False\<rparr>"

definition block_job :: "constraints \<Rightarrow> job \<Rightarrow> job" where
  "block_job c job = job\<lparr>j_spec := (j_spec job)\<lparr>js_constraint := Some (str_join '','' (co_features c))\<rparr>\<rparr>"

text \<open>What the trial pass reserved for the job: the start, and the share of each node.\<close>

definition trial_outcome ::
  "job_id \<Rightarrow> node_timeline list \<Rightarrow> (instant \<times> (string, resource_allocations) hashmap) option" where
  "trial_outcome i lines =
     foldl (\<lambda>acc line.
        case find (\<lambda>iv. iv_job_id iv = Some i) (tl_intervals line) of
          None \<Rightarrow> acc
        | Some iv \<Rightarrow> Some (iv_start iv, hm_insert (tl_node_name line) (iv_resources iv)
              (case acc of None \<Rightarrow> [] | Some (_, m) \<Rightarrow> m))) None lines"

section \<open>Devices for the whole run\<close>

definition bind_share ::
  "fabric_view \<Rightarrow> fabric_block option \<Rightarrow> bool \<Rightarrow> node \<Rightarrow> resource_allocations \<Rightarrow> resource_allocations \<times> bool" where
  "bind_share view block properties node a =
     (let (a1, ok) =
            (case block of
               None \<Rightarrow> (a, True)
             | Some b \<Rightarrow>
                 (case fb_for_allocation b (n_name node) a of
                    Inl _ \<Rightarrow> (a, False)
                  | Inr binding \<Rightarrow>
                      if fb_validate binding (fv_namespace view) (n_name node) (n_total_resources node) a \<noteq> Inr ()
                      then (a, False) else (a\<lparr>ra_fabric_binding := Some binding\<rparr>, True)))
      in if ok \<and> properties
         then (case gb_new (n_name node) (n_total_resources node) a1 of
                 Inl _ \<Rightarrow> (a1, False)
               | Inr binding \<Rightarrow> (a1\<lparr>ra_gpu_binding := Some binding\<rparr>, True))
         else (a1, ok))"

definition overlapping :: "node_timeline \<Rightarrow> instant \<Rightarrow> instant \<Rightarrow> interval list" where
  "overlapping line start stop = filter (\<lambda>iv. iv_start iv < stop \<and> start < iv_end iv) (tl_intervals line)"

text \<open>The devices of a node that no reservation holds during the run.\<close>

definition free_for_run :: "job \<Rightarrow> string option \<Rightarrow> node \<Rightarrow> interval list \<Rightarrow> allocated_device list" where
  "free_for_run job gpu_type node ivs =
     (let unavailable = concat (map (\<lambda>iv. device_ids (iv_resources iv) gpu_gres) ivs)
      in map (\<lambda>gpu. injectable (gr_stable_id gpu))
           (filter (\<lambda>gpu. gr_stable_id gpu \<notin> set unavailable
               \<and> (js_exclusive (j_spec job)
                  \<or> (case gpu_type of None \<Rightarrow> True | Some kind \<Rightarrow> kind = ''any'' \<or> gr_gpu_type gpu = kind)))
             (rs_gpus (n_total_resources node))))"

definition earlier :: "instant option \<Rightarrow> instant option \<Rightarrow> instant option" where
  "earlier a b = (case (a, b) of (None, _) \<Rightarrow> b | (_, None) \<Rightarrow> a | (Some x, Some y) \<Rightarrow> Some (min x y))"

record rebinding =
  rb_allocations :: "(string, resource_allocations) hashmap"
  rb_retry_at :: "instant option"
  rb_valid :: bool

definition rebind_node ::
  "fabric_view \<Rightarrow> fabric_block option \<Rightarrow> bool \<Rightarrow> job \<Rightarrow> string option \<Rightarrow> instant \<Rightarrow> node_timeline \<Rightarrow> node \<Rightarrow> rebinding \<Rightarrow> rebinding" where
  "rebind_node view block properties job gpu_type start line node r =
     (case hm_get (rb_allocations r) (n_name node) of
        None \<Rightarrow> r
      | Some allocation \<Rightarrow>
          (let busy = overlapping line start (start + job_duration job);
               wanted = unat (total_device_count allocation gpu_gres);
               available = take wanted (free_for_run job gpu_type node busy)
           in if length available < wanted
              then r\<lparr>rb_valid := False,
                  rb_retry_at := earlier (rb_retry_at r)
                    (case map iv_end (filter (\<lambda>iv. start < iv_end iv) busy) of
                       [] \<Rightarrow> None | e # es \<Rightarrow> Some (Min (set (e # es))))\<rparr>
              else
                (case bind_share view block properties node (if 0 < wanted
                       then allocation\<lparr>ra_devices := hm_insert gpu_gres available (ra_devices allocation)\<rparr>
                       else allocation) of
                   (bound, ok) \<Rightarrow> r\<lparr>rb_allocations := hm_insert (n_name node) bound (rb_allocations r),
                       rb_valid := (rb_valid r \<and> ok)\<rparr>)))"

definition rebind_nodes ::
  "fabric_view \<Rightarrow> fabric_block option \<Rightarrow> bool \<Rightarrow> job \<Rightarrow> string option \<Rightarrow> instant \<Rightarrow> node_timeline list \<Rightarrow> node list
     \<Rightarrow> (string, resource_allocations) hashmap \<Rightarrow> rebinding" where
  "rebind_nodes view block properties job gpu_type start lines nodes allocations =
     foldl (\<lambda>r (line, node). rebind_node view block properties job gpu_type start line node r)
       \<lparr>rb_allocations = allocations, rb_retry_at = None, rb_valid = True\<rparr> (zip lines nodes)"

section \<open>The plan\<close>

text \<open>One group: the trial pass at rising floors, until the devices it needs are free for the run.\<close>

partial_function (option) plan_group ::
  "fabric_view \<Rightarrow> fabric_block option \<Rightarrow> constraints \<Rightarrow> job \<Rightarrow> gpu_demand \<Rightarrow> cluster_state \<Rightarrow> node_timeline list
     \<Rightarrow> handoff_gate \<Rightarrow> instant \<Rightarrow> (assignment \<times> instant) option \<Rightarrow> instant \<Rightarrow> (assignment \<times> instant) option option" where
  "plan_group view block c job dem projected lines gate now best floor_at =
     (case schedule_jobs_with None [block_job c job] projected floor_at False gate
             (trial_scheduler (trial_timelines lines (cs_nodes projected))) of
        None \<Rightarrow> None
      | Some (immediate, trial) \<Rightarrow>
          (case trial_outcome (j_job_id job) (bs_timelines trial) of
             None \<Rightarrow> Some best
           | Some (start, allocations) \<Rightarrow>
               if (j_idle_fill job \<and> now < start) \<or> (case best of None \<Rightarrow> False | Some (_, at_time) \<Rightarrow> at_time \<le> start)
               then Some best
               else
                 (let r = rebind_nodes view block (has_properties c) job (demand_gpu_type dem) start lines
                        (cs_nodes projected) allocations
                  in if rb_valid r
                     then Some (Some (\<lparr>as_job_id = j_job_id job,
                        as_nodes = (case immediate of
                            a # _ \<Rightarrow> as_nodes a
                          | [] \<Rightarrow> map n_name (filter (\<lambda>n. hm_get (rb_allocations r) (n_name n) \<noteq> None) (cs_nodes projected))),
                        as_per_node_alloc = rb_allocations r\<rparr>, start))
                     else
                       (case rb_retry_at r of
                          None \<Rightarrow> Some best
                        | Some next \<Rightarrow>
                            if next \<le> floor_at \<or> now + duration_days 365 \<le> next then Some best
                            else plan_group view block c job dem projected lines gate now best next))))"

fun plan_groups ::
  "fabric_view \<Rightarrow> fabric_block option \<Rightarrow> constraints \<Rightarrow> job \<Rightarrow> gpu_demand \<Rightarrow> cluster_state \<Rightarrow> node_timeline list
     \<Rightarrow> handoff_gate \<Rightarrow> instant \<Rightarrow> (string \<times> u64) list list \<Rightarrow> (assignment \<times> instant) option
     \<Rightarrow> (assignment \<times> instant) option option" where
  "plan_groups view block c job dem cl lines gate now [] best = Some best"
| "plan_groups view block c job dem cl lines gate now (allowed # rest) best =
     (if (of_nat (length allowed) :: u64) < demand_total dem
      then plan_groups view block c job dem cl lines gate now rest best
      else
        (case plan_group view block c job dem
                (cl\<lparr>cs_nodes := map (project_node c (js_exclusive (j_spec job)) allowed) (cs_nodes cl)\<rparr>)
                lines gate now best now of
           None \<Rightarrow> None
         | Some best' \<Rightarrow> plan_groups view block c job dem cl lines gate now rest best'))"

fun plan_blocks ::
  "fabric_view \<Rightarrow> constraints \<Rightarrow> job \<Rightarrow> gpu_demand \<Rightarrow> cluster_state \<Rightarrow> node_timeline list \<Rightarrow> handoff_gate \<Rightarrow> instant
     \<Rightarrow> fabric_block option list \<Rightarrow> (assignment \<times> instant) option \<Rightarrow> (assignment \<times> instant) option option" where
  "plan_blocks view c job dem cl lines gate now [] best = Some best"
| "plan_blocks view c job dem cl lines gate now (block # rest) best =
     (case plan_groups view block c job dem cl lines gate now (gpu_groups c block (cs_nodes cl)) best of
        None \<Rightarrow> None
      | Some best' \<Rightarrow> plan_blocks view c job dem cl lines gate now rest best')"

definition plan_gpu_job :: "fabric_view \<Rightarrow> gpu_planner" where
  "plan_gpu_job view job cl lines gate now =
     (if j_het_job_id job \<noteq> None \<or> j_het_group job \<noteq> None then Some None
      else
        (case constraints_parse (js_constraint (j_spec job)) of
           Inl _ \<Rightarrow> Some None
         | Inr c \<Rightarrow>
             (case resolve_gpu_demand (j_spec job) of
                Inl _ \<Rightarrow> Some None
              | Inr dem \<Rightarrow> plan_blocks view c job dem cl lines gate now (candidate_blocks c view) None)))"

section \<open>The entry point\<close>

definition schedule ::
  "fabric_view option \<Rightarrow> job list \<Rightarrow> cluster_state \<Rightarrow> instant \<Rightarrow> backfill_scheduler \<Rightarrow> (assignment list \<times> backfill_scheduler) option" where
  "schedule fabric pending cl now self =
     schedule_jobs_with (map_option plan_gpu_job fabric) pending cl now True (gate_new (cs_preemption_handoffs cl)) self"

end
