(* ===== verification/Placement.thy ===== *)
theory Placement
  imports Admission Charge
begin

text \<open>
  The admission test and the charge agree: on a node that passes \<^verbatim>\<open>can_satisfy_with_allocated\<close>, the share
  \<^verbatim>\<open>build_node_allocation\<close> builds can be added to what is in use without reaching the width of any counter.
\<close>

section \<open>The devices of a built share\<close>

definition gpus_only :: "resource_allocations \<Rightarrow> bool" where
  "gpus_only a = (\<forall>g ds. hm_get (ra_devices a) g = Some ds \<longrightarrow> g = gpu_gres \<and> (\<forall>d \<in> set ds. ad_count d = 1))"

lemma gpus_onlyD: "gpus_only a \<Longrightarrow> hm_get (ra_devices a) g = Some ds \<Longrightarrow> d \<in> set ds \<Longrightarrow> ad_count d = 1"
  unfolding gpus_only_def by blast

lemma gpus_only_other: "gpus_only a \<Longrightarrow> g \<noteq> gpu_gres \<Longrightarrow> hm_get (ra_devices a) g = None"
  unfolding gpus_only_def by (cases "hm_get (ra_devices a) g") blast+

lemma gpus_only_pick:
  assumes "gpus_only a"
  shows "gpus_only (pick_gpus_step rs cur a x)"
proof -
  obtain t n where x: "x = (t, n)" by force
  define ids where "ids = take (unat n) (available_device_ids rs (ra_add cur a) gpu_gres (if t = ''any'' then None else Some t))"
  define old where "old = (case hm_get (ra_devices a) gpu_gres of None \<Rightarrow> [] | Some ds \<Rightarrow> ds)"
  have get: "hm_get (ra_devices (pick_gpus_step rs cur a x)) g =
      (if g = gpu_gres then Some (old @ map injectable ids) else hm_get (ra_devices a) g)" for g
    by (simp add: x pick_gpus_step_def Let_def hm_simps pick_devices_def ids_def old_def)
  have "\<forall>d \<in> set old. ad_count d = 1"
    using gpus_onlyD [OF assms, of gpu_gres] by (cases "hm_get (ra_devices a) gpu_gres") (simp_all add: old_def)
  then show ?thesis
    using gpus_only_other [OF assms] by (auto simp: gpus_only_def get injectable_def split: if_splits)
qed

lemma gpus_only_picks: "gpus_only a \<Longrightarrow> gpus_only (foldl (pick_gpus_step rs cur) a xs)"
  by (induction xs arbitrary: a) (auto intro: gpus_only_pick)

lemma hm_get_push_generic:
  assumes "hm_wf gen"
  shows "hm_get (ra_devices (push_generic gen a)) g =
     (case hm_get gen g of
        None \<Rightarrow> hm_get (ra_devices a) g
      | Some cnt \<Rightarrow> if 0 < cnt
          then Some ((case hm_get (ra_devices a) g of None \<Rightarrow> [] | Some ds \<Rightarrow> ds) @ [\<lparr>ad_device_id = 0, ad_count = cnt\<rparr>])
          else hm_get (ra_devices a) g)"
  using assms
proof (induction gen arbitrary: a)
  case Nil
  then show ?case by (simp add: push_generic_def)
next
  case (Cons x gen)
  obtain n c where x: "x = (n, c)" by force
  let ?a = "if 0 < c then a\<lparr>ra_devices := hm_entry [] n (\<lambda>ds. ds @ [\<lparr>ad_device_id = 0, ad_count = c\<rparr>]) (ra_devices a)\<rparr> else a"
  have p: "push_generic (x # gen) a = push_generic gen ?a" by (simp add: push_generic_def x)
  have "hm_wf gen" "hm_get gen n = None" using Cons.prems by (auto simp: hm_wf_def x map_of_eq_None_iff)
  then show ?case unfolding p Cons.IH [OF \<open>hm_wf gen\<close>] by (auto simp: x hm_simps split: option.split)
qed

lemma push_generic_wf: "hm_wf (ra_devices a) \<Longrightarrow> hm_wf (ra_devices (push_generic gen a))"
  unfolding push_generic_def by (induction gen arbitrary: a) (auto split: prod.split)

lemma dev_total_ones:
  "\<forall>d \<in> set ds. ad_count d = 1 \<Longrightarrow> distinct (map ad_device_id ds) \<Longrightarrow> dev_total i ds = (if i \<in> ad_device_id ` set ds then 1 else 0)"
  by (induction ds) (auto simp: dev_total_absent)

section \<open>Built shares fit\<close>

definition request_wf :: "resource_set \<Rightarrow> bool" where
  "request_wf req = (hm_wf (rs_generic req) \<and> gpu_gres \<notin> set (hm_keys (rs_generic req)))"

lemma built_share:
  assumes ids: "distinct (map gr_stable_id (rs_gpus inventory))" and req: "request_wf req"
    and share: "share = build_node_allocation order inventory cur req"
  shows "ra_ok share" and "ra_cpus share = rs_cpus req" and "ra_memory_mb share = rs_memory_mb req"
    and "ra_view share (QDevice gpu_gres i) = (if i \<in> set (device_ids share gpu_gres) then 1 else 0)"
    and "set (device_ids share gpu_gres) \<inter> set (device_ids cur gpu_gres) = {}"
    and "g \<noteq> gpu_gres \<Longrightarrow> ra_view share (QDevice g i) =
      (if i = 0 then (case hm_get (rs_generic req) g of None \<Rightarrow> 0 | Some n \<Rightarrow> unat n) else 0)"
proof -
  define a0 where "a0 = (with_scalar (rs_cpus req) (rs_memory_mb req))\<lparr>ra_generation := rs_generation inventory\<rparr>"
  define a where "a = foldl (pick_gpus_step inventory cur) a0 order"
  have s: "share = push_generic (rs_generic req) a" by (simp add: share build_node_allocation_def a_def a0_def)
  have "picks_ok inventory cur a0" "gpus_only a0"
    by (simp_all add: picks_ok_def a0_def with_scalar_def ra_default_def ra_ok_def device_ids_def gpus_only_def)
  then have ok: "picks_ok inventory cur a" and only: "gpus_only a"
    using pick_gpus_fold_ok [OF _ ids] gpus_only_picks by (auto simp: a_def)
  have no_gpu: "hm_get (rs_generic req) gpu_gres = None" using req by (auto simp: request_wf_def map_of_eq_None_iff)
  have get: "hm_get (ra_devices share) g = (case hm_get (rs_generic req) g of
        None \<Rightarrow> hm_get (ra_devices a) g
      | Some cnt \<Rightarrow> if 0 < cnt
          then Some ((case hm_get (ra_devices a) g of None \<Rightarrow> [] | Some ds \<Rightarrow> ds) @ [\<lparr>ad_device_id = 0, ad_count = cnt\<rparr>])
          else hm_get (ra_devices a) g)" for g
    unfolding s using req by (intro hm_get_push_generic) (simp add: request_wf_def)
  show "ra_ok share" using ok unfolding s by (auto simp: picks_ok_def ra_ok_def intro: push_generic_wf)
  show "ra_cpus share = rs_cpus req" "ra_memory_mb share = rs_memory_mb req"
    unfolding s by (simp_all add: push_generic_scalars a_def pick_gpus_fold_scalars a0_def with_scalar_def)
  have gpu_ids: "device_ids share gpu_gres = device_ids a gpu_gres" by (simp add: device_ids_def get no_gpu)
  then show "set (device_ids share gpu_gres) \<inter> set (device_ids cur gpu_gres) = {}" using ok by (simp add: picks_ok_def)
  have "distinct (device_ids a gpu_gres)" using ok by (simp add: picks_ok_def)
  then show "ra_view share (QDevice gpu_gres i) = (if i \<in> set (device_ids share gpu_gres) then 1 else 0)"
    using gpus_onlyD [OF only, of gpu_gres] dev_total_ones [of _ i]
    by (cases "hm_get (ra_devices a) gpu_gres") (simp_all add: get no_gpu device_ids_def)
  show "ra_view share (QDevice g i) =
      (if i = 0 then (case hm_get (rs_generic req) g of None \<Rightarrow> 0 | Some n \<Rightarrow> unat n) else 0)" if "g \<noteq> gpu_gres"
  proof -
    have none: "hm_get (ra_devices a) g = None" using gpus_only_other [OF only that] .
    show ?thesis
    proof (cases "hm_get (rs_generic req) g")
      case (Some n)
      then show ?thesis by (cases "n = 0") (simp_all add: get none word_neq_0_conv)
    qed (simp add: get none)
  qed
qed

lemma share_fits:
  assumes adm: "can_satisfy_with_allocated inventory cur req" and cur: "tame cur"
    and ids: "distinct (map gr_stable_id (rs_gpus inventory))" and req: "request_wf req"
    and share: "share = build_node_allocation order inventory cur req"
  shows "ra_view cur q + ra_view share q \<le> ra_cap q"
proof (cases q)
  case QCpus
  have "unat (rs_cpus req) \<le> unat (rs_cpus inventory) - unat (ra_cpus cur)"
    using adm unfolding can_satisfy_iff by (simp add: word_le_nat_alt unat_sat_sub)
  then show ?thesis
    using unat_le_max [of "rs_cpus inventory"] unat_le_max [of "ra_cpus cur"] by (simp add: QCpus built_share(2) [OF ids req share])
next
  case QMemory
  have "unat (rs_memory_mb req) \<le> unat (rs_memory_mb inventory) - unat (ra_memory_mb cur)"
    using adm unfolding can_satisfy_iff by (simp add: word_le_nat_alt unat_sat_sub)
  then show ?thesis
    using unat_le_max [of "rs_memory_mb inventory"] unat_le_max [of "ra_memory_mb cur"]
    by (simp add: QMemory built_share(3) [OF ids req share])
next
  case (QDevice g i)
  have le: "ra_view cur q \<le> ra_cap q"
    using cur dev_total_bound ra_wf_entry by (auto simp: QDevice tame_def split: option.split)
  show ?thesis
  proof (cases "g = gpu_gres")
    case True
    show ?thesis
      using le built_share(4,5) [OF ids req share] held_ids_view [OF cur, of i]
      by (cases "i \<in> set (device_ids share gpu_gres)") (auto simp: QDevice True simp del: ra_view.simps)
  next
    case False
    show ?thesis
    proof (cases "hm_get (rs_generic req) g")
      case None
      then show ?thesis using le built_share(6) [OF ids req share False, of i] by (auto simp: QDevice simp del: ra_view.simps)
    next
      case (Some n)
      then have "(g, n) \<in> set (rs_generic req)" by (rule hm_get_mem)
      moreover have "\<forall>(g, n) \<in> set (rs_generic req).
          n \<le> sat_sub (case hm_get (rs_generic inventory) g of None \<Rightarrow> 0 | Some n \<Rightarrow> n) (generic_count cur g)"
        using adm unfolding can_satisfy_iff by (elim conjE)
      ultimately obtain t :: u64 where "n \<le> sat_sub t (generic_count cur g)" by fast
      then have "unat n + gres_total (ra_view cur) g \<le> 2 ^ 64 - 1 \<or> n = 0"
        using unat_le_max [of t] unat_gt_0 [of n]
        by (cases "n = 0") (auto simp: word_le_nat_alt unat_sat_sub generic_count_view [OF cur])
      moreover have "ra_view cur (QDevice g i) \<le> gres_total (ra_view cur) g"
        unfolding gres_total_def by (rule member_le_sum) simp_all
      ultimately show ?thesis
        using le Some built_share(6) [OF ids req share False, of i] by (auto simp: QDevice simp del: ra_view.simps)
    qed
  qed
qed

end
