(* ===== verification/Capacity.thy ===== *)
theory Capacity
  imports Placement
begin

text \<open>
  What a node has of each quantity, and that the shares the scheduler builds stay within it: a share built for an
  admitted request, and the share of an exclusive job on a node where the whole inventory is free.
\<close>

section \<open>Capacities\<close>

fun node_cap :: "resource_set \<Rightarrow> quantity \<Rightarrow> nat" where
  "node_cap rs QCpus = unat (rs_cpus rs)"
| "node_cap rs QMemory = unat (rs_memory_mb rs)"
| "node_cap rs (QDevice g i) =
     (if g = gpu_gres then (if i \<in> gr_stable_id ` set (rs_gpus rs) then 1 else 0)
      else if i = 0 then (case hm_get (rs_generic rs) g of None \<Rightarrow> 0 | Some n \<Rightarrow> unat n) else 0)"

text \<open>A share the node can give at all, and one it can give beside what is in use.\<close>

definition fits_node :: "resource_set \<Rightarrow> resource_allocations \<Rightarrow> bool" where
  "fits_node rs share = (ra_wf share \<and> ra_pos share \<and> (\<forall>q. ra_view share q \<le> node_cap rs q))"

definition has_room :: "resource_set \<Rightarrow> (quantity \<Rightarrow> nat) \<Rightarrow> resource_allocations \<Rightarrow> bool" where
  "has_room rs used share = (\<forall>q. 0 < ra_view share q \<longrightarrow> used q + ra_view share q \<le> node_cap rs q)"

text \<open>A node whose inventory the scheduler can account for: distinct devices of named types, countable resources apart.\<close>

definition inventory_wf :: "resource_set \<Rightarrow> bool" where
  "inventory_wf rs =
     (distinct (map gr_stable_id (rs_gpus rs)) \<and> request_wf rs \<and> (\<forall>g \<in> set (rs_gpus rs). gr_gpu_type g \<noteq> ''any'')
      \<and> length (rs_gpus rs) < 2 ^ 32)"

section \<open>Shares made of GPUs and countable resources\<close>

lemma gpu_share:
  assumes a: "ra_ok a" "gpus_only a" "distinct (device_ids a gpu_gres)"
    and gen: "hm_wf gen" "gpu_gres \<notin> set (hm_keys gen)" and s: "s = push_generic gen a"
  shows "ra_wf s" and "ra_pos s"
    and "ra_view s (QDevice g i) = (if g = gpu_gres then (if i \<in> set (device_ids a gpu_gres) then 1 else 0)
      else if i = 0 then (case hm_get gen g of None \<Rightarrow> 0 | Some n \<Rightarrow> unat n) else 0)"
proof -
  have no_gpu: "hm_get gen gpu_gres = None" using gen(2) by (auto simp: map_of_eq_None_iff)
  have get: "hm_get (ra_devices s) g = (if g = gpu_gres then hm_get (ra_devices a) g
      else case hm_get gen g of None \<Rightarrow> None | Some cnt \<Rightarrow> if 0 < cnt then Some [\<lparr>ad_device_id = 0, ad_count = cnt\<rparr>] else None)" for g
    using hm_get_push_generic [OF gen(1), of a g] gpus_only_other [OF a(2), of g] no_gpu
    by (auto simp: s split: option.split)
  have wf: "hm_wf (ra_devices s)" using a(1) by (simp add: s ra_ok_def push_generic_wf)
  have gpus: "distinct (map ad_device_id ds)" "\<forall>d \<in> set ds. ad_count d = 1" if "hm_get (ra_devices a) gpu_gres = Some ds" for ds
    using that a(3) gpus_onlyD [OF a(2)] by (simp_all add: device_ids_def)
  have entry: "distinct (map ad_device_id es) \<and> (\<forall>d \<in> set es. 0 < ad_count d)" if "hm_get (ra_devices s) g = Some es" for g es
    using that gpus by (auto simp: get split: if_splits option.splits)
  show "ra_wf s" using wf entry by (intro ra_wfI) auto
  show "ra_pos s" using wf entry by (intro ra_posI) auto
  show "ra_view s (QDevice g i) = (if g = gpu_gres then (if i \<in> set (device_ids a gpu_gres) then 1 else 0)
      else if i = 0 then (case hm_get gen g of None \<Rightarrow> 0 | Some n \<Rightarrow> unat n) else 0)"
  proof (cases "g = gpu_gres")
    case True
    then show ?thesis
      using gpus dev_total_ones [of _ i] by (cases "hm_get (ra_devices a) gpu_gres") (auto simp: get device_ids_def)
  next
    case False
    then show ?thesis by (auto simp: get word_gt_0 split: option.split)
  qed
qed

lemma built_share_form:
  assumes "distinct (map gr_stable_id (rs_gpus inventory))"
  obtains a where "build_node_allocation order inventory cur req = push_generic (rs_generic req) a"
    and "ra_ok a" and "gpus_only a" and "distinct (device_ids a gpu_gres)"
    and "set (device_ids a gpu_gres) \<subseteq> gr_stable_id ` set (rs_gpus inventory)"
    and "set (device_ids a gpu_gres) \<inter> set (device_ids cur gpu_gres) = {}"
proof -
  define a0 where "a0 = (with_scalar (rs_cpus req) (rs_memory_mb req))\<lparr>ra_generation := rs_generation inventory\<rparr>"
  define a where "a = foldl (pick_gpus_step inventory cur) a0 order"
  have "picks_ok inventory cur a0" "gpus_only a0"
    by (simp_all add: picks_ok_def a0_def with_scalar_def ra_default_def ra_ok_def device_ids_def gpus_only_def)
  then have "picks_ok inventory cur a" "gpus_only a"
    using pick_gpus_fold_ok [OF _ assms] gpus_only_picks by (auto simp: a_def)
  moreover have "build_node_allocation order inventory cur req = push_generic (rs_generic req) a"
    by (simp add: build_node_allocation_def a_def a0_def)
  ultimately show thesis using that by (auto simp: picks_ok_def)
qed

section \<open>Admitted requests\<close>

lemma generic_admitted:
  assumes adm: "can_satisfy_with_allocated rs used req" and used: "tame used" and n: "hm_get (rs_generic req) g = Some n"
  shows "n = 0 \<or> (\<exists>t. hm_get (rs_generic rs) g = Some t \<and> gres_total (ra_view used) g + unat n \<le> unat t)"
proof -
  have "\<forall>(g, n) \<in> set (rs_generic req).
      n \<le> sat_sub (case hm_get (rs_generic rs) g of None \<Rightarrow> 0 | Some n \<Rightarrow> n) (generic_count used g)"
    using adm unfolding can_satisfy_iff by (elim conjE)
  then have "n \<le> sat_sub (case hm_get (rs_generic rs) g of None \<Rightarrow> 0 | Some n \<Rightarrow> n) (generic_count used g)"
    using hm_get_mem [OF n] by fast
  then have "unat n \<le> unat (case hm_get (rs_generic rs) g of None \<Rightarrow> 0 | Some n \<Rightarrow> n) - gres_total (ra_view used) g"
    by (simp add: word_le_nat_alt unat_sat_sub generic_count_view [OF used])
  then show ?thesis by (cases "hm_get (rs_generic rs) g"; cases "n = 0") (auto simp: unat_gt_0 [symmetric] simp del: unat_gt_0)
qed

lemma view_le_gres_total: "v (QDevice g i) \<le> gres_total v g"
  unfolding gres_total_def by (rule member_le_sum) simp_all

lemma can_satisfy_alone: "can_satisfy_with_allocated rs used req \<Longrightarrow> tame used \<Longrightarrow> can_satisfy rs req"
  unfolding can_satisfy_def by (erule can_satisfy_antitone [rotated 3]) (simp_all add: tame_default del: ra_view.simps)

lemma share_fits_node:
  assumes adm: "can_satisfy rs req" and rs: "inventory_wf rs" and req: "request_wf req"
  shows "fits_node rs (build_node_allocation order rs used req)" (is "fits_node _ ?share")
proof -
  have ids: "distinct (map gr_stable_id (rs_gpus rs))" using rs by (simp add: inventory_wf_def)
  obtain a where a: "?share = push_generic (rs_generic req) a" "ra_ok a" "gpus_only a" "distinct (device_ids a gpu_gres)"
    "set (device_ids a gpu_gres) \<subseteq> gr_stable_id ` set (rs_gpus rs)"
    by (rule built_share_form [OF ids])
  have gen: "hm_wf (rs_generic req)" "gpu_gres \<notin> set (hm_keys (rs_generic req))" using req by (simp_all add: request_wf_def)
  note form = gpu_share [OF a(2-4) gen a(1)]
  have "ra_view ?share q \<le> node_cap rs q" for q
  proof (cases q)
    case (QDevice g i)
    then show ?thesis
      using a(5) generic_admitted [OF adm [unfolded can_satisfy_def] tame_default, of g]
      by (cases "hm_get (rs_generic req) g") (auto simp: form(3) simp del: ra_view.simps)
  qed (use adm built_share(2,3) [OF ids req refl, of order used] in
      \<open>auto simp: can_satisfy_def can_satisfy_iff word_le_nat_alt unat_sat_sub\<close>)
  then show ?thesis using form(1,2) by (simp add: fits_node_def del: ra_view.simps)
qed

lemma share_has_room:
  assumes adm: "can_satisfy_with_allocated rs used req" and used: "tame used"
    and rs: "inventory_wf rs" and req: "request_wf req"
  shows "has_room rs (ra_view used) (build_node_allocation order rs used req)" (is "has_room _ _ ?share")
proof -
  have ids: "distinct (map gr_stable_id (rs_gpus rs))" using rs by (simp add: inventory_wf_def)
  obtain a where a: "?share = push_generic (rs_generic req) a" "ra_ok a" "gpus_only a" "distinct (device_ids a gpu_gres)"
    "set (device_ids a gpu_gres) \<subseteq> gr_stable_id ` set (rs_gpus rs)"
    "set (device_ids a gpu_gres) \<inter> set (device_ids used gpu_gres) = {}"
    by (rule built_share_form [OF ids])
  have gen: "hm_wf (rs_generic req)" "gpu_gres \<notin> set (hm_keys (rs_generic req))" using req by (simp_all add: request_wf_def)
  note form = gpu_share [OF a(2-4) gen a(1)]
  have "ra_view used q + ra_view ?share q \<le> node_cap rs q" if "0 < ra_view ?share q" for q
  proof (cases q)
    case (QDevice g i)
    then show ?thesis
      using that a(5,6) held_ids_view [OF used, of i] generic_admitted [OF adm used, of g]
        view_le_gres_total [of "ra_view used" g 0]
      by (cases "hm_get (rs_generic req) g"; cases "g = gpu_gres") (auto simp: form(3) simp del: ra_view.simps split: if_splits)
  qed (use that adm built_share(2,3) [OF ids req refl, of order used] in
      \<open>auto simp: can_satisfy_iff word_le_nat_alt unat_sat_sub\<close>)
  then show ?thesis by (simp add: has_room_def del: ra_view.simps)
qed

section \<open>Whole nodes\<close>

lemma gpu_counts_wf: "hm_wf (gpu_counts rs)"
proof -
  have "hm_wf m \<Longrightarrow> hm_wf (foldl (\<lambda>m g. hm_entry (0 :: u32) (gr_gpu_type g) (\<lambda>n. n + 1) m) m gs)" for m gs
    by (induction gs arbitrary: m) simp_all
  from this [OF hm_wf_empty] show ?thesis by (simp only: gpu_counts_def)
qed

lemma type_counted:
  assumes "inventory_wf rs" "gr_gpu_type g = t" "g \<in> set (rs_gpus rs)"
  shows "(t, count_of (gpu_counts rs) t) \<in> set (gpu_counts rs)" and "0 < unat (count_of (gpu_counts rs) t)"
proof -
  have "0 < gpus_of_type t (rs_gpus rs)" using assms(2,3) by (auto simp: gpus_of_type_def filter_empty_conv)
  moreover have "gpus_of_type t (rs_gpus rs) < 2 ^ 32"
    using assms(1) unfolding inventory_wf_def gpus_of_type_def by (meson le_less_trans length_filter_le)
  ultimately show pos: "0 < unat (count_of (gpu_counts rs) t)"
    unfolding count_of_def gpu_counts_get by (simp add: unat_of_nat_u32)
  then show "(t, count_of (gpu_counts rs) t) \<in> set (gpu_counts rs)"
    by (auto simp: count_of_def hm_get_mem split: option.splits)
qed

lemma free_inventory_gpus:
  assumes adm: "can_satisfy_with_allocated rs used rs" and used: "tame used" and rs: "inventory_wf rs"
    and g: "g \<in> set (rs_gpus rs)"
  shows "ra_view used (QDevice gpu_gres (gr_stable_id g)) = 0"
proof -
  let ?t = "gr_gpu_type g"
  have "find (\<lambda>h. gr_stable_id h = gr_stable_id g) (rs_gpus rs) = Some g"
    using rs g by (auto simp: inventory_wf_def find_Some_iff distinct_map inj_on_def in_set_conv_nth distinct_conv_nth)
  then have is_t: "gpu_is rs ?t (gr_stable_id g)" by (simp add: gpu_is_def)
  have "?t \<noteq> ''any''" using rs g by (simp add: inventory_wf_def)
  then have "count_of (gpu_counts rs) ?t \<le> count_of (avail_gpu_counts rs used) ?t"
    using adm type_counted(1) [OF rs refl g] unfolding can_satisfy_iff by fastforce
  then have "(\<Sum>i | gpu_is rs ?t i. ra_view used (QDevice gpu_gres i)) = 0"
    using type_counted(2) [OF rs refl g] unfolding word_le_nat_alt avail_gpu_view [OF used] by linarith
  then show ?thesis using is_t by (simp del: ra_view.simps)
qed

lemma inventory_satisfies_itself:
  assumes rs: "inventory_wf rs"
  shows "can_satisfy rs rs"
proof -
  have typed: "n \<le> count_of (avail_gpu_counts rs ra_default) t" if "(t, n) \<in> set (gpu_counts rs)" for t n
    using hm_mem_get [OF gpu_counts_wf that] avail_gpu_view [OF tame_default, of rs t]
    by (simp add: count_of_def word_le_nat_alt del: ra_view.simps)
  have any: "n = 0" if "(''any'', n) \<in> set (gpu_counts rs)" for n
    using hm_mem_get [OF gpu_counts_wf that] gpu_counts_get [of rs "''any''"] rs
    by (simp add: inventory_wf_def gpus_of_type_def)
  have "n \<le> (if t = ''any'' then sat_sub (sum_list (hm_values (gpu_counts rs))) (ucast (total_device_count ra_default gpu_gres))
      else count_of (avail_gpu_counts rs ra_default) t)" if "(t, n) \<in> set (gpu_counts rs)" for t n
    using typed [OF that] any [of n] that by (cases "t = ''any''") auto
  moreover have "n \<le> sat_sub (case hm_get (rs_generic rs) g of None \<Rightarrow> 0 | Some n \<Rightarrow> n) (generic_count ra_default g)"
    if "(g, n) \<in> set (rs_generic rs)" for g n
    using hm_mem_get [OF _ that] rs generic_count_view [OF tame_default, of g]
    by (simp add: inventory_wf_def request_wf_def word_le_nat_alt unat_sat_sub gres_total_def del: ra_view.simps)
  moreover have "\<not> holds_unknown_gpu rs ra_default" "ra_cpus ra_default = 0" "ra_memory_mb ra_default = 0"
    by (simp_all add: holds_unknown_gpu_def ra_default_def device_ids_def)
  ultimately show ?thesis unfolding can_satisfy_def can_satisfy_iff by (auto simp: sat_sub_def)
qed

lemma exclusive_share:
  assumes rs: "inventory_wf rs" and s: "s = build_exclusive_allocation rs mem"
  shows "ra_wf s" and "ra_pos s" and "ra_cpus s = rs_cpus rs" and "ra_memory_mb s = mem"
    and "ra_view s (QDevice g i) = node_cap rs (QDevice g i)"
proof -
  define a0 where "a0 = (with_scalar (rs_cpus rs) mem)\<lparr>ra_generation := rs_generation rs\<rparr>"
  define a where "a = (if rs_gpus rs = [] then a0 else a0\<lparr>ra_devices := hm_insert gpu_gres
      (map (\<lambda>g. injectable (gr_stable_id g)) (rs_gpus rs)) (ra_devices a0)\<rparr>)"
  have form: "s = push_generic (rs_generic rs) a"
    by (simp add: s build_exclusive_allocation_def a_def a0_def Let_def)
  have ids: "device_ids a gpu_gres = map gr_stable_id (rs_gpus rs)"
    by (simp add: a_def a0_def device_ids_def with_scalar_def ra_default_def injectable_def comp_def)
  have "ra_ok a" "gpus_only a"
    by (simp_all add: a_def a0_def with_scalar_def ra_default_def ra_ok_def gpus_only_def injectable_def hm_wf_def)
  then show "ra_wf s" "ra_pos s" "ra_view s (QDevice g i) = node_cap rs (QDevice g i)"
    using gpu_share [OF \<open>ra_ok a\<close> \<open>gpus_only a\<close> _ _ _ form] rs
    by (simp_all add: ids inventory_wf_def request_wf_def image_def del: ra_view.simps)
  show "ra_cpus s = rs_cpus rs" "ra_memory_mb s = mem"
    by (simp_all add: form push_generic_scalars a_def a0_def with_scalar_def)
qed

lemma exclusive_fits_node:
  "inventory_wf rs \<Longrightarrow> mem \<le> rs_memory_mb rs \<Longrightarrow> fits_node rs (build_exclusive_allocation rs mem)"
proof -
  assume rs: "inventory_wf rs" and mem: "mem \<le> rs_memory_mb rs"
  have "ra_view (build_exclusive_allocation rs mem) q \<le> node_cap rs q" for q
    using exclusive_share(3,4,5) [OF rs refl, of mem] mem by (cases q) (simp_all add: word_le_nat_alt del: ra_view.simps(3))
  then show ?thesis using exclusive_share(1,2) [OF rs refl, of mem] by (simp add: fits_node_def del: ra_view.simps)
qed

lemma exclusive_has_room:
  assumes adm: "can_satisfy_with_allocated rs used rs" and used: "tame used" and rs: "inventory_wf rs"
    and mem: "mem \<le> rs_memory_mb rs"
  shows "has_room rs (ra_view used) (build_exclusive_allocation rs mem)" (is "has_room _ _ ?share")
proof -
  have "ra_view used q + ra_view ?share q \<le> node_cap rs q" if pos: "0 < ra_view ?share q" for q
  proof (cases q)
    case (QDevice g i)
    show ?thesis
    proof (cases "g = gpu_gres")
      case True
      then show ?thesis
        using pos exclusive_share(5) [OF rs refl, of mem g i] free_inventory_gpus [OF adm used rs]
        by (auto simp: QDevice simp del: ra_view.simps split: if_splits)
    next
      case False
      then show ?thesis
        using pos exclusive_share(5) [OF rs refl, of mem g i] generic_admitted [OF adm used, of g]
          view_le_gres_total [of "ra_view used" g 0]
        by (auto simp: QDevice simp del: ra_view.simps split: if_splits option.splits)
    qed
  qed (use pos adm mem exclusive_share(3,4) [OF rs refl, of mem] in
      \<open>auto simp: can_satisfy_iff word_le_nat_alt unat_sat_sub\<close>)
  then show ?thesis by (simp add: has_room_def del: ra_view.simps)
qed

end
