(* ===== verification/Backfill_Search.thy ===== *)
theory Backfill_Search
  imports Backfill Capacity
begin

text \<open>
  The searches of the backfill scheduler: the start on one node, the nodes chosen for a job and their common start.
  All three return, and what they return is a start at which every chosen node has room and no reservation is in
  the way, unless it lies past the horizon of a year.
\<close>

section \<open>One node\<close>

lemma year_positive: "0 < duration_days 365"
  by (simp add: duration_days_def duration_seconds_def nanos_per_sec_def)

lemma idle_after_all:
  assumes wf: "timeline_wf (tl_intervals line)" and req: "can_satisfy (tl_total line) request"
  shows "\<exists>u. can_satisfy_at line u request"
proof -
  define u where "u = Max (insert 0 (iv_end ` set (tl_intervals line)))"
  have "iv_end i \<le> u" if "i \<in> set (tl_intervals line)" for i unfolding u_def using that by (intro Max_ge) simp_all
  then have "\<not> active_at u i" if "i \<in> set (tl_intervals line)" for i using that by (simp add: active_at_def not_less)
  then have "load (tl_intervals line) u q = 0" for q by (simp add: load_def cong: map_cong)
  then have "ra_view (accumulated_at line u) q \<le> ra_view ra_default q" for q by (simp only: accumulated_load(1) [OF wf])
  then have "can_satisfy_with_allocated (tl_total line) (accumulated_at line u) request"
    by (rule can_satisfy_antitone [OF tame_default accumulated_load(2) [OF wf] _ req [unfolded can_satisfy_def]])
  then show ?thesis by (auto simp: can_satisfy_at_def)
qed

lemma earliest_start_room:
  assumes wf: "timeline_wf (tl_intervals line)" and req: "can_satisfy (tl_total line) request"
  obtains r where "earliest_start line request d c = Some r" and "c \<le> r"
    and "c + duration_days 365 \<le> r \<or> (\<forall>u. r \<le> u \<and> u < r + d \<longrightarrow> can_satisfy_at line u request)"
proof -
  have year: "c \<le> c + duration_days 365" using year_positive by simp
  show thesis
    using earliest_loop_returns [OF wf swept_new [OF wf] order_refl, of request d "c + duration_days 365" c]
      idle_after_all [OF assms] year that
    unfolding earliest_start_def by force
qed

definition unreserved :: "job \<Rightarrow> string \<Rightarrow> reservation list \<Rightarrow> instant \<Rightarrow> duration \<Rightarrow> bool" where
  "unreserved job node reservations start d = (\<forall>r \<in> set reservations. \<not> prospective_overlap_at job r node start d)"

lemma blocker_cases:
  obtains "reservation_blocker job node rs start d = None" and "unreserved job node rs start d"
  | b where "reservation_blocker job node rs start d = Some b" and "start < b"
proof (cases "filter (\<lambda>r. prospective_overlap_at job r node start d) rs")
  case Nil
  then have "unreserved job node rs start d" by (simp add: unreserved_def filter_empty_conv)
  then show thesis using that(1) Nil by (simp add: reservation_blocker_def)
next
  case (Cons r others)
  let ?b = "Max (set (map rv_end_time (r # others)))"
  have "?b \<in> set (map rv_end_time (r # others))" by (rule Max_in) simp_all
  then obtain x where "x \<in> set (r # others)" "?b = rv_end_time x" by (auto simp del: Max_insert)
  moreover have "\<forall>x \<in> set (r # others). start < rv_end_time x"
    unfolding Cons [symmetric] by (auto simp: prospective_overlap_at_def split: if_splits)
  ultimately have "start < ?b" by auto
  then show thesis using that(2) Cons by (simp add: reservation_blocker_def)
qed

lemma earliest_valid_loop_returns:
  assumes wf: "timeline_wf (tl_intervals line)" and req: "can_satisfy (tl_total line) request"
    and "f \<le> c" "m = f + duration_days 365"
  shows "\<exists>r. earliest_valid_loop line job node rs request d m c = Some r \<and> f \<le> r
     \<and> (m \<le> r \<or> c \<le> r \<and> (\<forall>u. r \<le> u \<and> u < r + d \<longrightarrow> can_satisfy_at line u request) \<and> unreserved job node rs r d)"
  using assms(3)
proof (induction "nat (m - c + 1)" arbitrary: c rule: less_induct)
  case less
  have m: "f \<le> m" using year_positive by (simp add: assms(4))
  obtain r where r: "earliest_start line request d c = Some r" "c \<le> r"
    "c + duration_days 365 \<le> r \<or> (\<forall>u. r \<le> u \<and> u < r + d \<longrightarrow> can_satisfy_at line u request)"
    by (rule earliest_start_room [OF wf req])
  show ?case
  proof (cases "m < c")
    case True
    then show ?thesis using m by (simp add: earliest_valid_loop.simps)
  next
    case False
    show ?thesis
    proof (cases rule: blocker_cases [of job node rs r d])
      case 1
      then show ?thesis using False r less.prems assms(4) by (subst earliest_valid_loop.simps) auto
    next
      case (2 b)
      then have "c < b" using r(2) by simp
      then have "\<exists>r. earliest_valid_loop line job node rs request d m b = Some r \<and> f \<le> r
         \<and> (m \<le> r \<or> b \<le> r \<and> (\<forall>u. r \<le> u \<and> u < r + d \<longrightarrow> can_satisfy_at line u request) \<and> unreserved job node rs r d)"
        using False less.prems by (intro less.hyps) simp_all
      moreover have "earliest_valid_loop line job node rs request d m c = earliest_valid_loop line job node rs request d m b"
        using False r(1) 2 by (subst earliest_valid_loop.simps) simp
      ultimately show ?thesis using \<open>c < b\<close> by (metis less_le_not_le order_trans)
    qed
  qed
qed

lemma earliest_valid_room:
  assumes "timeline_wf (tl_intervals line)" "can_satisfy (tl_total line) request"
  obtains r where "earliest_valid_start line job node rs request d f = Some r" and "f \<le> r"
    and "r < f + duration_days 365 \<longrightarrow> 0 < d \<longrightarrow> can_satisfy_at line r request"
    and "r < f + duration_days 365 \<longrightarrow> unreserved job node rs r d"
proof -
  obtain r where "earliest_valid_start line job node rs request d f = Some r" "f \<le> r"
    "f + duration_days 365 \<le> r \<or> (\<forall>u. r \<le> u \<and> u < r + d \<longrightarrow> can_satisfy_at line u request) \<and> unreserved job node rs r d"
    using earliest_valid_loop_returns [OF assms order_refl refl, of job node rs d f] unfolding earliest_valid_start_def by blast
  then show thesis using that by auto
qed

section \<open>Requests\<close>

lemma request_wf_base: "request_wf (base_node_request job)"
proof -
  have gpu: "gpu_gres \<noteq> name @ CHR '':'' # t" for name t
  proof
    assume "gpu_gres = name @ CHR '':'' # t"
    then have "CHR '':'' \<in> set gpu_gres" by (metis in_set_conv_decomp)
    then show False by simp
  qed
  have "hm_wf m \<and> gpu_gres \<notin> set (hm_keys m) \<Longrightarrow>
      hm_wf (foldl add_generic m gs) \<and> gpu_gres \<notin> set (hm_keys (foldl add_generic m gs))" for m gs
  proof (induction gs arbitrary: m)
    case (Cons g gs)
    have "hm_wf (add_generic m g) \<and> gpu_gres \<notin> set (hm_keys (add_generic m g))"
      using Cons.prems by (auto simp: add_generic_def hm_entry_def dom_update gpu gpu [symmetric] split: option.split)
    then show ?case using Cons.IH by simp
  qed simp
  from this [of "[]"] show ?thesis by (simp add: request_wf_def base_node_request_def Let_def)
qed

lemma request_wf_job: "request_wf (job_resource_request job)"
  using request_wf_base by (simp add: job_resource_request_def Let_def request_wf_def)

section \<open>Nodes and their timelines\<close>

definition line_ok :: "node \<Rightarrow> node_timeline \<Rightarrow> bool" where
  "line_ok node line =
     (tl_node_name line = n_name node \<and> tl_total line = n_total_resources node \<and> timeline_wf (tl_intervals line)
      \<and> inventory_wf (n_total_resources node))"

abbreviation lines_ok :: "cluster_state \<Rightarrow> node_timeline list \<Rightarrow> bool" where
  "lines_ok cl lines \<equiv> list_all2 line_ok (cs_nodes cl) lines"

definition candidate :: "cluster_state \<Rightarrow> job \<Rightarrow> nat \<Rightarrow> bool" where
  "candidate cl job i =
     (i < length (cs_nodes cl) \<and> can_satisfy (n_total_resources (cs_nodes cl ! i)) (job_resource_request job))"

lemma suitable_candidates:
  "distinct (find_suitable_nodes job cl gate now) \<and> (\<forall>i \<in> set (find_suitable_nodes job cl gate now). candidate cl job i)"
  by (simp add: find_suitable_nodes_def Let_def candidate_def)

lemma timing_satisfiable:
  "lines_ok cl lines \<Longrightarrow> candidate cl job i \<Longrightarrow> can_satisfy (tl_total (lines ! i)) (timing_request job (cs_nodes cl) i)"
  by (auto simp: candidate_def timing_request_def line_ok_def inventory_satisfies_itself dest: list_all2_nthD)

text \<open>A start at which a node can begin the job.\<close>

definition can_begin :: "node_timeline list \<Rightarrow> cluster_state \<Rightarrow> job \<Rightarrow> instant \<Rightarrow> nat \<Rightarrow> bool" where
  "can_begin lines cl job start i =
     (can_satisfy_at (lines ! i) start (timing_request job (cs_nodes cl) i)
      \<and> unreserved job (n_name (cs_nodes cl ! i)) (cs_reservations cl) start (job_duration job))"

lemma node_start_room:
  assumes "lines_ok cl lines" "candidate cl job i" "0 < job_duration job"
  obtains r where "node_start lines cl job (job_duration job) f i = Some r" and "f \<le> r"
    and "r < f + duration_days 365 \<longrightarrow> can_begin lines cl job r i"
proof -
  have wf: "timeline_wf (tl_intervals (lines ! i))"
    using assms(1,2) by (auto simp: candidate_def line_ok_def dest: list_all2_nthD)
  show thesis
    by (rule earliest_valid_room [OF wf timing_satisfiable [OF assms(1,2)],
          where job = job and node = "n_name (cs_nodes cl ! i)" and rs = "cs_reservations cl" and d = "job_duration job" and f = f])
       (use assms(3) that in \<open>auto simp: node_start_def can_begin_def\<close>)
qed

section \<open>The common start\<close>

lemma those_Some_iff: "those xs = Some ys \<longleftrightarrow> xs = map Some ys"
  by (induction xs arbitrary: ys) (auto split: option.splits)

lemma those_total: "(\<And>x. x \<in> set xs \<Longrightarrow> \<exists>y. f x = Some y) \<Longrightarrow> those (map f xs) = Some (map (the \<circ> f) xs)"
  by (induction xs) force+

lemma common_start_room:
  assumes lines: "lines_ok cl lines" and d: "0 < job_duration job" and cand: "\<forall>(i, t) \<in> set assigned. candidate cl job i"
  obtains r where "common_start lines cl job (job_duration job) assigned e = Some r" and "e \<le> r"
    and "r = e \<longrightarrow> (\<forall>(i, t) \<in> set assigned. can_begin lines cl job e i)"
proof -
  let ?f = "\<lambda>(i, t). node_start lines cl job (job_duration job) e i"
  have start: "\<exists>r. ?f a = Some r \<and> e \<le> r \<and> (r = e \<longrightarrow> can_begin lines cl job e (fst a))" if "a \<in> set assigned" for a
  proof -
    have c: "candidate cl job (fst a)" using cand that by auto
    obtain r where "node_start lines cl job (job_duration job) e (fst a) = Some r" "e \<le> r"
      "r < e + duration_days 365 \<longrightarrow> can_begin lines cl job r (fst a)"
      by (rule node_start_room [OF lines c d, where f = e])
    then show ?thesis using year_positive by (auto simp: case_prod_beta)
  qed
  then have those: "those (map ?f assigned) = Some (map (the \<circ> ?f) assigned)" by (intro those_total) blast
  define r where "r = (if assigned = [] then e else Max (set (map (the \<circ> ?f) assigned)))"
  have cs: "common_start lines cl job (job_duration job) assigned e = Some r"
    by (simp add: common_start_def those r_def)
  have le: "the (?f a) \<le> r" if "a \<in> set assigned" for a
    using that unfolding r_def by (auto intro!: Max_ge)
  have "e \<le> r"
  proof (cases assigned)
    case (Cons a as)
    then show ?thesis using start [of a] le [of a] by force
  qed (simp add: r_def)
  moreover have "can_begin lines cl job e (fst a)" if "r = e" "a \<in> set assigned" for a
    using start [OF that(2)] le [OF that(2)] that(1) by force
  ultimately show thesis using that [OF cs] by (metis (no_types, lifting) case_prodI2 fst_conv)
qed

lemma next_release_later: "next_release lines assigned e h = Some r \<Longrightarrow> e < r \<and> r < h"
proof -
  assume rel: "next_release lines assigned e h = Some r"
  define es where "es = filter (\<lambda>x. e < x \<and> x < h) (concat (map (\<lambda>(i, _). map iv_end (tl_intervals (lines ! i))) assigned))"
  have "es \<noteq> [] \<and> r = Min (set es)"
    using rel unfolding next_release_def es_def [symmetric] by (cases es) simp_all
  then have "r \<in> set es" using Min_in [of "set es"] by simp
  then show ?thesis by (simp add: es_def)
qed

definition converged ::
  "node_timeline list \<Rightarrow> cluster_state \<Rightarrow> job \<Rightarrow> gpu_demand \<Rightarrow> bool \<Rightarrow> instant \<Rightarrow> (nat \<times> instant) list \<Rightarrow> instant
     \<Rightarrow> (instant \<times> (string, resource_allocations) hashmap) option \<Rightarrow> bool" where
  "converged lines cl job dem heterogeneous horizon assigned e0 x =
     (case x of
        None \<Rightarrow> True
      | Some (e, shares) \<Rightarrow> e0 \<le> e \<and> (e < horizon \<longrightarrow> (\<forall>(i, t) \<in> set assigned. can_begin lines cl job e i))
          \<and> (heterogeneous \<longrightarrow> plan_per_node_alloc lines job dem assigned (cs_nodes cl) e = Some shares))"

lemma converged_earlier: "e0 \<le> e1 \<Longrightarrow> converged lines cl job dem het h assigned e1 x \<Longrightarrow> converged lines cl job dem het h assigned e0 x"
  by (auto simp: converged_def split: option.splits)

lemma converge_returns:
  assumes lines: "lines_ok cl lines" and d: "0 < job_duration job" and cand: "\<forall>(i, t) \<in> set assigned. candidate cl job i"
  shows "\<exists>x. converge lines cl job dem (job_duration job) het h assigned e0 = Some x
    \<and> converged lines cl job dem het h assigned e0 x"
proof (induction "nat (h - e0)" arbitrary: e0 rule: less_induct)
  case less
  let ?c = "\<lambda>e. converge lines cl job dem (job_duration job) het h assigned e"
  obtain e where e: "common_start lines cl job (job_duration job) assigned e0 = Some e" "e0 \<le> e"
    "e = e0 \<longrightarrow> (\<forall>(i, t) \<in> set assigned. can_begin lines cl job e0 i)"
    by (rule common_start_room [OF assms, where e = e0])
  have again: ?case if "?c e0 = ?c e1" "e0 < e1" "e1 < h" for e1
    using less.hyps [of e1] that converged_earlier [of e0 e1] by fastforce
  show ?case
  proof (cases "e \<noteq> e0 \<and> e < h")
    case True
    then have "?c e0 = ?c e" using e(1) by (subst converge.simps) simp
    then show ?thesis using again True e(2) by force
  next
    case stop: False
    then have free: "e < h \<longrightarrow> (\<forall>(i, t) \<in> set assigned. can_begin lines cl job e i)" using e(3) by blast
    show ?thesis
    proof (cases "het \<and> plan_per_node_alloc lines job dem assigned (cs_nodes cl) e = None")
      case False
      then show ?thesis
        using stop e(1,2) free by (subst converge.simps) (auto simp: converged_def)
    next
      case unplanned: True
      show ?thesis
      proof (cases "next_release lines assigned e h")
        case None
        then show ?thesis using unplanned stop e(1) by (subst converge.simps) (auto simp: converged_def)
      next
        case (Some r)
        then have "?c e0 = ?c r" using unplanned stop e(1) by (subst converge.simps) auto
        then show ?thesis using again next_release_later [OF Some] e(2) by simp
      qed
    qed
  qed
qed

end
