(* ===== verification/Backfill_Pass.thy ===== *)
theory Backfill_Pass
  imports Backfill_Search
begin

text \<open>
  One job of a backfill pass: the nodes chosen, the shares they give and what the pass records. Every job leaves the
  pass as it was or adds one placement, whose shares fit their nodes and, within the horizon, find room beside
  everything reserved before and avoid the reservations. The planner of jobs with GPU property constraints is behind
  the locale \<open>gpu_planning\<close>, whose laws are the same promise.
\<close>

section \<open>The chosen nodes\<close>

definition topology_ok :: "cluster_state \<Rightarrow> bool" where
  "topology_ok cl = (case cs_topology cl of None \<Rightarrow> True | Some t \<Rightarrow> \<exists>rank. ranked rank (tt_switches t))"

lemma pull_named_mset: "mset (pull_named nodes names starts) = mset starts"
proof -
  define step where "step = (\<lambda>(reordered, rest) name. case find (\<lambda>(ni, _ :: instant). n_name (nodes ! ni) = name) rest of
      None \<Rightarrow> (reordered, rest) | Some e \<Rightarrow> (reordered @ [e], remove1 e rest))"
  have "mset (fst (foldl step acc names)) + mset (snd (foldl step acc names)) = mset (fst acc) + mset (snd acc)" for acc
  proof (induction names arbitrary: acc)
    case (Cons name names)
    have "mset (fst (step acc name)) + mset (snd (step acc name)) = mset (fst acc) + mset (snd acc)"
    proof (cases "find (\<lambda>(ni, _). n_name (nodes ! ni) = name) (snd acc)")
      case (Some e)
      then have "e \<in> set (snd acc)" by (metis find_Some_iff nth_mem)
      then show ?thesis by (cases acc) (use Some in \<open>simp add: step_def insert_DiffM\<close>)
    qed (simp add: step_def case_prod_beta)
    then show ?case using Cons.IH by simp
  qed simp
  from this [of "([], starts)"] show ?thesis
    unfolding pull_named_def step_def [symmetric] by (simp add: case_prod_beta)
qed

lemma choose_nodes_returns:
  assumes "topology_ok cl" "needed_nodes job \<le> length starts"
  obtains assigned rest where "choose_nodes cl job lines starts = Some assigned" and "length assigned = needed_nodes job"
    and "mset (assigned @ rest) = mset starts"
proof -
  define pref where "pref = by_preference lines cl job (demand_of job) starts"
  have pref: "mset pref = mset starts" by (simp add: pref_def by_preference_def Let_def)
  have "\<exists>near. by_locality cl job (needed_nodes job) pref = Some near \<and> mset near = mset starts"
  proof (cases "cs_topology cl")
    case (Some t)
    then obtain rank where "ranked rank (tt_switches t)" using assms(1) by (auto simp: topology_ok_def)
    then show ?thesis
      using select_local_nodes_returns [of rank t "map (\<lambda>(ni, _). n_name (cs_nodes cl ! ni)) pref" "needed_nodes job"] pref
      by (auto simp: by_locality_def Some pull_named_mset)
  qed (simp add: by_locality_def pref)
  then obtain near where near: "by_locality cl job (needed_nodes job) pref = Some near" "mset near = mset starts" by blast
  define ordered where "ordered = listed_first (placement_new job) cl near"
  have "mset ordered = mset starts" by (simp add: ordered_def listed_first_def near(2))
  then have "length ordered = length starts" "mset (take n ordered @ drop n ordered) = mset starts" for n
    using size_mset by (metis, simp)
  then show thesis
    using that [of "take (needed_nodes job) ordered" "drop (needed_nodes job) ordered"] assms(2) near(1)
    by (simp add: choose_nodes_def pref_def [symmetric] ordered_def [symmetric])
qed

section \<open>Their shares\<close>

abbreviation node_of :: "cluster_state \<Rightarrow> nat \<Rightarrow> node" where
  "node_of cl i \<equiv> cs_nodes cl ! i"

definition shares_for ::
  "cluster_state \<Rightarrow> (nat \<times> instant) list \<Rightarrow> (nat \<Rightarrow> resource_allocations \<Rightarrow> bool) \<Rightarrow> (string, resource_allocations) hashmap \<Rightarrow> bool" where
  "shares_for cl assigned P shares =
     (hm_wf shares \<and> (\<forall>k. hm_get shares k \<noteq> None \<longleftrightarrow> k \<in> (\<lambda>(i, t). n_name (node_of cl i)) ` set assigned)
      \<and> (\<forall>(i, t) \<in> set assigned. \<exists>s. hm_get shares (n_name (node_of cl i)) = Some s \<and> P i s))"

lemma inserts_get:
  "distinct (map fst ps) \<Longrightarrow> hm_get (foldl (\<lambda>m (k, v). hm_insert k v m) [] ps) = map_of ps
     \<and> hm_wf (foldl (\<lambda>m (k, v). hm_insert k v m) [] ps)"
proof (induction ps rule: rev_induct)
  case (snoc p ps)
  then show ?case by (cases p) (auto simp: hm_simps map_add_def fun_eq_iff map_of_eq_None_iff image_iff split: option.split)
qed simp

lemma name_inj:
  "distinct (map n_name ns) \<Longrightarrow> i < length ns \<Longrightarrow> j < length ns \<Longrightarrow> n_name (ns ! i) = n_name (ns ! j) \<longleftrightarrow> i = j"
  using nth_eq_iff_index_eq [of "map n_name ns" i j] by simp

lemma shares_forD:
  assumes names: "distinct (map n_name (cs_nodes cl))" and ix: "\<forall>(i, t) \<in> set assigned. i < length (cs_nodes cl)"
    and shares: "shares_for cl assigned P shares" and i: "i < length (cs_nodes cl)"
  shows "hm_get shares (n_name (node_of cl i)) \<noteq> None \<longleftrightarrow> i \<in> fst ` set assigned"
    and "hm_get shares (n_name (node_of cl i)) = Some s \<Longrightarrow> P i s"
proof -
  have "j = i" if "(j, t) \<in> set assigned" "n_name (node_of cl i) = n_name (node_of cl j)" for j t
    using that ix i name_inj [OF names, of i j] by auto
  then have "n_name (node_of cl i) \<in> (\<lambda>(i, t). n_name (node_of cl i)) ` set assigned \<longleftrightarrow> i \<in> fst ` set assigned"
    by (auto simp: image_iff case_prod_beta) (metis fst_conv prod.collapse)+
  then show get: "hm_get shares (n_name (node_of cl i)) \<noteq> None \<longleftrightarrow> i \<in> fst ` set assigned"
    using shares by (simp add: shares_for_def)
  assume "hm_get shares (n_name (node_of cl i)) = Some s"
  then obtain t where "(i, t) \<in> set assigned" using get by auto
  then show "P i s" using shares \<open>hm_get shares (n_name (node_of cl i)) = Some s\<close> by (auto simp: shares_for_def)
qed

lemma inserted_shares:
  assumes names: "distinct (map n_name (cs_nodes cl))" and ix: "distinct (map fst assigned)" "\<forall>(i, t) \<in> set assigned. i < length (cs_nodes cl)"
    and ps: "list_all2 (\<lambda>(i, t) (k, s). k = n_name (node_of cl i) \<and> P i s) assigned ps"
  shows "shares_for cl assigned P (foldl (\<lambda>m (k, v). hm_insert k v m) [] ps)"
proof -
  have keys: "map fst ps = map (\<lambda>(i, t). n_name (node_of cl i)) assigned"
    using ps by (induction rule: list_all2_induct) auto
  have "inj_on (\<lambda>i. n_name (node_of cl i)) (fst ` set assigned)"
    using name_inj [OF names] ix(2) by (fastforce simp: inj_on_def)
  then have "distinct (map (\<lambda>i. n_name (node_of cl i)) (map fst assigned))"
    using ix(1) by (subst distinct_map) simp
  then have d: "distinct (map fst ps)" unfolding keys by (simp add: comp_def case_prod_beta')
  have "\<exists>s. map_of ps (n_name (node_of cl i)) = Some s \<and> P i s" if a: "(i, t) \<in> set assigned" for i t
  proof -
    obtain k where "k < length assigned" "assigned ! k = (i, t)" using a by (auto simp: in_set_conv_nth)
    then have "k < length ps" "ps ! k = (n_name (node_of cl i), snd (ps ! k))" "P i (snd (ps ! k))"
      using list_all2_nthD [OF ps, of k] list_all2_lengthD [OF ps] by (auto simp: case_prod_beta prod_eq_iff)
    then have "(n_name (node_of cl i), snd (ps ! k)) \<in> set ps" by (metis nth_mem)
    then show ?thesis using d \<open>P i (snd (ps ! k))\<close> by auto
  qed
  moreover have "map_of ps k \<noteq> None \<longleftrightarrow> k \<in> (\<lambda>(i, t). n_name (node_of cl i)) ` set assigned" for k
    using arg_cong [OF keys, of set] by (simp add: map_of_eq_None_iff)
  ultimately show ?thesis unfolding shares_for_def using inserts_get [OF d] by auto
qed

text \<open>A share a node can give from the given start: it fits, and within the horizon it finds room.\<close>

definition good_share :: "cluster_state \<Rightarrow> node_timeline list \<Rightarrow> instant \<Rightarrow> instant \<Rightarrow> nat \<Rightarrow> resource_allocations \<Rightarrow> bool" where
  "good_share cl lines now start i s =
     (fits_node (n_total_resources (node_of cl i)) s
      \<and> (start < now + duration_days 365 \<longrightarrow>
           has_room (n_total_resources (node_of cl i)) (load (tl_intervals (lines ! i)) start) s))"

lemma line_okD:
  assumes "lines_ok cl lines" "i < length (cs_nodes cl)"
  shows "tl_node_name (lines ! i) = n_name (node_of cl i)" and "tl_total (lines ! i) = n_total_resources (node_of cl i)"
    and "timeline_wf (tl_intervals (lines ! i))" and "inventory_wf (n_total_resources (node_of cl i))"
  using list_all2_nthD [OF assms] by (simp_all add: line_ok_def)

lemma admitted_share_good:
  assumes lines: "lines_ok cl lines" and i: "i < length (cs_nodes cl)" and req: "request_wf req"
    and adm: "can_satisfy_with_allocated (n_total_resources (node_of cl i)) (accumulated_at (lines ! i) start) req"
  shows "good_share cl lines now start i (build_node_allocation order (n_total_resources (node_of cl i))
      (accumulated_at (lines ! i) start) req)"
  using share_fits_node [OF can_satisfy_alone [OF adm accumulated_load(2) [OF line_okD(3) [OF lines i]]] line_okD(4) [OF lines i] req]
    share_has_room [OF adm accumulated_load(2) [OF line_okD(3) [OF lines i]] line_okD(4) [OF lines i] req]
  unfolding good_share_def ext [OF accumulated_load(1) [OF line_okD(3) [OF lines i]]] by blast

lemma node_share_admitted:
  assumes "node_share lines nodes job gpu_type targets start idx ni = Some (k, s)"
  obtains req where "request_wf req" and "k = n_name (nodes ! ni)"
    and "can_satisfy_with_allocated (n_total_resources (nodes ! ni)) (accumulated_at (lines ! ni) start) req"
    and "s = build_node_allocation (gpu_counts req) (n_total_resources (nodes ! ni)) (accumulated_at (lines ! ni) start) req"
proof -
  have some: "(if \<not> c then None else Some x) = Some y \<longleftrightarrow> c \<and> x = y" for c and x y :: "string \<times> resource_allocations" by simp
  have wf: "request_wf ((base_node_request job)\<lparr>rs_cpus := c, rs_memory_mb := m, rs_gpus := gs\<rparr>)" for c m gs
    using request_wf_base by (simp add: request_wf_def)
  show thesis
    using assms that [OF wf] unfolding node_share_def Let_def some prod.inject by blast
qed

lemma planned_shares:
  assumes lines: "lines_ok cl lines" and names: "distinct (map n_name (cs_nodes cl))"
    and ix: "distinct (map fst assigned)" "\<forall>(i, t) \<in> set assigned. i < length (cs_nodes cl)"
    and plan: "plan_per_node_alloc lines job dem assigned (cs_nodes cl) start = Some shares"
  shows "shares_for cl assigned (good_share cl lines now start) shares"
proof -
  obtain targets where "gpu_targets lines (cs_nodes cl) dem assigned start = Some targets"
    using plan by (auto simp: plan_per_node_alloc_def split: option.splits)
  then obtain ps where ps: "map (\<lambda>(idx, ni, _). node_share lines (cs_nodes cl) job (demand_gpu_type dem) targets start idx ni)
      (zip [0..<length assigned] assigned) = map Some ps" (is "?l = _")
    and sh: "shares = foldl (\<lambda>m (k, v). hm_insert k v m) [] ps"
    using plan by (auto simp: plan_per_node_alloc_def those_Some_iff)
  have len: "length ps = length assigned" using arg_cong [OF ps, of length] by simp
  have "fst (ps ! k) = n_name (node_of cl (fst (assigned ! k))) \<and> good_share cl lines now start (fst (assigned ! k)) (snd (ps ! k))"
    if k: "k < length assigned" for k
  proof -
    have i: "fst (assigned ! k) < length (cs_nodes cl)" using ix(2) k nth_mem [OF k] by (auto simp: case_prod_beta)
    have "?l ! k = Some (ps ! k)" using k len by (subst ps) simp
    then have "node_share lines (cs_nodes cl) job (demand_gpu_type dem) targets start k (fst (assigned ! k))
        = Some (fst (ps ! k), snd (ps ! k))"
      using k by (simp add: case_prod_beta)
    then show ?thesis by (rule node_share_admitted) (use admitted_share_good [OF lines i] in metis)
  qed
  then have "list_all2 (\<lambda>(i, t) (k, s). k = n_name (node_of cl i) \<and> good_share cl lines now start i s) assigned ps"
    using len by (auto simp: list_all2_conv_all_nth case_prod_beta)
  then show ?thesis unfolding sh by (rule inserted_shares [OF names ix])
qed

lemma uniform_shares_good:
  assumes lines: "lines_ok cl lines" and names: "distinct (map n_name (cs_nodes cl))"
    and ix: "distinct (map fst assigned)" and cand: "\<forall>(i, t) \<in> set assigned. candidate cl job i"
    and free: "start < now + duration_days 365 \<longrightarrow> (\<forall>(i, t) \<in> set assigned. can_begin lines cl job start i)"
  shows "shares_for cl assigned (good_share cl lines now start) (uniform_shares lines cl job assigned start)"
proof -
  let ?req = "job_resource_request job"
  define share where "share = (\<lambda>i. if js_exclusive (j_spec job)
      then build_exclusive_allocation (n_total_resources (node_of cl i)) (rs_memory_mb ?req)
      else build_node_allocation (gpu_counts ?req) (n_total_resources (node_of cl i)) (accumulated_at (lines ! i) start) ?req)"
  have good: "good_share cl lines now start i (share i)" if a: "(i, t) \<in> set assigned" for i t
  proof -
    have c: "candidate cl job i" using cand a by auto
    then have i: "i < length (cs_nodes cl)" and sat: "can_satisfy (n_total_resources (node_of cl i)) ?req" by (simp_all add: candidate_def)
    have mem: "rs_memory_mb ?req \<le> rs_memory_mb (n_total_resources (node_of cl i))"
      using sat by (simp add: can_satisfy_def can_satisfy_iff sat_sub_def ra_default_def)
    note tame = accumulated_load(2) [OF line_okD(3) [OF lines i], of start]
    have view: "ra_view (accumulated_at (lines ! i) start) = load (tl_intervals (lines ! i)) start"
      using accumulated_load(1) [OF line_okD(3) [OF lines i]] by blast
    have adm: "start < now + duration_days 365 \<longrightarrow> can_satisfy_with_allocated (n_total_resources (node_of cl i))
        (accumulated_at (lines ! i) start) (timing_request job (cs_nodes cl) i)"
      using free a line_okD(2) [OF lines i] by (auto simp: can_begin_def can_satisfy_at_def)
    show ?thesis
    proof (cases "js_exclusive (j_spec job)")
      case True
      then show ?thesis
        using adm exclusive_fits_node [OF line_okD(4) [OF lines i] mem] exclusive_has_room [OF _ tame line_okD(4) [OF lines i] mem]
        by (simp add: good_share_def share_def timing_request_def view)
    next
      case False
      then show ?thesis
        using adm share_fits_node [OF sat line_okD(4) [OF lines i] request_wf_job]
          share_has_room [OF _ tame line_okD(4) [OF lines i] request_wf_job]
        by (simp add: good_share_def share_def timing_request_def view)
    qed
  qed
  have form: "uniform_shares lines cl job assigned start
      = foldl (\<lambda>m (k, v). hm_insert k v m) [] (map (\<lambda>(i, t). (n_name (node_of cl i), share i)) assigned)"
    by (simp add: uniform_shares_def share_def Let_def foldl_map case_prod_beta')
  have "list_all2 (\<lambda>(i, t) (k, s). k = n_name (node_of cl i) \<and> good_share cl lines now start i s)
      assigned (map (\<lambda>(i, t). (n_name (node_of cl i), share i)) assigned)"
    using good by (auto simp: list_all2_map2 case_prod_beta intro!: list_all2_refl list.rel_refl_strong)
  then show ?thesis
    unfolding form using cand by (intro inserted_shares [OF names ix]) (auto simp: candidate_def)
qed

section \<open>Placements\<close>

definition placement_ok ::
  "cluster_state \<Rightarrow> instant \<Rightarrow> job \<Rightarrow> node_timeline list \<Rightarrow> instant \<Rightarrow> string list \<Rightarrow> (string, resource_allocations) hashmap \<Rightarrow> bool" where
  "placement_ok cl now job lines start names shares =
     (now \<le> start \<and> distinct names \<and> length names = needed_nodes job \<and> set names \<subseteq> n_name ` set (cs_nodes cl)
      \<and> hm_wf shares \<and> (\<forall>k. hm_get shares k \<noteq> None \<longleftrightarrow> k \<in> set names)
      \<and> (start < now + duration_days 365 \<longrightarrow>
           (\<forall>name \<in> set names. unreserved job name (cs_reservations cl) start (job_duration job)))
      \<and> (\<forall>i < length (cs_nodes cl). \<forall>s. hm_get shares (n_name (node_of cl i)) = Some s \<longrightarrow> good_share cl lines now start i s))"

definition reserve_all ::
  "cluster_state \<Rightarrow> job \<Rightarrow> instant \<Rightarrow> (string, resource_allocations) hashmap \<Rightarrow> node_timeline list \<Rightarrow> node_timeline list" where
  "reserve_all cl job start shares lines =
     map2 (\<lambda>node line. case hm_get shares (n_name node) of
         None \<Rightarrow> line
       | Some s \<Rightarrow> reserve_for_job start (start + job_duration job) s (Some (j_job_id job)) line) (cs_nodes cl) lines"

text \<open>What one job adds to a pass: nothing, or one placement, which is an assignment if it starts now.\<close>

definition placed :: "cluster_state \<Rightarrow> instant \<Rightarrow> job \<Rightarrow> pass \<Rightarrow> pass \<Rightarrow> bool" where
  "placed cl now job p p' =
     (ps_timelines p' = ps_timelines p \<and> ps_assignments p' = ps_assignments p
      \<or> (\<exists>start names shares. placement_ok cl now job (ps_timelines p) start names shares
           \<and> ps_timelines p' = reserve_all cl job start shares (ps_timelines p)
           \<and> ps_assignments p' = ps_assignments p
               @ (if start = now then [\<lparr>as_job_id = j_job_id job, as_nodes = names, as_per_node_alloc = shares\<rparr>] else [])))"

lemma foldl_update:
  assumes "distinct ks"
  shows "length (foldl (\<lambda>ls k. ls[k := f k (ls ! k)]) ls ks) = length ls"
    and "j < length ls \<Longrightarrow> foldl (\<lambda>ls k. ls[k := f k (ls ! k)]) ls ks ! j = (if j \<in> set ks then f j (ls ! j) else ls ! j)"
proof -
  show "length (foldl (\<lambda>ls k. ls[k := f k (ls ! k)]) ls ks) = length ls" for ls by (induction ks arbitrary: ls) simp_all
  show "j < length ls \<Longrightarrow> foldl (\<lambda>ls k. ls[k := f k (ls ! k)]) ls ks ! j = (if j \<in> set ks then f j (ls ! j) else ls ! j)"
    using assms
  proof (induction ks arbitrary: ls)
    case (Cons a ks)
    then show ?case by (cases "a = j") auto
  qed simp
qed

lemma reserve_shares_all:
  assumes names: "distinct (map n_name (cs_nodes cl))" and ix: "distinct (map fst assigned)" "\<forall>(i, t) \<in> set assigned. i < length (cs_nodes cl)"
    and len: "length lines = length (cs_nodes cl)" and shares: "shares_for cl assigned P shares"
  shows "reserve_shares cl assigned shares start (start + job_duration job) (j_job_id job) lines = reserve_all cl job start shares lines"
proof -
  define f where "f = (\<lambda>i. reserve_for_job start (start + job_duration job)
      (case hm_get shares (n_name (node_of cl i)) of None \<Rightarrow> ra_default | Some a \<Rightarrow> a) (Some (j_job_id job)))"
  have form: "reserve_shares cl assigned shares start (start + job_duration job) (j_job_id job) lines
      = foldl (\<lambda>ls k. ls[k := f k (ls ! k)]) lines (map fst assigned)"
    by (simp add: reserve_shares_def f_def foldl_map case_prod_beta')
  have "foldl (\<lambda>ls k. ls[k := f k (ls ! k)]) lines (map fst assigned) ! j = reserve_all cl job start shares lines ! j"
    if j: "j < length (cs_nodes cl)" for j
    using foldl_update(2) [OF ix(1), of j lines f] shares_forD(1) [OF names ix(2) shares j] j len
    by (cases "hm_get shares (n_name (node_of cl j))") (simp_all add: reserve_all_def f_def)
  then show ?thesis
    unfolding form using foldl_update(1) [OF ix(1), of f lines] len by (intro nth_equalityI) (auto simp: reserve_all_def)
qed

lemma note_unplaced_same [simp]:
  "ps_timelines (note_unplaced job kind c s p) = ps_timelines p" "ps_assignments (note_unplaced job kind c s p) = ps_assignments p"
  "ps_gate (note_unplaced job kind c s p) = ps_gate p"
  by (simp_all add: note_unplaced_def)

lemma commit_placed:
  assumes names: "distinct (map n_name (cs_nodes cl))" and ix: "distinct (map fst assigned)" "\<forall>(i, t) \<in> set assigned. i < length (cs_nodes cl)"
    and len: "length (ps_timelines p) = length (cs_nodes cl)" "length assigned = needed_nodes job" and start: "now \<le> start"
    and shares: "shares_for cl assigned (good_share cl (ps_timelines p) now start) shares"
    and free: "start < now + duration_days 365 \<longrightarrow> (\<forall>(i, t) \<in> set assigned. can_begin (ps_timelines p) cl job start i)"
  shows "placed cl now job p (commit_placement cl now job assigned start shares p)"
proof -
  let ?names = "map (\<lambda>(i, t). n_name (node_of cl i)) assigned"
  have "distinct (map (\<lambda>i. n_name (node_of cl i)) (map fst assigned))"
    unfolding distinct_map [of "\<lambda>i. n_name (node_of cl i)"] using ix name_inj [OF names] by (fastforce simp: inj_on_def)
  then have "distinct ?names" by (simp add: comp_def case_prod_beta')
  moreover have "set ?names \<subseteq> n_name ` set (cs_nodes cl)" using ix(2) by fastforce
  ultimately have ok: "placement_ok cl now job (ps_timelines p) start ?names shares"
    using shares start free len(2) shares_forD(2) [OF names ix(2) shares]
    unfolding placement_ok_def shares_for_def can_begin_def by auto
  note reserve = reserve_shares_all [OF names ix len(1) shares]
  show ?thesis
  proof (cases "start = now \<or> \<not> j_idle_fill job")
    case True
    then show ?thesis
      using ok start reserve unfolding placed_def
      by (intro disjI2 exI [of _ start] exI [of _ ?names] exI [of _ shares]) (auto simp: commit_placement_def Let_def)
  qed (use start in \<open>auto simp: placed_def commit_placement_def Let_def\<close>)
qed

section \<open>One job\<close>

text \<open>What a pass needs of the cluster: distinct names, a topology without cycles, sound lines.\<close>

definition cluster_ok :: "cluster_state \<Rightarrow> bool" where
  "cluster_ok cl = (distinct (map n_name (cs_nodes cl)) \<and> topology_ok cl)"

lemma place_on_returns:
  assumes cl: "cluster_ok cl" and lines: "lines_ok cl (ps_timelines p)" and d: "0 < job_duration job"
    and ix: "distinct (map fst assigned)" and cand: "\<forall>(i, t) \<in> set assigned. candidate cl job i \<and> now \<le> t"
    and len: "length assigned = needed_nodes job"
  shows "\<exists>p'. place_on cl now job assigned p = Some p' \<and> placed cl now job p p'"
proof -
  let ?lines = "ps_timelines p" and ?h = "now + duration_days 365"
  define e0 where "e0 = (if assigned = [] then now else Max (snd ` set assigned))"
  have e0: "now \<le> e0" using cand by (cases assigned) (auto simp: e0_def Max_ge_iff)
  have cand': "\<forall>(i, t) \<in> set assigned. candidate cl job i" and ix': "\<forall>(i, t) \<in> set assigned. i < length (cs_nodes cl)"
    using cand by (auto simp: candidate_def)
  have names: "distinct (map n_name (cs_nodes cl))" using cl by (simp add: cluster_ok_def)
  obtain x where x: "converge ?lines cl job (demand_of job) (job_duration job) (is_heterogeneous job) ?h assigned e0 = Some x"
    "converged ?lines cl job (demand_of job) (is_heterogeneous job) ?h assigned e0 x"
    using converge_returns [OF lines d cand'] by blast
  show ?thesis
  proof (cases x)
    case None
    then show ?thesis using x(1) by (simp add: place_on_def e0_def [symmetric] placed_def)
  next
    case (Some y)
    obtain e al where y: "y = (e, al)" by (cases y)
    have e: "e0 \<le> e" "e < ?h \<longrightarrow> (\<forall>(i, t) \<in> set assigned. can_begin ?lines cl job e i)"
      "is_heterogeneous job \<longrightarrow> plan_per_node_alloc ?lines job (demand_of job) assigned (cs_nodes cl) e = Some al"
      using x(2) by (simp_all add: Some y converged_def)
    define shares where "shares = (if is_heterogeneous job then al else uniform_shares ?lines cl job assigned e)"
    have "shares_for cl assigned (good_share cl ?lines now e) shares"
      using planned_shares [OF lines names ix ix' e(3) [rule_format]] uniform_shares_good [OF lines names ix cand' e(2)]
      by (simp add: shares_def)
    then have "placed cl now job p (commit_placement cl now job assigned e shares p)"
      using e(1) e0 list_all2_lengthD [OF lines] by (intro commit_placed [OF names ix ix' _ len _ _ e(2)]) simp_all
    then show ?thesis using x(1) by (simp add: place_on_def e0_def [symmetric] Some y shares_def)
  qed
qed

lemma gate_floor_now: "now \<le> gate_floor gate job node now"
proof -
  have "m \<le> foldl max m xs" for m :: instant and xs
  proof (induction xs arbitrary: m)
    case (Cons x xs)
    then show ?case by (metis foldl_Cons max.bounded_iff)
  qed simp
  then show ?thesis by (simp add: gate_floor_def)
qed

lemma place_suitable_returns:
  assumes cl: "cluster_ok cl" and lines: "lines_ok cl (ps_timelines p)" and d: "0 < job_duration job"
    and suitable: "distinct suitable" "\<forall>i \<in> set suitable. candidate cl job i"
  shows "\<exists>p'. place_suitable cl now job suitable p = Some p' \<and> placed cl now job p p'"
proof -
  have top: "topology_ok cl" using cl by (simp add: cluster_ok_def)
  define f where "f = (\<lambda>i. map_option (Pair i) (node_start (ps_timelines p) cl job (job_duration job)
      (gate_floor (ps_gate p) job (n_name (node_of cl i)) now) i))"
  define starts where "starts = map (the \<circ> f) suitable"
  have start: "\<exists>t. f i = Some (i, t) \<and> now \<le> t" if "i \<in> set suitable" for i
  proof -
    have c: "candidate cl job i" using suitable(2) that by blast
    obtain r where "node_start (ps_timelines p) cl job (job_duration job)
        (gate_floor (ps_gate p) job (n_name (node_of cl i)) now) i = Some r"
      "gate_floor (ps_gate p) job (n_name (node_of cl i)) now \<le> r"
      by (rule node_start_room [OF lines c d])
    then show ?thesis
      using gate_floor_now [of now "ps_gate p" job "n_name (node_of cl i)"] by (simp add: f_def)
  qed
  then have those: "those (map f suitable) = Some starts" unfolding starts_def by (intro those_total) blast
  have eq: "the (f i) = (i, snd (the (f i)))" and later: "now \<le> snd (the (f i))" if "i \<in> set suitable" for i
    using start [OF that] by auto
  have starts: "starts = map (\<lambda>i. (i, snd (the (f i)))) suitable"
    unfolding starts_def using eq by (intro map_cong) simp_all
  then have fst: "map fst starts = suitable" by (simp add: comp_def)
  have now: "\<forall>(i, t) \<in> set starts. candidate cl job i \<and> now \<le> t" using suitable(2) later by (auto simp: starts)
  show ?thesis
  proof (cases "needed_nodes job \<le> length starts")
    case True
    obtain assigned rest where a: "choose_nodes cl job (ps_timelines p) starts = Some assigned"
      "length assigned = needed_nodes job" "mset (assigned @ rest) = mset starts"
      by (rule choose_nodes_returns [OF top True])
    have "mset (map fst (assigned @ rest)) = mset suitable" using a(3) fst by (metis mset_map)
    then have "distinct (map fst assigned)" using suitable(1) mset_eq_imp_distinct_iff by (metis distinct_append map_append)
    moreover have "set assigned \<subseteq> set starts" using arg_cong [OF a(3), of set_mset] by auto
    then have "\<forall>(i, t) \<in> set assigned. candidate cl job i \<and> now \<le> t" using now by blast
    ultimately obtain p' where "place_on cl now job assigned p = Some p'" "placed cl now job p p'"
      using place_on_returns [OF cl lines d _ _ a(2)] by blast
    then show ?thesis
      using True a(1) those by (simp add: place_suitable_def Let_def f_def [symmetric] placed_def)
  qed (use those in \<open>simp add: place_suitable_def Let_def f_def [symmetric] placed_def\<close>)
qed

section \<open>The planner\<close>

text \<open>Amounts the counters can hold, and counters wide enough for another \<open>n\<close> shares on every node.\<close>

definition fits_counters :: "(quantity \<Rightarrow> nat) \<Rightarrow> bool" where
  "fits_counters v = ((\<forall>q. v q \<le> ra_cap q) \<and> (\<forall>g. gres_total v g < 2 ^ 32))"

lemma fits_counters_mono: "fits_counters w \<Longrightarrow> (\<And>q. v q \<le> w q) \<Longrightarrow> fits_counters v"
  unfolding fits_counters_def by (meson gres_total_mono le_less_trans le_trans)

definition counters_ok :: "nat \<Rightarrow> cluster_state \<Rightarrow> node_timeline list \<Rightarrow> bool" where
  "counters_ok n cl lines = (\<forall>i < length (cs_nodes cl).
     fits_counters (\<lambda>q. demand (tl_intervals (lines ! i)) q + n * node_cap (n_total_resources (node_of cl i)) q))"

definition reserved_ids :: "node_timeline list \<Rightarrow> job_id set" where
  "reserved_ids lines = {i. \<exists>line \<in> set lines. \<exists>iv \<in> set (tl_intervals line). iv_job_id iv = Some i}"

definition plannable :: "cluster_state \<Rightarrow> job \<Rightarrow> node_timeline list \<Rightarrow> bool" where
  "plannable cl job lines =
     (cluster_ok cl \<and> lines_ok cl lines \<and> 0 < job_duration job \<and> counters_ok 1 cl lines \<and> j_job_id job \<notin> reserved_ids lines)"

locale gpu_planning =
  fixes plan_gpu :: "gpu_planner option"
  assumes plan_returns: "plan_gpu = Some plan \<Longrightarrow> plannable cl job lines \<Longrightarrow> \<exists>best. plan job cl lines gate now = Some best"
    and plan_placement: "plan_gpu = Some plan \<Longrightarrow> plannable cl job lines \<Longrightarrow> plan job cl lines gate now = Some (Some (a, start)) \<Longrightarrow>
      as_job_id a = j_job_id job \<and> placement_ok cl now job lines start (as_nodes a) (as_per_node_alloc a)"

lemma check_group_same [simp]:
  "ps_timelines (check_group cl now pending idx p) = ps_timelines p"
  "ps_assignments (check_group cl now pending idx p) = ps_assignments p"
  "ps_gate (check_group cl now pending idx p) = ps_gate p"
  by (simp_all add: check_group_def Let_def split: option.split)

lemma placed_cong:
  "ps_timelines q = ps_timelines p \<Longrightarrow> ps_assignments q = ps_assignments p \<Longrightarrow> placed cl now job q p' \<longleftrightarrow> placed cl now job p p'"
  by (simp add: placed_def)

lemma named_update:
  assumes names: "distinct (map n_name (cs_nodes cl))" and m: "hm_wf m" and len: "length lines = length (cs_nodes cl)"
  shows "foldl (\<lambda>lines (name, s). case find (\<lambda>i. n_name (node_of cl i) = name) [0..<length (cs_nodes cl)] of
        None \<Rightarrow> lines | Some i \<Rightarrow> lines[i := f s (lines ! i)]) lines m
     = map2 (\<lambda>node line. case hm_get m (n_name node) of None \<Rightarrow> line | Some s \<Rightarrow> f s line) (cs_nodes cl) lines"
  using m len
proof (induction m arbitrary: lines)
  case Nil
  then show ?case by (auto intro: nth_equalityI)
next
  case (Cons e m)
  obtain k s where e: "e = (k, s)" by (cases e)
  have k: "hm_get m k = None" "hm_wf m" using Cons.prems(1) by (auto simp: e hm_wf_def map_of_eq_None_iff)
  define lines1 where "lines1 = (case find (\<lambda>i. n_name (node_of cl i) = k) [0..<length (cs_nodes cl)] of
      None \<Rightarrow> lines | Some i \<Rightarrow> lines[i := f s (lines ! i)])"
  have one: "lines1 ! j = (if n_name (node_of cl j) = k then f s (lines ! j) else lines ! j)" if j: "j < length (cs_nodes cl)" for j
  proof (cases "find (\<lambda>i. n_name (node_of cl i) = k) [0..<length (cs_nodes cl)]")
    case None
    then have "n_name (node_of cl j) \<noteq> k" using j by (auto simp: find_None_iff)
    then show ?thesis by (simp add: lines1_def None)
  next
    case (Some i)
    then have "i < length (cs_nodes cl)" "n_name (node_of cl i) = k" by (auto simp: find_Some_iff)
    then show ?thesis using Some j name_inj [OF names] Cons.prems(2) by (auto simp: lines1_def nth_list_update)
  qed
  have len1: "length lines1 = length (cs_nodes cl)" using Cons.prems(2) by (simp add: lines1_def split: option.split)
  show ?case
    using Cons.IH [OF k(2) len1] one k(1) len1 Cons.prems(2)
    by (auto simp: e lines1_def [symmetric] intro!: nth_equalityI split: option.split)
qed

lemma place_planned_placed:
  assumes cl: "cluster_ok cl" and len: "length (ps_timelines p) = length (cs_nodes cl)"
    and plan: "\<And>a start. plan = Some (a, start) \<Longrightarrow>
      as_job_id a = j_job_id job \<and> placement_ok cl now job (ps_timelines p) start (as_nodes a) (as_per_node_alloc a)"
  shows "placed cl now job p (place_planned cl now job plan p)"
proof (cases plan)
  case None
  then show ?thesis by (simp add: place_planned_def placed_def)
next
  case (Some y)
  obtain a start where y: "y = (a, start)" by (cases y)
  have ok: "as_job_id a = j_job_id job" "placement_ok cl now job (ps_timelines p) start (as_nodes a) (as_per_node_alloc a)"
    using plan Some y by auto
  then have wf: "hm_wf (as_per_node_alloc a)" "now \<le> start" by (simp_all add: placement_ok_def)
  have names: "distinct (map n_name (cs_nodes cl))" using cl by (simp add: cluster_ok_def)
  have "ps_timelines (place_planned cl now job plan p) = reserve_all cl job start (as_per_node_alloc a) (ps_timelines p)"
    using named_update [OF names wf(1) len, of "\<lambda>s. reserve_for_job start (start + job_duration job) s (Some (j_job_id job))"]
    by (simp add: place_planned_def Some y Let_def reserve_all_def)
  moreover have "ps_assignments (place_planned cl now job plan p) = ps_assignments p @ (if start = now then [a] else [])"
    using wf(2) by (auto simp: place_planned_def Some y Let_def)
  ultimately show ?thesis
    using ok unfolding placed_def
    by (intro disjI2 exI [of _ start] exI [of _ "as_nodes a"] exI [of _ "as_per_node_alloc a"]) auto
qed

context gpu_planning
begin

lemma schedule_job_placed:
  assumes "plannable cl (pending ! idx) (ps_timelines p)"
  shows "\<exists>p'. schedule_job plan_gpu cl now pending idx p = Some p' \<and> placed cl now (pending ! idx) p p'"
proof -
  let ?job = "pending ! idx" and ?p = "check_group cl now pending idx p"
  have pl: "cluster_ok cl" "lines_ok cl (ps_timelines ?p)" "0 < job_duration ?job" using assms by (simp_all add: plannable_def)
  have same: "placed cl now ?job ?p p' \<longleftrightarrow> placed cl now ?job p p'" for p' by (rule placed_cong) simp_all
  have noted: "placed cl now ?job p (note_unplaced ?job kind c s ?p)" for kind c s by (simp add: placed_def)
  consider "idx \<in> set (ps_skip ?p) \<or> constraints_validate (j_spec ?job) \<noteq> Inr () \<or> requires_gpu_properties (j_spec ?job) \<and> plan_gpu = None"
    | plan where "plan_gpu = Some plan" "idx \<notin> set (ps_skip ?p)" "constraints_validate (j_spec ?job) = Inr ()"
        "requires_gpu_properties (j_spec ?job)"
    | "idx \<notin> set (ps_skip ?p)" "constraints_validate (j_spec ?job) = Inr ()" "\<not> requires_gpu_properties (j_spec ?job)"
    by (cases plan_gpu) auto
  then show ?thesis
  proof cases
    case 1
    then show ?thesis using noted by (auto simp: schedule_job_def Let_def)
  next
    case (2 plan)
    obtain best where best: "plan ?job cl (ps_timelines ?p) (ps_gate ?p) now = Some best"
      using plan_returns [OF 2(1) assms] by auto
    have "placed cl now ?job ?p (place_planned cl now ?job best ?p)"
      using plan_placement [OF 2(1) assms] best list_all2_lengthD [OF pl(2)] by (intro place_planned_placed [OF pl(1)]) auto
    then show ?thesis using 2 best same by (simp add: schedule_job_def Let_def)
  next
    case 3
    let ?suitable = "find_suitable_nodes ?job cl (ps_gate ?p) now"
    have "\<exists>p'. place_suitable cl now ?job ?suitable ?p = Some p' \<and> placed cl now ?job ?p p'"
      using suitable_candidates by (intro place_suitable_returns [OF pl]) blast+
    then show ?thesis using 3 noted by (auto simp: schedule_job_def Let_def same)
  qed
qed

end

end
