(* ===== verification/Backfill_Queue.thy ===== *)
theory Backfill_Queue
  imports Backfill_Pass
begin

text \<open>
  The pass over the queue: it returns, and what it gives out now stays within what the nodes have beside what is
  already in use. The lemmas are proved once for every planner that keeps the laws of \<open>gpu_planning\<close>.
\<close>

section \<open>What has been given out\<close>

definition given :: "assignment list \<Rightarrow> string \<Rightarrow> quantity \<Rightarrow> nat" where
  "given as name q = (\<Sum>a\<leftarrow>as. case hm_get (as_per_node_alloc a) name of None \<Rightarrow> 0 | Some s \<Rightarrow> ra_view s q)"

definition assignment_ok :: "cluster_state \<Rightarrow> instant \<Rightarrow> job \<Rightarrow> assignment \<Rightarrow> bool" where
  "assignment_ok cl now job a =
     (as_job_id a = j_job_id job \<and> distinct (as_nodes a) \<and> length (as_nodes a) = needed_nodes job
      \<and> set (as_nodes a) \<subseteq> n_name ` set (cs_nodes cl) \<and> hm_wf (as_per_node_alloc a)
      \<and> (\<forall>k. hm_get (as_per_node_alloc a) k \<noteq> None \<longleftrightarrow> k \<in> set (as_nodes a))
      \<and> (\<forall>name \<in> set (as_nodes a). unreserved job name (cs_reservations cl) now (job_duration job))
      \<and> (\<forall>node \<in> set (cs_nodes cl). \<forall>s. hm_get (as_per_node_alloc a) (n_name node) = Some s \<longrightarrow>
           fits_node (n_total_resources node) s))"

text \<open>What is in use now: what was at the start and what has been given out, within the node where anything was given.\<close>

definition given_within :: "cluster_state \<Rightarrow> instant \<Rightarrow> node_timeline list \<Rightarrow> pass \<Rightarrow> bool" where
  "given_within cl now lines0 p = (\<forall>i < length (cs_nodes cl). \<forall>q.
     load (tl_intervals (ps_timelines p ! i)) now q
       = load (tl_intervals (lines0 ! i)) now q + given (ps_assignments p) (n_name (node_of cl i)) q
     \<and> load (tl_intervals (ps_timelines p ! i)) now q
       \<le> max (load (tl_intervals (lines0 ! i)) now q) (node_cap (n_total_resources (node_of cl i)) q))"

definition pass_ok :: "job set \<Rightarrow> cluster_state \<Rightarrow> instant \<Rightarrow> node_timeline list \<Rightarrow> nat \<Rightarrow> job_id set \<Rightarrow> pass \<Rightarrow> bool" where
  "pass_ok jobs cl now lines0 n ids p =
     (lines_ok cl (ps_timelines p) \<and> counters_ok n cl (ps_timelines p) \<and> reserved_ids (ps_timelines p) \<subseteq> ids
      \<and> distinct (map as_job_id (ps_assignments p)) \<and> as_job_id ` set (ps_assignments p) \<subseteq> ids
      \<and> (\<forall>a \<in> set (ps_assignments p). \<exists>job \<in> jobs. assignment_ok cl now job a)
      \<and> given_within cl now lines0 p)"

section \<open>One step\<close>

lemma demand_reserve: "demand (tl_intervals (reserve_for_job start stop a job line)) q = demand (tl_intervals line) q + ra_view a q"
proof -
  let ?i = "\<lparr>iv_start = start, iv_end = stop, iv_resources = a, iv_job_id = job\<rparr>"
  have "demand (sort_key iv_start (tl_intervals line @ [?i])) q = demand (tl_intervals line @ [?i]) q" by (rule demand_perm) simp
  then show ?thesis by (simp add: reserve_for_job_def demand_def del: ra_view.simps)
qed

lemma counters_fewer: "counters_ok (Suc n) cl lines \<Longrightarrow> counters_ok n cl lines"
proof -
  assume c: "counters_ok (Suc n) cl lines"
  show ?thesis
    unfolding counters_ok_def
  proof (intro allI impI)
    fix i assume "i < length (cs_nodes cl)"
    then have "fits_counters (\<lambda>q. demand (tl_intervals (lines ! i)) q + Suc n * node_cap (n_total_resources (node_of cl i)) q)"
      using c by (simp add: counters_ok_def)
    then show "fits_counters (\<lambda>q. demand (tl_intervals (lines ! i)) q + n * node_cap (n_total_resources (node_of cl i)) q)"
      by (rule fits_counters_mono) simp
  qed
qed

lemma reserved_ids_nth:
  "x \<in> reserved_ids lines \<longleftrightarrow> (\<exists>i < length lines. \<exists>iv \<in> set (tl_intervals (lines ! i)). iv_job_id iv = Some x)"
  unfolding reserved_ids_def mem_Collect_eq by (metis in_set_conv_nth)

lemma reserve_line:
  assumes i: "i < length (cs_nodes cl)" and line: "line_ok (node_of cl i) (lines ! i)" and c: "counters_ok (Suc n) cl lines"
    and s: "fits_node (n_total_resources (node_of cl i)) s" and d: "0 < d"
  shows "line_ok (node_of cl i) (reserve_for_job start (start + d) s job (lines ! i))"
proof -
  let ?d = "demand (tl_intervals (lines ! i))" and ?c = "node_cap (n_total_resources (node_of cl i))"
  have "fits_counters (\<lambda>q. ?d q + Suc n * ?c q)" using c i by (simp add: counters_ok_def)
  then have "fits_counters (\<lambda>q. ?d q + ra_view s q)"
    by (rule fits_counters_mono) (use s in \<open>simp add: fits_node_def trans_le_add1 del: ra_view.simps\<close>)
  then have "?d q + ra_view s q \<le> ra_cap q" "gres_total ?d g + gres_total (ra_view s) g < 2 ^ 32" for q g
    by (simp_all add: fits_counters_def gres_total_def sum.distrib del: ra_view.simps)
  then have "timeline_wf (tl_intervals (reserve_for_job start (start + d) s job (lines ! i)))"
    using line s d by (intro timeline_wf_reserve) (simp_all add: line_ok_def fits_node_def del: ra_view.simps)
  then show ?thesis using line by (simp add: line_ok_def reserve_for_job_def)
qed

lemma reserve_all_nth:
  "i < length (cs_nodes cl) \<Longrightarrow> length lines = length (cs_nodes cl) \<Longrightarrow> reserve_all cl job start shares lines ! i =
     (case hm_get shares (n_name (node_of cl i)) of
        None \<Rightarrow> lines ! i | Some s \<Rightarrow> reserve_for_job start (start + job_duration job) s (Some (j_job_id job)) (lines ! i))"
  by (simp add: reserve_all_def)

lemma reserve_all_ok:
  assumes lines: "lines_ok cl lines" and c: "counters_ok (Suc n) cl lines" and d: "0 < job_duration job"
    and s: "\<forall>i < length (cs_nodes cl). \<forall>s. hm_get shares (n_name (node_of cl i)) = Some s \<longrightarrow> fits_node (n_total_resources (node_of cl i)) s"
  shows "lines_ok cl (reserve_all cl job start shares lines)" and "counters_ok n cl (reserve_all cl job start shares lines)"
    and "reserved_ids (reserve_all cl job start shares lines) \<subseteq> insert (j_job_id job) (reserved_ids lines)"
proof -
  let ?lines = "reserve_all cl job start shares lines"
  have len: "length lines = length (cs_nodes cl)" using list_all2_lengthD [OF lines] by simp
  note nth = reserve_all_nth [OF _ len]
  show "lines_ok cl ?lines"
    using reserve_line [OF _ _ c] list_all2_nthD [OF lines] s d len
    by (auto simp: list_all2_conv_all_nth nth reserve_all_def split: option.split)
  show "counters_ok n cl ?lines"
    unfolding counters_ok_def
  proof (intro allI impI)
    fix i assume i: "i < length (cs_nodes cl)"
    let ?c = "node_cap (n_total_resources (node_of cl i))"
    have "demand (tl_intervals (?lines ! i)) q + n * ?c q \<le> demand (tl_intervals (lines ! i)) q + Suc n * ?c q" for q
      using s i by (auto simp: nth [OF i] demand_reserve fits_node_def simp del: ra_view.simps split: option.split)
    moreover have "fits_counters (\<lambda>q. demand (tl_intervals (lines ! i)) q + Suc n * ?c q)"
      using c i unfolding counters_ok_def by blast
    ultimately show "fits_counters (\<lambda>q. demand (tl_intervals (?lines ! i)) q + n * ?c q)" by (rule fits_counters_mono [rotated])
  qed
  show "reserved_ids ?lines \<subseteq> insert (j_job_id job) (reserved_ids lines)"
  proof
    fix x assume "x \<in> reserved_ids ?lines"
    then obtain i iv where i: "i < length (cs_nodes cl)" "iv \<in> set (tl_intervals (?lines ! i))" "iv_job_id iv = Some x"
      unfolding reserved_ids_nth using len by (auto simp: reserve_all_def)
    then have "iv \<in> set (tl_intervals (lines ! i)) \<or> iv_job_id iv = Some (j_job_id job)"
      by (auto simp: nth reserve_for_job_def split: option.splits)
    then show "x \<in> insert (j_job_id job) (reserved_ids lines)"
      using i(1,3) len by (auto simp: reserved_ids_nth)
  qed
qed

lemma placed_step:
  assumes ok: "pass_ok jobs cl now lines0 (Suc n) ids p" and new: "j_job_id job \<notin> ids" "job \<in> jobs"
    and d: "0 < job_duration job" and placed: "placed cl now job p p'"
  shows "pass_ok jobs cl now lines0 n (insert (j_job_id job) ids) p'"
proof (cases "ps_timelines p' = ps_timelines p \<and> ps_assignments p' = ps_assignments p")
  case True
  then have "given_within cl now lines0 p' \<longleftrightarrow> given_within cl now lines0 p" by (simp only: given_within_def)
  then show ?thesis using True ok counters_fewer [of n cl "ps_timelines p"] by (auto simp: pass_ok_def)
next
  case False
  then obtain start names shares where pl: "placement_ok cl now job (ps_timelines p) start names shares"
    and lines': "ps_timelines p' = reserve_all cl job start shares (ps_timelines p)"
    and as': "ps_assignments p' = ps_assignments p
      @ (if start = now then [\<lparr>as_job_id = j_job_id job, as_nodes = names, as_per_node_alloc = shares\<rparr>] else [])"
    using placed by (auto simp: placed_def)
  have lines: "lines_ok cl (ps_timelines p)" "counters_ok (Suc n) cl (ps_timelines p)" using ok by (simp_all add: pass_ok_def)
  have len: "length (ps_timelines p) = length (cs_nodes cl)" using list_all2_lengthD [OF lines(1)] by simp
  have good: "good_share cl (ps_timelines p) now start i s"
    if "i < length (cs_nodes cl)" "hm_get shares (n_name (node_of cl i)) = Some s" for i s
    using pl that by (simp add: placement_ok_def)
  then have "\<forall>i < length (cs_nodes cl). \<forall>s. hm_get shares (n_name (node_of cl i)) = Some s \<longrightarrow> fits_node (n_total_resources (node_of cl i)) s"
    by (simp add: good_share_def)
  note all = reserve_all_ok [OF lines d this, of start]
  have "load (tl_intervals (ps_timelines p' ! i)) now q
        = load (tl_intervals (lines0 ! i)) now q + given (ps_assignments p') (n_name (node_of cl i)) q
      \<and> load (tl_intervals (ps_timelines p' ! i)) now q
        \<le> max (load (tl_intervals (lines0 ! i)) now q) (node_cap (n_total_resources (node_of cl i)) q)"
    if i: "i < length (cs_nodes cl)" for i q
  proof -
    have old: "load (tl_intervals (ps_timelines p ! i)) now q
        = load (tl_intervals (lines0 ! i)) now q + given (ps_assignments p) (n_name (node_of cl i)) q"
      "load (tl_intervals (ps_timelines p ! i)) now q
        \<le> max (load (tl_intervals (lines0 ! i)) now q) (node_cap (n_total_resources (node_of cl i)) q)"
      using ok i unfolding pass_ok_def given_within_def by blast+
    show ?thesis
    proof (cases "hm_get shares (n_name (node_of cl i))")
      case None
      then show ?thesis using old by (simp add: lines' as' reserve_all_nth [OF i len] given_def)
    next
      case (Some s)
      have "has_room (n_total_resources (node_of cl i)) (load (tl_intervals (ps_timelines p ! i)) now) s" if "start = now"
        using good [OF i Some] year_positive that by (simp add: good_share_def)
      then have "start = now \<Longrightarrow> 0 < ra_view s q \<Longrightarrow>
          load (tl_intervals (ps_timelines p ! i)) now q + ra_view s q \<le> node_cap (n_total_resources (node_of cl i)) q"
        by (simp add: has_room_def del: ra_view.simps)
      moreover have "now \<le> start" using pl by (simp add: placement_ok_def)
      ultimately show ?thesis
        using old d Some by (cases "ra_view s q")
          (auto simp: lines' as' reserve_all_nth [OF i len] given_def load_reserve simp del: ra_view.simps)
    qed
  qed
  then have "given_within cl now lines0 p'" by (simp only: given_within_def) blast
  moreover have "assignment_ok cl now job \<lparr>as_job_id = j_job_id job, as_nodes = names, as_per_node_alloc = shares\<rparr>" if "start = now"
    using pl that year_positive good unfolding assignment_ok_def placement_ok_def
    by (auto simp: good_share_def in_set_conv_nth)
  ultimately show ?thesis
    using ok all new unfolding pass_ok_def lines' by (auto simp: as')
qed

section \<open>The whole pass\<close>

context gpu_planning
begin

lemma schedule_from_ok:
  assumes cl: "cluster_ok cl"
  shows "pass_ok jobs cl now lines0 (length idxs) ids p \<Longrightarrow> (\<forall>i \<in> set idxs. pending ! i \<in> jobs \<and> 0 < job_duration (pending ! i)) \<Longrightarrow>
      distinct (map (\<lambda>i. j_job_id (pending ! i)) idxs) \<Longrightarrow> ids \<inter> (\<lambda>i. j_job_id (pending ! i)) ` set idxs = {} \<Longrightarrow>
    \<exists>p' ids'. schedule_from plan_gpu cl now pending idxs p = Some p' \<and> pass_ok jobs cl now lines0 0 ids' p'"
proof (induction idxs arbitrary: p ids)
  case (Cons idx idxs)
  let ?job = "pending ! idx"
  have ok: "pass_ok jobs cl now lines0 (Suc (length idxs)) ids p" using Cons.prems(1) by simp
  have "counters_ok (Suc 0) cl (ps_timelines p)"
  proof -
    have "counters_ok (Suc k) cl (ps_timelines p) \<Longrightarrow> counters_ok (Suc 0) cl (ps_timelines p)" for k
      by (induction k) (simp_all add: counters_fewer)
    then show ?thesis using ok by (auto simp: pass_ok_def)
  qed
  then have "plannable cl ?job (ps_timelines p)"
    using cl ok Cons.prems by (auto simp: plannable_def pass_ok_def)
  then obtain p1 where p1: "schedule_job plan_gpu cl now pending idx p = Some p1" "placed cl now ?job p p1"
    using schedule_job_placed by blast
  have ok1: "pass_ok jobs cl now lines0 (length idxs) (insert (j_job_id ?job) ids) p1"
    using ok p1(2) Cons.prems by (intro placed_step) auto
  have disjoint: "insert (j_job_id ?job) ids \<inter> (\<lambda>i. j_job_id (pending ! i)) ` set idxs = {}" using Cons.prems(3,4) by auto
  have "\<exists>p' ids'. schedule_from plan_gpu cl now pending idxs p1 = Some p' \<and> pass_ok jobs cl now lines0 0 ids' p'"
    by (rule Cons.IH [OF ok1 _ _ disjoint]) (use Cons.prems(2,3) in simp_all)
  then show ?case using p1(1) by simp
qed auto

end

end
