(* ===== verification/Gpu_Plan.thy ===== *)
theory Gpu_Plan
  imports Gpu_Planning Backfill_Queue
begin

text \<open>
  The planner of jobs with GPU property constraints keeps the laws of \<open>gpu_planning\<close>: a trial pass on the reduced
  cluster is a pass, the devices it settles on are free for the run, and every device of a plan satisfies the
  constraints and shares its group with the others.
\<close>

section \<open>Reduced allocations\<close>

lemma restrict_get:
  "hm_get (ra_devices (restrict_gpus ids a)) g =
     (if g = gpu_gres then map_option (filter (\<lambda>d. ad_device_id d \<in> set ids)) (hm_get (ra_devices a) g) else hm_get (ra_devices a) g)"
  by (simp add: restrict_gpus_def hm_simps)

lemma restrict_scalars [simp]:
  "ra_cpus (restrict_gpus ids a) = ra_cpus a" "ra_memory_mb (restrict_gpus ids a) = ra_memory_mb a"
  "hm_wf (ra_devices a) \<Longrightarrow> hm_wf (ra_devices (restrict_gpus ids a))"
  by (simp_all add: restrict_gpus_def)

lemma restrict_wf: "ra_wf a \<Longrightarrow> ra_wf (restrict_gpus ids a)"
  using ra_wf_entry [of a]
  by (intro ra_wfI) (auto simp: restrict_get distinct_map_filter ra_wf_def split: if_splits)

lemma restrict_pos: "ra_wf a \<Longrightarrow> ra_pos a \<Longrightarrow> ra_pos (restrict_gpus ids a)"
  using ra_pos_entry [of a]
  by (intro ra_posI) (auto simp: restrict_get ra_wf_def split: if_splits)

lemma dev_total_restrict: "dev_total i (filter (\<lambda>d. ad_device_id d \<in> set ids) ds) = (if i \<in> set ids then dev_total i ds else 0)"
  by (induction ds) auto

lemma restrict_view:
  "ra_view (restrict_gpus ids a) q = (case q of
      QDevice g i \<Rightarrow> if g = gpu_gres \<and> i \<notin> set ids then 0 else ra_view a q
    | _ \<Rightarrow> ra_view a q)"
  by (cases q) (auto simp: restrict_get dev_total_restrict split: option.split)

lemma restrict_view_le: "ra_view (restrict_gpus ids a) q \<le> ra_view a q"
  by (simp add: restrict_view del: ra_view.simps split: quantity.split)

section \<open>The reduced cluster\<close>

abbreviation projected :: "constraints \<Rightarrow> bool \<Rightarrow> (string \<times> u64) list \<Rightarrow> cluster_state \<Rightarrow> cluster_state" where
  "projected c x allowed cl \<equiv> cl\<lparr>cs_nodes := map (project_node c x allowed) (cs_nodes cl)\<rparr>"

lemma project_total:
  "n_name (project_node c x allowed node) = n_name node"
  "n_total_resources (project_node c x allowed node)
     = (n_total_resources node)\<lparr>rs_gpus := filter (\<lambda>gpu. (n_name node, gr_stable_id gpu) \<in> set allowed) (rs_gpus (n_total_resources node))\<rparr>"
  by (simp_all add: project_node_def Let_def)

lemma project_inventory: "inventory_wf (n_total_resources node) \<Longrightarrow> inventory_wf (n_total_resources (project_node c x allowed node))"
  using le_less_trans [OF length_filter_le]
  by (auto simp: inventory_wf_def project_total request_wf_def distinct_map_filter)

lemma project_cap:
  "node_cap (n_total_resources (project_node c x allowed node)) q \<le> node_cap (n_total_resources node) q"
  by (cases q) (auto simp: project_total)

lemma project_cap_other:
  "(\<And>i. q \<noteq> QDevice gpu_gres i) \<Longrightarrow> node_cap (n_total_resources (project_node c x allowed node)) q = node_cap (n_total_resources node) q"
  by (cases q) (auto simp: project_total)

section \<open>The trial timelines\<close>

definition reduced :: "u64 list \<Rightarrow> interval list \<Rightarrow> interval list" where
  "reduced ids ivs = map (\<lambda>iv. iv\<lparr>iv_resources := restrict_gpus ids (iv_resources iv)\<rparr>) ivs"

lemma reduced_demand: "demand (reduced ids ivs) q \<le> demand ivs q"
  unfolding demand_def reduced_def map_map comp_def by (rule sum_list_le) (simp add: restrict_view_le del: ra_view.simps)

lemma reduced_load: "(\<And>i. q \<noteq> QDevice gpu_gres i) \<Longrightarrow> load (reduced ids ivs) t q = load ivs t q"
  unfolding load_def reduced_def map_map comp_def
  by (intro arg_cong [where f = sum_list] map_cong)
     (auto simp: active_at_def restrict_view simp del: ra_view.simps split: quantity.split)

lemma reduced_wf:
  assumes "timeline_wf ivs"
  shows "timeline_wf (reduced ids ivs)"
proof -
  have "fits_counters (demand ivs)" using assms by (simp add: timeline_wf_def fits_counters_def)
  then have "fits_counters (demand (reduced ids ivs))" by (rule fits_counters_mono) (rule reduced_demand)
  moreover have "map iv_start (reduced ids ivs) = map iv_start ivs" by (simp add: reduced_def)
  ultimately show ?thesis
    using assms by (auto simp: timeline_wf_def fits_counters_def reduced_def comp_def restrict_wf restrict_pos simp del: ra_view.simps)
qed

lemma trial_timelines_nth:
  "length lines = length nodes \<Longrightarrow> trial_timelines lines nodes = map2 trial_timeline lines nodes"
  by (simp add: trial_timelines_def)

lemma trial_intervals:
  "tl_intervals (trial_timeline line node) = reduced (map gr_stable_id (rs_gpus (n_total_resources node))) (tl_intervals line)"
  by (simp add: trial_timeline_def reduced_def)

lemma block_job_same [simp]:
  "j_job_id (block_job c job) = j_job_id job" "job_duration (block_job c job) = job_duration job"
  "needed_nodes (block_job c job) = needed_nodes job" "j_idle_fill (block_job c job) = j_idle_fill job"
  "unreserved (block_job c job) = unreserved job"
  by (simp_all add: block_job_def job_duration_def needed_nodes_def unreserved_def prospective_overlap_at_def fun_eq_iff)

lemma reserved_ids_image: "x \<in> reserved_ids lines \<longleftrightarrow> (\<exists>i < length lines. Some x \<in> iv_job_id ` set (tl_intervals (lines ! i)))"
  by (simp add: reserved_ids_nth image_iff eq_commute [of "Some x"])

lemma trial_line_ok: "line_ok node line \<Longrightarrow> line_ok (project_node c x allowed node) (trial_timeline line (project_node c x allowed node))"
  unfolding line_ok_def trial_intervals by (intro conjI reduced_wf project_inventory) (simp_all add: trial_timeline_def project_total(1))

lemma trial_plannable:
  assumes "plannable cl job lines"
  shows "plannable (projected c x allowed cl) (block_job c job) (trial_timelines lines (map (project_node c x allowed) (cs_nodes cl)))"
proof -
  let ?cl = "projected c x allowed cl" and ?nodes = "map (project_node c x allowed) (cs_nodes cl)"
  have lines: "lines_ok cl lines" and counters: "counters_ok 1 cl lines" using assms by (simp_all add: plannable_def)
  have len: "length lines = length (cs_nodes cl)" using list_all2_lengthD [OF lines] by simp
  have nth: "trial_timelines lines ?nodes ! i = trial_timeline (lines ! i) (?nodes ! i)" if "i < length (cs_nodes cl)" for i
    using that len by (simp add: trial_timelines_nth)
  have "lines_ok ?cl (trial_timelines lines ?nodes)"
    using len list_all2_nthD [OF lines] by (auto simp: list_all2_conv_all_nth trial_timelines_nth trial_line_ok)
  moreover have "counters_ok 1 ?cl (trial_timelines lines ?nodes)"
    unfolding counters_ok_def
  proof (intro allI impI)
    fix i assume "i < length (cs_nodes ?cl)"
    then have i: "i < length (cs_nodes cl)" by simp
    have "fits_counters (\<lambda>q. demand (tl_intervals (lines ! i)) q + 1 * node_cap (n_total_resources (node_of cl i)) q)"
      using counters i by (simp add: counters_ok_def)
    then show "fits_counters (\<lambda>q. demand (tl_intervals (trial_timelines lines ?nodes ! i)) q
        + 1 * node_cap (n_total_resources (node_of ?cl i)) q)"
      by (rule fits_counters_mono) (use i project_cap in \<open>simp add: nth trial_intervals add_mono reduced_demand\<close>)
  qed
  moreover have "reserved_ids (trial_timelines lines ?nodes) = reserved_ids lines"
  proof -
    have ids: "iv_job_id ` set (tl_intervals (trial_timelines lines ?nodes ! i)) = iv_job_id ` set (tl_intervals (lines ! i))"
      if "i < length (cs_nodes cl)" for i using that by (simp add: nth trial_intervals reduced_def image_image)
    have tlen: "length (trial_timelines lines ?nodes) = length (cs_nodes cl)" using len by (simp add: trial_timelines_nth)
    have "y \<in> reserved_ids (trial_timelines lines ?nodes) \<longleftrightarrow> y \<in> reserved_ids lines" for y
      unfolding reserved_ids_image tlen len using ids by metis
    then show ?thesis by blast
  qed
  moreover have "cluster_ok ?cl"
    using assms by (simp add: plannable_def cluster_ok_def topology_ok_def comp_def project_total)
  ultimately show ?thesis using assms by (simp add: plannable_def)
qed

interpretation trial: gpu_planning None
  by unfold_locales simp_all

lemma trial_pass:
  assumes "plannable cl job lines"
  shows "\<exists>as self. schedule_jobs_with None [block_job c job] (projected c x allowed cl) now False gate
        (trial_scheduler (trial_timelines lines (map (project_node c x allowed) (cs_nodes cl)))) = Some (as, self)
     \<and> (bs_timelines self = trial_timelines lines (map (project_node c x allowed) (cs_nodes cl)) \<and> as = []
        \<or> (\<exists>start names shares.
             placement_ok (projected c x allowed cl) now (block_job c job)
               (trial_timelines lines (map (project_node c x allowed) (cs_nodes cl))) start names shares
             \<and> bs_timelines self = reserve_all (projected c x allowed cl) (block_job c job) start shares
                 (trial_timelines lines (map (project_node c x allowed) (cs_nodes cl)))
             \<and> as = (if start = now then [\<lparr>as_job_id = j_job_id job, as_nodes = names, as_per_node_alloc = shares\<rparr>] else [])))"
proof -
  let ?cl = "projected c x allowed cl" and ?lines = "trial_timelines lines (map (project_node c x allowed) (cs_nodes cl))"
    and ?job = "block_job c job"
  define p where "p = pass_new None [?job] ?lines gate"
  have p: "ps_timelines p = ?lines" "ps_assignments p = []" by (simp_all add: p_def pass_new_def)
  obtain p' where p': "schedule_job None ?cl now [?job] 0 p = Some p'" "placed ?cl now ?job p p'"
    using trial.schedule_job_placed [of ?cl "[?job]" 0 p now] trial_plannable [OF assms] p by auto
  have "schedule_jobs_with None [?job] ?cl now False gate (trial_scheduler ?lines)
      = Some (ps_assignments p', (trial_scheduler ?lines)\<lparr>bs_timelines := ps_timelines p'\<rparr>)"
    using p'(1) by (simp add: schedule_jobs_with_def trial_scheduler_def scheduler_new_def p_def)
  then show ?thesis using p'(2) unfolding placed_def p append_Nil block_job_same(1) by auto
qed

section \<open>What the trial reserved\<close>

lemma find_unique:
  assumes "x \<in> set xs" "P x" and only: "\<And>y. y \<in> set xs \<Longrightarrow> P y \<Longrightarrow> y = x"
  shows "find P xs = Some x"
proof -
  obtain y where y: "find P xs = Some y" using assms(1,2) find_None_iff by (metis option.exhaust)
  then have "y \<in> set xs" "P y" by (metis find_Some_iff nth_mem)+
  then show ?thesis using y only by blast
qed

lemma hm_wf_single: "hm_wf [(k, v)]"
  by (simp add: hm_wf_def)

lemma outcome_collects:
  assumes "\<And>line. line \<in> set lines \<Longrightarrow>
      map_option (\<lambda>iv. (iv_start iv, iv_resources iv)) (find (\<lambda>iv. iv_job_id iv = Some i) (tl_intervals line))
        = map_option (Pair start) (S (tl_node_name line))"
  shows "case trial_outcome i lines of
      None \<Rightarrow> \<forall>k \<in> tl_node_name ` set lines. S k = None
    | Some (t, m) \<Rightarrow> t = start \<and> hm_wf m \<and> (\<forall>k. hm_get m k = (if k \<in> tl_node_name ` set lines then S k else None))"
  using assms
proof (induction lines rule: rev_induct)
  case (snoc line lines)
  have ih: "case trial_outcome i lines of
      None \<Rightarrow> \<forall>k \<in> tl_node_name ` set lines. S k = None
    | Some (t, m) \<Rightarrow> t = start \<and> hm_wf m \<and> (\<forall>k. hm_get m k = (if k \<in> tl_node_name ` set lines then S k else None))"
    using snoc.prems by (intro snoc.IH) simp
  have line: "map_option (\<lambda>iv. (iv_start iv, iv_resources iv)) (find (\<lambda>iv. iv_job_id iv = Some i) (tl_intervals line))
      = map_option (Pair start) (S (tl_node_name line))" using snoc.prems by simp
  have step: "trial_outcome i (lines @ [line]) = (case find (\<lambda>iv. iv_job_id iv = Some i) (tl_intervals line) of
      None \<Rightarrow> trial_outcome i lines
    | Some iv \<Rightarrow> Some (iv_start iv, hm_insert (tl_node_name line) (iv_resources iv)
        (case trial_outcome i lines of None \<Rightarrow> [] | Some (_, m) \<Rightarrow> m)))"
    by (simp only: trial_outcome_def foldl_append foldl_Cons foldl_Nil)
  show ?case
  proof (cases "find (\<lambda>iv. iv_job_id iv = Some i) (tl_intervals line)")
    case None
    then show ?thesis using ih line by (cases "trial_outcome i lines") (auto simp: step)
  next
    case (Some iv)
    then have "S (tl_node_name line) = Some (iv_resources iv)" "iv_start iv = start"
      using line by (cases "S (tl_node_name line)"; simp)+
    then show ?thesis using ih Some by (cases "trial_outcome i lines") (auto simp: step hm_simps hm_wf_single)
  qed
qed (simp add: trial_outcome_def)

lemma find_reserved:
  assumes "Some i \<notin> iv_job_id ` set (tl_intervals line)"
  shows "find (\<lambda>iv. iv_job_id iv = Some i) (tl_intervals (reserve_for_job start stop s (Some i) line))
      = Some \<lparr>iv_start = start, iv_end = stop, iv_resources = s, iv_job_id = Some i\<rparr>"
proof (rule find_unique)
  fix y assume "y \<in> set (tl_intervals (reserve_for_job start stop s (Some i) line))" "iv_job_id y = Some i"
  then show "y = \<lparr>iv_start = start, iv_end = stop, iv_resources = s, iv_job_id = Some i\<rparr>"
    using assms by (force simp: reserve_for_job_def)
qed (simp_all add: reserve_for_job_def)

lemma trial_outcome_none: "i \<notin> reserved_ids lines \<Longrightarrow> trial_outcome i lines = None"
proof -
  assume "i \<notin> reserved_ids lines"
  then have "find (\<lambda>iv. iv_job_id iv = Some i) (tl_intervals line) = None" if "line \<in> set lines" for line
    using that by (auto simp: reserved_ids_def find_None_iff)
  then have "\<And>acc. foldl (\<lambda>acc line. case find (\<lambda>iv. iv_job_id iv = Some i) (tl_intervals line) of
      None \<Rightarrow> acc | Some iv \<Rightarrow> f acc line iv) acc lines = acc" for f by (induction lines) simp_all
  then show ?thesis by (simp add: trial_outcome_def)
qed

lemma trial_outcome_reserved:
  assumes lines: "lines_ok cl lines" and fresh: "j_job_id job \<notin> reserved_ids lines"
    and keys: "\<forall>k. hm_get shares k \<noteq> None \<longrightarrow> k \<in> n_name ` set (cs_nodes cl)" and some: "\<exists>k. hm_get shares k \<noteq> None"
  obtains m where "trial_outcome (j_job_id job) (reserve_all cl job start shares lines) = Some (start, m)"
    and "hm_wf m" and "hm_get m = hm_get shares"
proof -
  let ?lines = "reserve_all cl job start shares lines"
  have len: "length lines = length (cs_nodes cl)" using list_all2_lengthD [OF lines] by simp
  have name: "tl_node_name (?lines ! i) = n_name (node_of cl i)" if i: "i < length (cs_nodes cl)" for i
    using line_okD(1) [OF lines i] by (simp add: reserve_all_nth [OF i len] reserve_for_job_def split: option.split)
  have names: "tl_node_name ` set ?lines = n_name ` set (cs_nodes cl)"
  proof -
    have "map tl_node_name ?lines = map n_name (cs_nodes cl)"
      using name len by (intro nth_equalityI) (simp_all add: reserve_all_def)
    then show ?thesis by (metis set_map)
  qed
  have "map_option (\<lambda>iv. (iv_start iv, iv_resources iv)) (find (\<lambda>iv. iv_job_id iv = Some (j_job_id job)) (tl_intervals line))
      = map_option (Pair start) (hm_get shares (tl_node_name line))" if mem: "line \<in> set ?lines" for line
  proof -
    obtain i where i: "i < length (cs_nodes cl)" "line = ?lines ! i"
      using mem len by (auto simp: in_set_conv_nth reserve_all_def)
    have "Some (j_job_id job) \<notin> iv_job_id ` set (tl_intervals (lines ! i))"
      using fresh i(1) len by (auto simp: reserved_ids_image)
    then have "find (\<lambda>iv. iv_job_id iv = Some (j_job_id job)) (tl_intervals (lines ! i)) = None"
      by (auto simp: find_None_iff image_iff)
    then show ?thesis
      using \<open>Some _ \<notin> _\<close> find_reserved unfolding i(2) name [OF i(1)]
      by (simp add: reserve_all_nth [OF i(1) len] split: option.split)
  qed
  note collects = outcome_collects [of ?lines "j_job_id job" start "hm_get shares", OF this]
  then obtain m where m: "trial_outcome (j_job_id job) ?lines = Some (start, m)" "hm_wf m"
      "\<forall>k. hm_get m k = (if k \<in> n_name ` set (cs_nodes cl) then hm_get shares k else None)"
    using some keys unfolding names by (cases "trial_outcome (j_job_id job) ?lines") auto
  moreover have "hm_get m k = hm_get shares k" for k using m(3) keys by (cases "hm_get shares k") auto
  ultimately show thesis using that by blast
qed

section \<open>Devices for the run\<close>

definition same_amounts :: "resource_allocations \<Rightarrow> resource_allocations \<Rightarrow> bool" where
  "same_amounts a b = (ra_cpus a = ra_cpus b \<and> ra_memory_mb a = ra_memory_mb b \<and> ra_devices a = ra_devices b)"

lemma same_amounts_view: "same_amounts a b \<Longrightarrow> ra_view a q = ra_view b q"
  by (cases q) (simp_all add: same_amounts_def)

lemma same_amounts_fits:
  "same_amounts a b \<Longrightarrow> fits_node rs a \<longleftrightarrow> fits_node rs b" "same_amounts a b \<Longrightarrow> has_room rs used a \<longleftrightarrow> has_room rs used b"
  using same_amounts_view [of a b]
  by (simp_all add: fits_node_def has_room_def del: ra_view.simps) (simp add: same_amounts_def ra_wf_def ra_pos_def)

lemma bind_share_amounts: "same_amounts (fst (bind_share view block props node a)) a"
  by (auto simp: bind_share_def same_amounts_def Let_def split: option.split sum.split)

text \<open>The share a node gets once the devices for the run are chosen.\<close>

definition rechosen :: "job \<Rightarrow> string option \<Rightarrow> instant \<Rightarrow> node_timeline \<Rightarrow> node \<Rightarrow> resource_allocations \<Rightarrow> resource_allocations" where
  "rechosen job gpu_type start line node a =
     (let wanted = unat (total_device_count a gpu_gres)
      in if 0 < wanted
         then a\<lparr>ra_devices := hm_insert gpu_gres (take wanted (free_for_run job gpu_type node
                (overlapping line start (start + job_duration job)))) (ra_devices a)\<rparr>
         else a)"

lemma idle_device:
  assumes "\<And>iv. iv \<in> set ivs \<Longrightarrow> active_at t iv \<Longrightarrow> i \<notin> set (device_ids (iv_resources iv) gpu_gres)"
  shows "load ivs t (QDevice gpu_gres i) = 0"
proof -
  have "ra_view a (QDevice gpu_gres i) = 0" if "i \<notin> set (device_ids a gpu_gres)" for a
    using that by (simp add: device_ids_def dev_total_absent split: option.split)
  then have "(if active_at t iv then ra_view (iv_resources iv) (QDevice gpu_gres i) else 0) = 0" if "iv \<in> set ivs" for iv
    using assms that by (simp del: ra_view.simps)
  then show ?thesis unfolding load_def by (simp cong: map_cong del: ra_view.simps)
qed

lemma free_for_run_form:
  assumes "inventory_wf (n_total_resources node)"
  obtains gpus where "free_for_run job gpu_type node ivs = map (\<lambda>gpu. injectable (gr_stable_id gpu)) gpus"
    and "set gpus \<subseteq> set (rs_gpus (n_total_resources node))" and "distinct (map gr_stable_id gpus)"
    and "\<forall>gpu \<in> set gpus. \<forall>iv \<in> set ivs. gr_stable_id gpu \<notin> set (device_ids (iv_resources iv) gpu_gres)"
proof -
  define P where "P = (\<lambda>gpu :: gpu_resource. gr_stable_id gpu \<notin> set (concat (map (\<lambda>iv. device_ids (iv_resources iv) gpu_gres) ivs))
      \<and> (js_exclusive (j_spec job) \<or> (case gpu_type of None \<Rightarrow> True | Some kind \<Rightarrow> kind = ''any'' \<or> gr_gpu_type gpu = kind)))"
  have "free_for_run job gpu_type node ivs
      = map (\<lambda>gpu. injectable (gr_stable_id gpu)) (filter P (rs_gpus (n_total_resources node)))"
    by (simp add: free_for_run_def P_def Let_def)
  moreover have "set (filter P (rs_gpus (n_total_resources node))) \<subseteq> set (rs_gpus (n_total_resources node))" by simp
  moreover have "distinct (map gr_stable_id (filter P (rs_gpus (n_total_resources node))))"
    using assms by (simp add: inventory_wf_def distinct_map_filter)
  moreover have "\<forall>gpu \<in> set (filter P (rs_gpus (n_total_resources node))). \<forall>iv \<in> set ivs.
      gr_stable_id gpu \<notin> set (device_ids (iv_resources iv) gpu_gres)" by (auto simp: P_def)
  ultimately show thesis by (rule that)
qed

lemma rechosen_gpus:
  assumes s: "tame s" and inv: "inventory_wf (n_total_resources node)"
    and s': "s' = rechosen job gpu_type start line node s" and d: "0 < job_duration job"
  shows "ra_wf s' \<and> ra_pos s' \<and> (\<forall>q. (\<forall>i. q \<noteq> QDevice gpu_gres i) \<longrightarrow> ra_view s' q = ra_view s q)
    \<and> (\<forall>i. ra_view s' (QDevice gpu_gres i) = (if i \<in> set (device_ids s' gpu_gres) then 1 else 0))
    \<and> set (device_ids s' gpu_gres) \<subseteq> gr_stable_id ` set (rs_gpus (n_total_resources node))
    \<and> (\<forall>i \<in> set (device_ids s' gpu_gres). load (tl_intervals line) start (QDevice gpu_gres i) = 0)"
proof (cases "0 < unat (total_device_count s gpu_gres)")
  case False
  then have "gres_total (ra_view s) gpu_gres = 0" using generic_count_view(2) [OF s, of gpu_gres] by simp
  then have "ra_view s (QDevice gpu_gres i) = 0" for i using view_le_gres_total [of "ra_view s" gpu_gres i] by linarith
  moreover from this have "set (device_ids s gpu_gres) = {}" unfolding set_eq_iff held_ids_view [OF s] by simp
  moreover have "s' = s" using False by (simp add: s' rechosen_def)
  ultimately show ?thesis using s by (simp add: tame_def del: ra_view.simps)
next
  case True
  let ?wanted = "unat (total_device_count s gpu_gres)"
  obtain gpus where free: "free_for_run job gpu_type node (overlapping line start (start + job_duration job))
        = map (\<lambda>gpu. injectable (gr_stable_id gpu)) gpus"
    "set gpus \<subseteq> set (rs_gpus (n_total_resources node))" "distinct (map gr_stable_id gpus)"
    "\<forall>gpu \<in> set gpus. \<forall>iv \<in> set (overlapping line start (start + job_duration job)).
        gr_stable_id gpu \<notin> set (device_ids (iv_resources iv) gpu_gres)"
    by (rule free_for_run_form [OF inv])
  define A where "A = map (\<lambda>gpu. injectable (gr_stable_id gpu)) (take ?wanted gpus)"
  have s'_eq: "s' = s\<lparr>ra_devices := hm_insert gpu_gres A (ra_devices s)\<rparr>"
    using True by (simp add: s' rechosen_def free(1) A_def take_map)
  have get: "hm_get (ra_devices s') g = (if g = gpu_gres then Some A else hm_get (ra_devices s) g)" for g
    by (simp add: s'_eq hm_simps)
  have A: "map ad_device_id A = map gr_stable_id (take ?wanted gpus)" "\<forall>dev \<in> set A. ad_count dev = 1"
    by (auto simp: A_def injectable_def)
  have dA: "distinct (map ad_device_id A)" using free(3) unfolding A(1) by (simp add: take_map [symmetric])
  have ids: "set (device_ids s' gpu_gres) = gr_stable_id ` set (take ?wanted gpus)"
    using arg_cong [OF A(1), of set] by (simp add: device_ids_def get)
  have wf: "ra_wf s" "ra_pos s" using s by (simp_all add: tame_def)
  have hm: "hm_wf (ra_devices s')" using wf(1) by (simp add: s'_eq ra_wf_def)
  have "ra_wf s'" using hm dA ra_wf_entry [OF wf(1)] by (intro ra_wfI) (auto simp: get split: if_splits)
  moreover have "ra_pos s'" using hm A(2) ra_pos_entry [OF wf(2)] by (intro ra_posI) (auto simp: get split: if_splits)
  moreover have "ra_view s' q = ra_view s q" if "\<forall>i. q \<noteq> QDevice gpu_gres i" for q
    using that by (cases q) (auto simp: s'_eq hm_simps)
  moreover have "ra_view s' (QDevice gpu_gres i) = (if i \<in> set (device_ids s' gpu_gres) then 1 else 0)" for i
    using dev_total_ones [OF A(2) dA, of i] by (simp add: get device_ids_def)
  moreover have "set (device_ids s' gpu_gres) \<subseteq> gr_stable_id ` set (rs_gpus (n_total_resources node))"
    unfolding ids by (intro image_mono order_trans [OF set_take_subset free(2)])
  moreover have "load (tl_intervals line) start (QDevice gpu_gres i) = 0" if i: "i \<in> set (device_ids s' gpu_gres)" for i
  proof (rule idle_device)
    fix iv assume iv: "iv \<in> set (tl_intervals line)" "active_at start iv"
    then have "iv \<in> set (overlapping line start (start + job_duration job))" using d by (simp add: overlapping_def active_at_def)
    moreover obtain gpu where "gpu \<in> set gpus" "i = gr_stable_id gpu" using i in_set_takeD unfolding ids by fast
    ultimately show "i \<notin> set (device_ids (iv_resources iv) gpu_gres)" using free(4) by blast
  qed
  ultimately show ?thesis by blast
qed

lemma rechosen_good:
  assumes node: "node' = project_node c x allowed node" and inv: "inventory_wf (n_total_resources node)"
    and s: "tame s" "fits_node (n_total_resources node') s" and s': "s' = rechosen job gpu_type start line node' s"
    and d: "0 < job_duration job"
  shows "fits_node (n_total_resources node) s'"
    and "has_room (n_total_resources node') (load (reduced ids (tl_intervals line)) start) s \<Longrightarrow>
      has_room (n_total_resources node) (load (tl_intervals line) start) s'"
proof -
  have inv': "inventory_wf (n_total_resources node')" using project_inventory [OF inv] by (simp add: node)
  have gpus: "gr_stable_id ` set (rs_gpus (n_total_resources node')) \<subseteq> gr_stable_id ` set (rs_gpus (n_total_resources node))"
    by (auto simp: node project_total)
  note re = rechosen_gpus [OF s(1) inv' s' d]
  have cap: "node_cap (n_total_resources node') q = node_cap (n_total_resources node) q" if "\<forall>i. q \<noteq> QDevice gpu_gres i" for q
    unfolding node by (rule project_cap_other) (use that in blast)
  have gpu: "ra_view s' (QDevice gpu_gres i) \<le> node_cap (n_total_resources node) (QDevice gpu_gres i)
      \<and> (0 < ra_view s' (QDevice gpu_gres i) \<longrightarrow> load (tl_intervals line) start (QDevice gpu_gres i) = 0)" for i
    using re gpus by (auto simp del: ra_view.simps)
  have other: "ra_view s' q = ra_view s q" if "\<forall>i. q \<noteq> QDevice gpu_gres i" for q using re that by blast
  have le: "ra_view s q \<le> node_cap (n_total_resources node') q" for q using s(2) by (simp add: fits_node_def del: ra_view.simps)
  have "ra_view s' q \<le> node_cap (n_total_resources node) q" for q
  proof (cases "\<exists>i. q = QDevice gpu_gres i")
    case True
    then show ?thesis using gpu by blast
  next
    case False
    then show ?thesis using le [of q] other [of q] cap [of q] by simp
  qed
  then show "fits_node (n_total_resources node) s'" using re by (simp add: fits_node_def del: ra_view.simps)
  assume room: "has_room (n_total_resources node') (load (reduced ids (tl_intervals line)) start) s"
  have "load (tl_intervals line) start q + ra_view s' q \<le> node_cap (n_total_resources node) q" if pos: "0 < ra_view s' q" for q
  proof (cases "\<exists>i. q = QDevice gpu_gres i")
    case True
    then show ?thesis using gpu pos by (auto simp del: ra_view.simps)
  next
    case False
    then show ?thesis
      using room [unfolded has_room_def, rule_format, of q] pos other [of q] cap [of q]
        reduced_load [of q ids "tl_intervals line" start] by simp
  qed
  then show "has_room (n_total_resources node) (load (tl_intervals line) start) s'" by (simp add: has_room_def del: ra_view.simps)
qed

section \<open>Rebinding the nodes\<close>

lemma rebind_node_other: "k \<noteq> n_name node \<Longrightarrow>
    hm_get (rb_allocations (rebind_node view block props job gpu_type start line node r)) k = hm_get (rb_allocations r) k"
  by (auto simp: rebind_node_def Let_def hm_simps split: option.split prod.split)

lemma rebind_node_wf:
  "hm_wf (rb_allocations r) \<Longrightarrow> hm_wf (rb_allocations (rebind_node view block props job gpu_type start line node r))"
  by (auto simp: rebind_node_def Let_def split: option.split prod.split)

lemma rebind_node_valid:
  assumes "rb_valid (rebind_node view block props job gpu_type start line node r)"
  shows "rb_valid r \<and> (case hm_get (rb_allocations r) (n_name node) of
      None \<Rightarrow> hm_get (rb_allocations (rebind_node view block props job gpu_type start line node r)) (n_name node) = None
    | Some a \<Rightarrow> snd (bind_share view block props node (rechosen job gpu_type start line node a))
        \<and> hm_get (rb_allocations (rebind_node view block props job gpu_type start line node r)) (n_name node)
          = Some (fst (bind_share view block props node (rechosen job gpu_type start line node a))))"
proof (cases "hm_get (rb_allocations r) (n_name node)")
  case None
  then show ?thesis using assms by (simp add: rebind_node_def)
next
  case (Some a)
  obtain b ok where b: "bind_share view block props node (rechosen job gpu_type start line node a) = (b, ok)" by fastforce
  then show ?thesis
    using assms Some by (simp add: rebind_node_def rechosen_def Let_def hm_simps split: if_splits)
qed

definition rebound ::
  "fabric_view \<Rightarrow> fabric_block option \<Rightarrow> bool \<Rightarrow> job \<Rightarrow> string option \<Rightarrow> instant \<Rightarrow> (node_timeline \<times> node) list
     \<Rightarrow> (string, resource_allocations) hashmap \<Rightarrow> (string, resource_allocations) hashmap \<Rightarrow> bool" where
  "rebound view block props job gpu_type start pairs m m' =
     (hm_wf m' \<and> (\<forall>k. k \<notin> (n_name \<circ> snd) ` set pairs \<longrightarrow> hm_get m' k = hm_get m k)
      \<and> (\<forall>(line, node) \<in> set pairs. case hm_get m (n_name node) of
           None \<Rightarrow> hm_get m' (n_name node) = None
         | Some a \<Rightarrow> snd (bind_share view block props node (rechosen job gpu_type start line node a))
             \<and> hm_get m' (n_name node) = Some (fst (bind_share view block props node (rechosen job gpu_type start line node a)))))"

lemma rebind_fold:
  assumes "distinct (map (n_name \<circ> snd) pairs)" "hm_wf (rb_allocations r0)"
    and "rb_valid (foldl (\<lambda>r (line, node). rebind_node view block props job gpu_type start line node r) r0 pairs)"
  shows "rb_valid r0 \<and> rebound view block props job gpu_type start pairs (rb_allocations r0)
      (rb_allocations (foldl (\<lambda>r (line, node). rebind_node view block props job gpu_type start line node r) r0 pairs))"
  using assms
proof (induction pairs arbitrary: r0)
  case Nil
  then show ?case by (simp add: rebound_def)
next
  case (Cons e pairs)
  obtain line node where e: "e = (line, node)" by (cases e)
  define r1 where "r1 = rebind_node view block props job gpu_type start line node r0"
  let ?r = "foldl (\<lambda>r (line, node). rebind_node view block props job gpu_type start line node r) r1 pairs"
  have ih: "rb_valid r1" "rebound view block props job gpu_type start pairs (rb_allocations r1) (rb_allocations ?r)"
    using Cons.IH [of r1] Cons.prems rebind_node_wf [of r0] by (auto simp: e r1_def)
  have node: "n_name node \<notin> (n_name \<circ> snd) ` set pairs" using Cons.prems(1) by (simp add: e)
  note valid = rebind_node_valid [OF ih(1) [unfolded r1_def], folded r1_def]
  have same: "hm_get (rb_allocations r1) k = hm_get (rb_allocations r0) k" if "k \<noteq> n_name node" for k
    using rebind_node_other [OF that] by (simp add: r1_def)
  have "rebound view block props job gpu_type start (e # pairs) (rb_allocations r0) (rb_allocations ?r)"
    unfolding rebound_def
  proof (intro conjI allI impI ballI)
    show "hm_wf (rb_allocations ?r)" using ih(2) by (simp add: rebound_def)
    show "hm_get (rb_allocations ?r) k = hm_get (rb_allocations r0) k" if "k \<notin> (n_name \<circ> snd) ` set (e # pairs)" for k
      using ih(2) same [of k] that by (simp add: rebound_def e)
  next
    fix y assume y: "y \<in> set (e # pairs)"
    obtain l n where ln: "y = (l, n)" by (cases y)
    have at_node: "hm_get (rb_allocations ?r) (n_name node) = hm_get (rb_allocations r1) (n_name node)"
      using ih(2) node by (simp add: rebound_def)
    show "case y of (line, node) \<Rightarrow> case hm_get (rb_allocations r0) (n_name node) of
        None \<Rightarrow> hm_get (rb_allocations ?r) (n_name node) = None
      | Some a \<Rightarrow> snd (bind_share view block props node (rechosen job gpu_type start line node a))
          \<and> hm_get (rb_allocations ?r) (n_name node)
            = Some (fst (bind_share view block props node (rechosen job gpu_type start line node a)))"
    proof (cases "y = e")
      case True
      then show ?thesis using valid at_node by (cases "hm_get (rb_allocations r0) (n_name node)") (simp_all add: e)
    next
      case False
      then have mem: "(l, n) \<in> set pairs" using y ln by simp
      then have "n_name n \<noteq> n_name node" using node by (metis comp_apply image_eqI snd_conv)
      then show ?thesis using ih(2) mem same [of "n_name n"] by (auto simp: rebound_def ln)
    qed
  qed
  then show ?case using valid by (simp add: e r1_def)
qed

section \<open>The plan of one group\<close>

definition chosen_names :: "assignment list \<Rightarrow> node list \<Rightarrow> (string, resource_allocations) hashmap \<Rightarrow> string list" where
  "chosen_names immediate nodes shares =
     (case immediate of a # _ \<Rightarrow> as_nodes a | [] \<Rightarrow> map n_name (filter (\<lambda>n. hm_get shares (n_name n) \<noteq> None) nodes))"

lemma placed_share_tame:
  assumes "counters_ok 1 cl lines" "i < length (cs_nodes cl)" "fits_node (n_total_resources (node_of cl i)) s"
  shows "tame s"
proof -
  have "fits_counters (\<lambda>q. demand (tl_intervals (lines ! i)) q + 1 * node_cap (n_total_resources (node_of cl i)) q)"
    using assms(1,2) by (simp add: counters_ok_def)
  then have "fits_counters (ra_view s)"
    by (rule fits_counters_mono) (use assms(3) in \<open>simp add: fits_node_def trans_le_add2 del: ra_view.simps\<close>)
  then show ?thesis using assms(3) by (simp add: tame_def fits_node_def fits_counters_def del: ra_view.simps)
qed

lemma rebound_share:
  assumes ok: "plannable cl job lines" and i: "i < length (cs_nodes cl)"
    and good: "good_share (projected c x allowed cl) (trial_timelines lines (map (project_node c x allowed) (cs_nodes cl))) floor_at start i s"
    and s': "s' = fst (bind_share view block props (project_node c x allowed (node_of cl i))
        (rechosen job gpu_type start (lines ! i) (project_node c x allowed (node_of cl i)) s))"
    and now: "now \<le> floor_at"
  shows "good_share cl lines now start i s'"
    and "set (device_ids s' gpu_gres) \<subseteq> gr_stable_id ` set (rs_gpus (n_total_resources (project_node c x allowed (node_of cl i))))"
proof -
  let ?cl = "projected c x allowed cl" and ?lines = "trial_timelines lines (map (project_node c x allowed) (cs_nodes cl))"
    and ?node = "project_node c x allowed (node_of cl i)"
  define r where "r = rechosen job gpu_type start (lines ! i) ?node s"
  have lines: "lines_ok cl lines" and d: "0 < job_duration job" using ok by (simp_all add: plannable_def)
  have len: "length lines = length (cs_nodes cl)" using list_all2_lengthD [OF lines] by simp
  have counters: "counters_ok 1 ?cl ?lines" using trial_plannable [OF ok, of c x allowed] by (simp add: plannable_def)
  have fits: "fits_node (n_total_resources ?node) s" using good i by (simp add: good_share_def)
  then have tame: "tame s" using placed_share_tame [OF counters, of i s] i by simp
  have inv: "inventory_wf (n_total_resources (node_of cl i))" using line_okD(4) [OF lines i] .
  have amounts: "same_amounts s' r" using bind_share_amounts by (simp add: s' r_def)
  have ivs: "tl_intervals (?lines ! i) = reduced (map gr_stable_id (rs_gpus (n_total_resources ?node))) (tl_intervals (lines ! i))"
    using i len by (simp add: trial_timelines_nth trial_intervals)
  have "fits_node (n_total_resources (node_of cl i)) r" by (rule rechosen_good(1) [OF refl inv tame fits r_def d])
  moreover have "has_room (n_total_resources (node_of cl i)) (load (tl_intervals (lines ! i)) start) r"
    if "start < now + duration_days 365"
    using that good now i by (intro rechosen_good(2) [OF refl inv tame fits r_def d]) (auto simp: good_share_def ivs)
  ultimately show "good_share cl lines now start i s'"
    unfolding good_share_def same_amounts_fits [OF amounts] by blast
  have "device_ids s' gpu_gres = device_ids r gpu_gres" using amounts by (simp add: same_amounts_def device_ids_def)
  then show "set (device_ids s' gpu_gres) \<subseteq> gr_stable_id ` set (rs_gpus (n_total_resources ?node))"
    using rechosen_gpus [OF tame project_inventory [OF inv] r_def d] by simp
qed

lemma trial_plan:
  assumes ok: "plannable cl job lines" and now: "now \<le> floor_at"
    and pass: "schedule_jobs_with None [block_job c job] (projected c x allowed cl) floor_at False gate
        (trial_scheduler (trial_timelines lines (map (project_node c x allowed) (cs_nodes cl)))) = Some (immediate, trial)"
    and outcome: "trial_outcome (j_job_id job) (bs_timelines trial) = Some (start, m)"
    and r: "r = rebind_nodes view block props job gpu_type start lines (map (project_node c x allowed) (cs_nodes cl)) m" "rb_valid r"
  shows "floor_at \<le> start
    \<and> placement_ok cl now job lines start (chosen_names immediate (map (project_node c x allowed) (cs_nodes cl)) (rb_allocations r)) (rb_allocations r)
    \<and> (\<forall>node \<in> set (cs_nodes cl). \<forall>s. hm_get (rb_allocations r) (n_name node) = Some s \<longrightarrow>
         (\<forall>i \<in> set (device_ids s gpu_gres). (n_name node, i) \<in> set allowed))"
proof -
  let ?cl = "projected c x allowed cl" and ?nodes = "map (project_node c x allowed) (cs_nodes cl)"
  let ?lines = "trial_timelines lines ?nodes" and ?job = "block_job c job"
  have lines: "lines_ok cl lines" and names: "distinct (map n_name (cs_nodes cl))"
    using ok by (simp_all add: plannable_def cluster_ok_def)
  have len: "length lines = length (cs_nodes cl)" using list_all2_lengthD [OF lines] by simp
  have ok': "plannable ?cl ?job ?lines" by (rule trial_plannable [OF ok])
  then have lines': "lines_ok ?cl ?lines" and fresh: "j_job_id ?job \<notin> reserved_ids ?lines" by (simp_all add: plannable_def)
  obtain start' ns shares where pl: "placement_ok ?cl floor_at ?job ?lines start' ns shares"
    and tl: "bs_timelines trial = reserve_all ?cl ?job start' shares ?lines"
    and im: "immediate = (if start' = floor_at then [\<lparr>as_job_id = j_job_id job, as_nodes = ns, as_per_node_alloc = shares\<rparr>] else [])"
    using trial_pass [OF ok, of c x allowed floor_at gate] pass outcome trial_outcome_none [OF fresh] by auto
  have keys: "hm_get shares k \<noteq> None \<longleftrightarrow> k \<in> set ns" for k using pl by (simp add: placement_ok_def)
  have ns: "distinct ns" "length ns = needed_nodes job" "set ns \<subseteq> n_name ` set (cs_nodes ?cl)" "floor_at \<le> start'"
    using pl by (simp_all add: placement_ok_def)
  have "ns \<noteq> []" using ns(2) by (auto simp: needed_nodes_def)
  then have some: "\<exists>k. hm_get shares k \<noteq> None" using keys last_in_set by blast
  have known: "\<forall>k. hm_get shares k \<noteq> None \<longrightarrow> k \<in> n_name ` set (cs_nodes ?cl)" using keys ns(3) by blast
  obtain m' where "trial_outcome (j_job_id ?job) (reserve_all ?cl ?job start' shares ?lines) = Some (start', m')"
      "hm_wf m'" "hm_get m' = hm_get shares"
    by (rule trial_outcome_reserved [OF lines' fresh known some])
  then have m: "start' = start" "hm_wf m" "hm_get m = hm_get shares" using outcome tl by simp_all
  define bound where "bound = (\<lambda>i s. fst (bind_share view block props (?nodes ! i) (rechosen job gpu_type start (lines ! i) (?nodes ! i) s)))"
  have pairs: "map (n_name \<circ> snd) (zip lines ?nodes) = map n_name (cs_nodes cl)"
    using len by (intro nth_equalityI) (simp_all add: project_total)
  have rb: "rebound view block props job gpu_type start (zip lines ?nodes) m (rb_allocations r)"
    using rebind_fold [of "zip lines ?nodes" "\<lparr>rb_allocations = m, rb_retry_at = None, rb_valid = True\<rparr>" view block props job
        gpu_type start] names m(2) r unfolding pairs rebind_nodes_def by simp
  have get: "hm_get (rb_allocations r) (n_name (node_of cl i)) = map_option (bound i) (hm_get shares (n_name (node_of cl i)))"
    if i: "i < length (cs_nodes cl)" for i
  proof -
    have "(lines ! i, ?nodes ! i) \<in> set (zip lines ?nodes)" using i len by (auto simp: set_zip)
    then show ?thesis
      using rb i unfolding rebound_def m(3) bound_def
      by (cases "hm_get shares (n_name (node_of cl i))") (fastforce simp: project_total)+
  qed
  have keys': "hm_get (rb_allocations r) k \<noteq> None \<longleftrightarrow> k \<in> set ns" for k
  proof (cases "k \<in> n_name ` set (cs_nodes cl)")
    case True
    then obtain i where "i < length (cs_nodes cl)" "k = n_name (node_of cl i)" by (auto simp: in_set_conv_nth)
    then show ?thesis using get keys by auto
  next
    case False
    then have "hm_get (rb_allocations r) k = hm_get shares k"
      using rb arg_cong [OF pairs, of set] by (simp add: rebound_def m(3))
    then show ?thesis using keys by simp
  qed
  have share: "good_share cl lines now start i s'
      \<and> set (device_ids s' gpu_gres) \<subseteq> gr_stable_id ` set (rs_gpus (n_total_resources (project_node c x allowed (node_of cl i))))"
    if i: "i < length (cs_nodes cl)" and s': "hm_get (rb_allocations r) (n_name (node_of cl i)) = Some s'" for i s'
  proof -
    obtain t where t: "hm_get shares (n_name (node_of cl i)) = Some t" "s' = bound i t"
      using get [OF i] s' by (cases "hm_get shares (n_name (node_of cl i))") auto
    then have "good_share ?cl ?lines floor_at start i t" using pl i by (auto simp: placement_ok_def m(1) project_total)
    then show ?thesis using rebound_share [OF ok i _ _ now] t(2) i by (simp add: bound_def)
  qed
  let ?names = "chosen_names immediate ?nodes (rb_allocations r)"
  have same_names: "distinct ?names \<and> set ?names = set ns"
  proof (cases "start' = floor_at")
    case False
    then have "?names = map n_name (filter (\<lambda>n. n_name n \<in> set ns) (cs_nodes cl))"
      using keys' by (simp add: chosen_names_def im filter_map comp_def project_total)
    then show ?thesis using names ns(3) by (auto simp: distinct_map_filter project_total)
  qed (simp add: chosen_names_def im ns(1))
  then have "length ?names = needed_nodes job" using ns(1,2) distinct_card by metis
  moreover have "\<forall>name \<in> set ?names. unreserved job name (cs_reservations cl) start (job_duration job)"
    if "start < now + duration_days 365"
    using pl now that same_names by (simp add: placement_ok_def m(1))
  ultimately have "placement_ok cl now job lines start ?names (rb_allocations r)"
    using same_names ns(3,4) now keys' share rb by (auto simp: placement_ok_def m(1) rebound_def project_total)
  moreover have "(n_name (node_of cl i), d) \<in> set allowed"
    if "i < length (cs_nodes cl)" "hm_get (rb_allocations r) (n_name (node_of cl i)) = Some s'" "d \<in> set (device_ids s' gpu_gres)" for i s' d
    using share [OF that(1,2)] that(3) by (auto simp: project_total)
  then have "\<forall>node \<in> set (cs_nodes cl). \<forall>s. hm_get (rb_allocations r) (n_name node) = Some s \<longrightarrow>
      (\<forall>i \<in> set (device_ids s gpu_gres). (n_name node, i) \<in> set allowed)" by (metis in_set_conv_nth)
  ultimately show ?thesis using ns(4) m(1) by blast
qed

section \<open>The whole plan\<close>

text \<open>Devices that satisfy the constraints, agree on the key of the group and, where one is asked for, share a fabric block.\<close>

definition devices_meet :: "constraints \<Rightarrow> fabric_block option \<Rightarrow> cluster_state \<Rightarrow> (string, resource_allocations) hashmap \<Rightarrow> bool" where
  "devices_meet c block cl shares = (\<exists>key. \<forall>node \<in> set (cs_nodes cl). \<forall>s. hm_get shares (n_name node) = Some s \<longrightarrow>
     (\<forall>i \<in> set (device_ids s gpu_gres). \<exists>gpu \<in> set (rs_gpus (n_total_resources node)).
        gr_stable_id gpu = i \<and> matches_gpu c gpu \<and> group_key c (n_name node) gpu = Some key
        \<and> (case block of None \<Rightarrow> True | Some b \<Rightarrow> (n_name node, i) \<in> set (block_members b))))"

definition plan_ok ::
  "constraints \<Rightarrow> fabric_block option set \<Rightarrow> cluster_state \<Rightarrow> instant \<Rightarrow> job \<Rightarrow> node_timeline list \<Rightarrow> (assignment \<times> instant) option \<Rightarrow> bool" where
  "plan_ok c blocks cl now job lines best = (case best of
     None \<Rightarrow> True
   | Some (a, start) \<Rightarrow> as_job_id a = j_job_id job \<and> placement_ok cl now job lines start (as_nodes a) (as_per_node_alloc a)
       \<and> (\<exists>block \<in> blocks. devices_meet c block cl (as_per_node_alloc a)))"

lemma group_devices:
  assumes names: "distinct (map n_name (cs_nodes cl))" and group: "allowed \<in> set (gpu_groups c block (cs_nodes cl))"
    and shares: "\<forall>node \<in> set (cs_nodes cl). \<forall>s. hm_get shares (n_name node) = Some s \<longrightarrow>
      (\<forall>i \<in> set (device_ids s gpu_gres). (n_name node, i) \<in> set allowed)"
  shows "devices_meet c block cl shares"
proof -
  obtain key where key: "set allowed = snd ` {e \<in> set (concat (map (keyed_gpus c block) (cs_nodes cl))). fst e = key}"
    using group by (auto simp: gpu_groups_def Let_def)
  have "\<exists>gpu \<in> set (rs_gpus (n_total_resources node)). gr_stable_id gpu = i \<and> matches_gpu c gpu
      \<and> group_key c (n_name node) gpu = Some key
      \<and> (case block of None \<Rightarrow> True | Some b \<Rightarrow> (n_name node, i) \<in> set (block_members b))"
    if node: "node \<in> set (cs_nodes cl)" and i: "(n_name node, i) \<in> set allowed" for node i
  proof -
    obtain other where other: "other \<in> set (cs_nodes cl)" "(key, n_name node, i) \<in> set (keyed_gpus c block other)"
      using i unfolding key by auto
    then have "n_name other = n_name node" by (auto simp: keyed_gpus_def set_map_filter split: if_splits)
    then have "other = node" using names node other(1) by (auto simp: distinct_map inj_on_def)
    then show ?thesis
      using other(2) by (auto simp: keyed_gpus_def set_map_filter split: if_splits option.splits)
  qed
  then show ?thesis using shares unfolding devices_meet_def by blast
qed

lemma plan_group_returns:
  assumes ok: "plannable cl job lines" and group: "allowed \<in> set (gpu_groups c block (cs_nodes cl))" and block: "block \<in> blocks"
    and best: "plan_ok c blocks cl now job lines best"
  shows "now \<le> floor_at \<Longrightarrow>
    \<exists>best'. plan_group view block c job dem (projected c x allowed cl) lines gate now best floor_at = Some best'
      \<and> plan_ok c blocks cl now job lines best'"
proof (induction "nat (now + duration_days 365 - floor_at)" arbitrary: floor_at rule: less_induct)
  case less
  let ?cl = "projected c x allowed cl" and ?nodes = "map (project_node c x allowed) (cs_nodes cl)"
  obtain immediate trial where pass: "schedule_jobs_with None [block_job c job] ?cl floor_at False gate
      (trial_scheduler (trial_timelines lines ?nodes)) = Some (immediate, trial)"
    using trial_pass [OF ok] by blast
  note unfold = plan_group.simps [of view block c job dem ?cl lines gate now best floor_at]
  show ?case
  proof (cases "trial_outcome (j_job_id job) (bs_timelines trial)")
    case None
    then show ?thesis using best pass by (simp add: unfold)
  next
    case (Some y)
    obtain start m where y: "y = (start, m)" by (cases y)
    define r where "r = rebind_nodes view block (has_properties c) job (demand_gpu_type dem) start lines ?nodes m"
    let ?stop = "(j_idle_fill job \<and> now < start) \<or> (case best of None \<Rightarrow> False | Some (_, at_time) \<Rightarrow> at_time \<le> start)"
    consider "?stop" | "\<not> ?stop" "rb_valid r" | "\<not> ?stop" "\<not> rb_valid r" by blast
    then show ?thesis
    proof cases
      case 1
      then show ?thesis using best pass Some y by (simp add: unfold)
    next
      case 2
      note plan = trial_plan [OF ok less.prems pass Some [unfolded y] r_def 2(2)]
      define a where "a = \<lparr>as_job_id = j_job_id job, as_nodes = chosen_names immediate ?nodes (rb_allocations r),
          as_per_node_alloc = rb_allocations r\<rparr>"
      have names: "distinct (map n_name (cs_nodes cl))" using ok by (simp add: plannable_def cluster_ok_def)
      have "plan_ok c blocks cl now job lines (Some (a, start))"
        using plan group_devices [OF names group] block by (auto simp: plan_ok_def a_def)
      moreover have "plan_group view block c job dem ?cl lines gate now best floor_at = Some (Some (a, start))"
        using pass Some y 2 by (cases immediate) (auto simp: unfold r_def Let_def a_def chosen_names_def)
      ultimately show ?thesis by blast
    next
      case 3
      show ?thesis
      proof (cases "\<exists>next. rb_retry_at r = Some next \<and> floor_at < next \<and> next < now + duration_days 365")
        case True
        then obtain nxt where nxt: "rb_retry_at r = Some nxt" "floor_at < nxt" "nxt < now + duration_days 365" by blast
        then have "plan_group view block c job dem ?cl lines gate now best floor_at
            = plan_group view block c job dem ?cl lines gate now best nxt"
          using pass Some y 3 by (subst unfold) (auto simp: r_def Let_def)
        then show ?thesis using less.hyps [of nxt] nxt less.prems by simp
      next
        case False
        then consider "rb_retry_at r = None"
          | nxt where "rb_retry_at r = Some nxt" "nxt \<le> floor_at \<or> now + duration_days 365 \<le> nxt"
          by (cases "rb_retry_at r") force+
        then have "plan_group view block c job dem ?cl lines gate now best floor_at = Some best"
          by cases (use pass Some y 3 in \<open>auto simp: unfold r_def Let_def\<close>)
        then show ?thesis using best by blast
      qed
    qed
  qed
qed

lemma plan_groups_returns:
  assumes ok: "plannable cl job lines" and block: "block \<in> blocks"
  shows "set groups \<subseteq> set (gpu_groups c block (cs_nodes cl)) \<Longrightarrow> plan_ok c blocks cl now job lines best \<Longrightarrow>
    \<exists>best'. plan_groups view block c job dem cl lines gate now groups best = Some best' \<and> plan_ok c blocks cl now job lines best'"
proof (induction groups arbitrary: best)
  case (Cons allowed groups)
  show ?case
  proof (cases "(of_nat (length allowed) :: u64) < demand_total dem")
    case False
    obtain best1 where "plan_group view block c job dem (projected c (js_exclusive (j_spec job)) allowed cl) lines gate now best now = Some best1"
      "plan_ok c blocks cl now job lines best1"
      using plan_group_returns [OF ok _ block Cons.prems(2) order_refl, of allowed] Cons.prems(1) by force
    then show ?thesis using Cons.IH [of best1] Cons.prems(1) False by simp
  qed (use Cons in simp)
qed simp

lemma plan_blocks_returns:
  assumes ok: "plannable cl job lines"
  shows "set bs \<subseteq> blocks \<Longrightarrow> plan_ok c blocks cl now job lines best \<Longrightarrow>
    \<exists>best'. plan_blocks view c job dem cl lines gate now bs best = Some best' \<and> plan_ok c blocks cl now job lines best'"
proof (induction bs arbitrary: best)
  case (Cons block bs)
  obtain best1 where "plan_groups view block c job dem cl lines gate now (gpu_groups c block (cs_nodes cl)) best = Some best1"
      "plan_ok c blocks cl now job lines best1"
    using plan_groups_returns [OF ok _ order_refl Cons.prems(2), of block] Cons.prems(1) by force
  then show ?case using Cons.IH [of best1] Cons.prems(1) by simp
qed simp

lemma plan_gpu_job_returns:
  assumes "plannable cl job lines"
  shows "\<exists>best. plan_gpu_job view job cl lines gate now = Some best
    \<and> (case constraints_parse (js_constraint (j_spec job)) of
         Inl _ \<Rightarrow> best = None
       | Inr c \<Rightarrow> plan_ok c (set (candidate_blocks c view)) cl now job lines best)"
proof -
  have "plan_ok c blocks cl now job lines None" for c blocks by (simp add: plan_ok_def)
  then show ?thesis
    using plan_blocks_returns [OF assms order_refl] unfolding plan_gpu_job_def
    by (auto split: sum.split)
qed

interpretation planned: gpu_planning "map_option plan_gpu_job fabric"
proof unfold_locales
  fix plan cl job lines gate now assume plan: "map_option plan_gpu_job fabric = Some plan" and ok: "plannable cl job lines"
  then obtain view where view: "plan = plan_gpu_job view" by auto
  show "\<exists>best. plan job cl lines gate now = Some best" using plan_gpu_job_returns [OF ok] unfolding view by blast
  fix a start assume "plan job cl lines gate now = Some (Some (a, start))"
  then show "as_job_id a = j_job_id job \<and> placement_ok cl now job lines start (as_nodes a) (as_per_node_alloc a)"
    using plan_gpu_job_returns [OF ok, of view gate now] unfolding view
    by (auto simp: plan_ok_def split: sum.splits)
qed

end
