(* ===== verification/Backfill_Props.thy ===== *)
theory Backfill_Props
  imports Gpu_Plan
begin

text \<open>
  The properties of a scheduling pass: it returns, never gives out more than the nodes have, and gives every job what
  its placement promises.
\<close>

section \<open>The start of a pass\<close>

text \<open>
  A cluster a pass can start from: sound inventories and ledgers, counters wide enough for \<open>n\<close> more shares, no node
  whose jobs should have ended before now, no node with only memory in use.
\<close>

definition fleet_ok :: "cluster_state \<Rightarrow> instant \<Rightarrow> nat \<Rightarrow> bool" where
  "fleet_ok cl now n =
     (cluster_ok cl
      \<and> (\<forall>node \<in> set (cs_nodes cl). inventory_wf (n_total_resources node)
          \<and> ra_wf (n_alloc_resources node) \<and> ra_pos (n_alloc_resources node)
          \<and> fits_counters (\<lambda>q. ra_view (n_alloc_resources node) q + n * node_cap (n_total_resources node) q)
          \<and> (if 0 < ra_cpus (n_alloc_resources node) \<or> has_devices (n_alloc_resources node)
             then (case hm_get (cs_busy_until cl) (n_name node) of None \<Rightarrow> True | Some t \<Rightarrow> now < t)
             else ra_memory_mb (n_alloc_resources node) = 0)))"

definition first_lines :: "cluster_state \<Rightarrow> instant \<Rightarrow> node_timeline list" where
  "first_lines cl now = map (\<lambda>(node, line). busy_timeline cl now node line) (zip (cs_nodes cl) (init_timelines (cs_nodes cl)))"

lemma no_devices_view:
  assumes "\<not> has_devices a"
  shows "ra_view a (QDevice g i) = 0"
proof (cases "hm_get (ra_devices a) g")
  case (Some ds)
  then have "ds \<in> set (hm_values (ra_devices a))" by (metis hm_get_mem image_eqI list.set_map snd_conv)
  then show ?thesis using assms Some by (auto simp: has_devices_def list_ex_iff)
qed simp

lemma busy_line:
  assumes fleet: "fleet_ok cl now n" and node: "node \<in> set (cs_nodes cl)"
    and line: "line = busy_timeline cl now node (timeline_new (n_name node) (n_total_resources node))"
  shows "line_ok node line \<and> load (tl_intervals line) now = ra_view (n_alloc_resources node)
    \<and> demand (tl_intervals line) = ra_view (n_alloc_resources node) \<and> iv_job_id ` set (tl_intervals line) \<subseteq> {None}"
proof -
  let ?new = "timeline_new (n_name node) (n_total_resources node)" and ?a = "n_alloc_resources node"
  have ok: "inventory_wf (n_total_resources node)" "ra_wf ?a" "ra_pos ?a"
    "fits_counters (\<lambda>q. ra_view ?a q + n * node_cap (n_total_resources node) q)"
    using fleet node by (simp_all add: fleet_ok_def)
  have a: "fits_counters (ra_view ?a)" by (rule fits_counters_mono [OF ok(4)]) simp
  have new: "tl_intervals ?new = []" "line_ok node ?new"
    using ok(1) by (simp_all add: timeline_new_def line_ok_def timeline_wf_def demand_def gres_total_def)
  show ?thesis
  proof (cases "0 < ra_cpus ?a \<or> has_devices ?a")
    case True
    define stop where "stop = (case hm_get (cs_busy_until cl) (n_name node) of Some t \<Rightarrow> t | None \<Rightarrow> now + duration_seconds (24 * 3600))"
    have stop: "now < stop"
      using fleet node True
      by (auto simp: fleet_ok_def stop_def duration_seconds_def nanos_per_sec_def split: option.splits)
    have eq: "line = reserve_for_job now stop ?a None ?new" using True by (simp add: line busy_timeline_def reserve_def stop_def)
    have "timeline_wf (tl_intervals line)"
      unfolding eq using new ok a stop
      by (intro timeline_wf_reserve) (simp_all add: line_ok_def fits_counters_def demand_def gres_total_def del: ra_view.simps)
    moreover have "load (tl_intervals line) now q = ra_view ?a q \<and> demand (tl_intervals line) q = ra_view ?a q" for q
      unfolding eq load_reserve demand_reserve new(1) using stop by (simp add: load_def demand_def)
    moreover have "iv_job_id ` set (tl_intervals line) \<subseteq> {None}" by (auto simp: eq reserve_for_job_def new(1))
    ultimately show ?thesis using new(2) by (auto simp: line_ok_def eq reserve_for_job_def)
  next
    case False
    then have "ra_cpus ?a = 0" "ra_memory_mb ?a = 0" using fleet node by (auto simp: fleet_ok_def word_gt_0)
    then have zero: "ra_view ?a q = 0" for q using False no_devices_view [of ?a] by (cases q) (simp_all del: ra_view.simps(3))
    moreover have "line = ?new" using False by (simp add: line busy_timeline_def)
    ultimately show ?thesis using new by (simp add: fun_eq_iff load_def demand_def del: ra_view.simps)
  qed
qed

lemma first_pass_ok:
  assumes "fleet_ok cl now n"
  shows "pass_ok jobs cl now (first_lines cl now) n {} (pass_new plan_gpu pending (first_lines cl now) gate)"
proof -
  let ?lines = "first_lines cl now"
  have nth: "?lines ! i = busy_timeline cl now (node_of cl i) (timeline_new (n_name (node_of cl i)) (n_total_resources (node_of cl i)))"
    if "i < length (cs_nodes cl)" for i using that by (simp add: first_lines_def init_timelines_def)
  have len: "length ?lines = length (cs_nodes cl)" by (simp add: first_lines_def init_timelines_def)
  have busy: "line_ok (node_of cl i) (?lines ! i) \<and> load (tl_intervals (?lines ! i)) now = ra_view (n_alloc_resources (node_of cl i))
      \<and> demand (tl_intervals (?lines ! i)) = ra_view (n_alloc_resources (node_of cl i))
      \<and> iv_job_id ` set (tl_intervals (?lines ! i)) \<subseteq> {None}"
    if "i < length (cs_nodes cl)" for i by (rule busy_line [OF assms nth_mem [OF that] nth [OF that]])
  have "lines_ok cl ?lines" using busy len by (simp add: list_all2_conv_all_nth)
  moreover have "counters_ok n cl ?lines" using assms busy by (simp add: counters_ok_def fleet_ok_def)
  moreover have "reserved_ids ?lines = {}" using busy len by (fastforce simp: reserved_ids_image set_eq_iff)
  ultimately show ?thesis by (simp add: pass_ok_def pass_new_def given_within_def given_def)
qed

lemma schedule_ok:
  assumes fleet: "fleet_ok cl now (min (length pending) (bs_max_jobs self))" and ids: "distinct (map j_job_id pending)"
    and d: "\<forall>job \<in> set pending. 0 < job_duration job"
  obtains p ids' self' where "schedule fabric pending cl now self = Some (ps_assignments p, self')"
    and "pass_ok (set pending) cl now (first_lines cl now) 0 ids' p"
proof -
  let ?n = "min (length pending) (bs_max_jobs self)" and ?gate = "gate_new (cs_preemption_handoffs cl)"
    and ?plan = "map_option plan_gpu_job fabric"
  define p0 where "p0 = pass_new ?plan pending (first_lines cl now) ?gate"
  have "pass_ok (set pending) cl now (first_lines cl now) (length [0..<?n]) {} p0"
    using first_pass_ok [OF fleet] by (simp add: p0_def)
  moreover have "distinct (map (\<lambda>i. j_job_id (pending ! i)) [0..<?n])"
    using ids by (auto simp: distinct_conv_nth)
  moreover have "\<forall>i \<in> set [0..<?n]. pending ! i \<in> set pending \<and> 0 < job_duration (pending ! i)" using d by auto
  ultimately obtain p ids' where "schedule_from ?plan cl now pending [0..<?n] p0 = Some p"
    "pass_ok (set pending) cl now (first_lines cl now) 0 ids' p"
    using planned.schedule_from_ok [of cl "set pending" now "first_lines cl now" "[0..<?n]" "{}" p0 pending fabric] fleet
    by (auto simp: fleet_ok_def)
  then show thesis
    using that by (simp add: schedule_def schedule_jobs_with_def p0_def first_lines_def)
qed

lemma given_bound:
  assumes fleet: "fleet_ok cl now n" and ok: "pass_ok jobs cl now (first_lines cl now) 0 ids p" and node: "node \<in> set (cs_nodes cl)"
  shows "ra_view (n_alloc_resources node) q + given (ps_assignments p) (n_name node) q
    \<le> max (ra_view (n_alloc_resources node) q) (node_cap (n_total_resources node) q)"
proof -
  obtain i where i: "i < length (cs_nodes cl)" "node = node_of cl i" using node by (auto simp: in_set_conv_nth)
  have "first_lines cl now ! i = busy_timeline cl now node (timeline_new (n_name node) (n_total_resources node))"
    using i by (simp add: first_lines_def init_timelines_def)
  then have "load (tl_intervals (first_lines cl now ! i)) now = ra_view (n_alloc_resources node)"
    using busy_line [OF fleet node] by blast
  then show ?thesis using ok i unfolding pass_ok_def given_within_def by metis
qed

section \<open>Properties\<close>

text \<open>A cluster of one node with eight cores, two of them in use, and a job that asks for one.\<close>

definition sample_fleet :: cluster_state where
  "sample_fleet = \<lparr>cs_nodes = [(node_new ''n1'' (rs_default\<lparr>rs_cpus := 8, rs_memory_mb := 16000\<rparr>))
       \<lparr>n_state := NS_Mixed, n_alloc_resources := with_scalar 2 4000\<rparr>],
     cs_reservations = [], cs_topology = None, cs_busy_until = [(''n1'', 500)], cs_preemption_handoffs = []\<rparr>"

definition sample_queue :: "job list" where
  "sample_queue = [job_new 0 7 (job_spec_default\<lparr>js_time_limit := Some 60\<rparr>)]"

lemma sample_counters:
  "fits_counters (\<lambda>q. ra_view (with_scalar 2 4000) q + 1 * node_cap (rs_default\<lparr>rs_cpus := 8, rs_memory_mb := 16000\<rparr>) q)"
proof -
  let ?total = "rs_default\<lparr>rs_cpus := 8, rs_memory_mb := 16000\<rparr>" and ?a = "with_scalar 2 4000"
  have view: "ra_view ?a q + 1 * node_cap ?total q = (case q of QCpus \<Rightarrow> 10 | QMemory \<Rightarrow> 20000 | _ \<Rightarrow> 0)" for q
    by (cases q) (simp_all add: with_scalar_def ra_default_def rs_default_def)
  show ?thesis
    unfolding view fits_counters_def gres_total_def
  proof (intro conjI allI)
    show "(case q of QCpus \<Rightarrow> 10 | QMemory \<Rightarrow> 20000 | _ \<Rightarrow> 0) \<le> ra_cap q" for q by (cases q) simp_all
  qed simp
qed

lemma sample_inventory: "inventory_wf (rs_default\<lparr>rs_cpus := 8, rs_memory_mb := 16000\<rparr>)"
  by (simp add: inventory_wf_def request_wf_def rs_default_def)

lemma sample_fleet_ok: "fleet_ok sample_fleet 100 (min (length sample_queue) (bs_max_jobs (scheduler_new 10)))"
proof -
  have "ra_wf (with_scalar 2 4000)" "ra_pos (with_scalar 2 4000)"
    by (simp_all add: with_scalar_def ra_default_def ra_wf_def ra_pos_def)
  then show ?thesis
    using sample_counters sample_inventory
    by (simp add: fleet_ok_def sample_fleet_def sample_queue_def scheduler_new_def cluster_ok_def topology_ok_def
        node_new_def with_scalar_def)
qed

lemma sample_queue_ok: "distinct (map j_job_id sample_queue)" "\<forall>job \<in> set sample_queue. 0 < job_duration job"
  by (simp_all add: sample_queue_def job_duration_def job_new_def)



text \<open>
  C11. Every assignment of a pass is what its job asked for: it is for a different job of the queue each time, on as
  many distinct nodes as the job needs, with a share for exactly these nodes that each of them can give, and on no
  node that a reservation keeps from the job during its run.
\<close>
theorem assignments_meet_requests:
  assumes "fleet_ok cl now (min (length pending) (bs_max_jobs self))" and "distinct (map j_job_id pending)"
    and "\<forall>job \<in> set pending. 0 < job_duration job" and "schedule fabric pending cl now self = Some (as, self')"
  shows "distinct (map as_job_id as) \<and> (\<forall>a \<in> set as. \<exists>job \<in> set pending. assignment_ok cl now job a)"
proof -
  obtain p ids self'' where p: "schedule fabric pending cl now self = Some (ps_assignments p, self'')"
    "pass_ok (set pending) cl now (first_lines cl now) 0 ids p"
    by (rule schedule_ok [OF assms(1-3)])
  then show ?thesis using assms(4) by (simp add: pass_ok_def)
qed

theorem assignments_meet_requests_witness:
  "\<exists>as self'. schedule None sample_queue sample_fleet 100 (scheduler_new 10) = Some (as, self')
     \<and> (\<forall>a \<in> set as. as_job_id a = 7 \<and> length (as_nodes a) = 1)"
proof -
  obtain as self' where s: "schedule None sample_queue sample_fleet 100 (scheduler_new 10) = Some (as, self')"
    using schedule_ok [OF sample_fleet_ok sample_queue_ok] by metis
  have "j_job_id job = 7 \<and> needed_nodes job = 1" if "job \<in> set sample_queue" for job
    using that by (simp add: sample_queue_def job_new_def needed_nodes_def job_spec_default_def)
  then show ?thesis
    using assignments_meet_requests [OF sample_fleet_ok sample_queue_ok s] s unfolding assignment_ok_def by metis
qed


definition sample_gpu_job :: job where
  "sample_gpu_job = job_new 0 8 (job_spec_default\<lparr>js_time_limit := Some 60, js_constraint := Some ''same(gpu.type)''\<rparr>)"

lemma sample_gpu_constraint:
  "constraints_parse (js_constraint (j_spec sample_gpu_job)) = Inr (constraints_default\<lparr>co_same := [FieldType]\<rparr>)"
  by code_simp

lemma sample_plannable: "plannable sample_fleet sample_gpu_job (first_lines sample_fleet 100)"
proof -
  have "fleet_ok sample_fleet 100 1" using sample_fleet_ok by (simp add: sample_queue_def scheduler_new_def)
  then show ?thesis
    using first_pass_ok [of sample_fleet 100 1 "{}" None "[]" "gate_new []"]
    by (simp add: plannable_def fleet_ok_def pass_ok_def pass_new_def sample_gpu_job_def job_new_def job_duration_def)
qed


end
