(* ===== verification/Scheduler_Loop.thy ===== *)
theory Scheduler_Loop
  imports Backfill_Props
begin

text \<open>
  The inputs and the output of a pass in the scheduler loop (\<^verbatim>\<open>spurctld/src/scheduler_loop.rs\<close>): when the nodes of
  the running jobs are expected free, the handoffs placement released, the assignments that may start. The lookup of
  jobs is that of \<^verbatim>\<open>spurctld/src/cluster.rs\<close> for a filter that names no job ids.
\<close>

section \<open>Lookup of jobs\<close>

record job_filter =
  jf_states :: "job_state list"
  jf_user :: "string option"
  jf_partition :: "string option"
  jf_account :: "string option"
  jf_name :: "string option"
  jf_qos :: "string option"
  jf_reservation :: "string option"
  jf_job_ids :: "u32 list"
  jf_nodes :: "string list"

definition job_filter_default :: job_filter where
  "job_filter_default = \<lparr>jf_states = [], jf_user = None, jf_partition = None, jf_account = None, jf_name = None,
     jf_qos = None, jf_reservation = None, jf_job_ids = [], jf_nodes = []\<rparr>"

text \<open>One dimension of the filter: not given, empty, or matched.\<close>

definition field_matches :: "(string \<Rightarrow> bool) \<Rightarrow> string option \<Rightarrow> bool" where
  "field_matches p f = (case f of None \<Rightarrow> True | Some v \<Rightarrow> v = [] \<or> p v)"

definition filter_matches :: "job_filter \<Rightarrow> job \<Rightarrow> bool" where
  "filter_matches fl j =
     (let listed = (\<lambda>v. map str_trim (str_split CHR '','' v))
      in (jf_states fl = [] \<or> j_state j \<in> set (jf_states fl))
       \<and> (jf_nodes fl = [] \<or> list_ex (\<lambda>n. n \<in> set (jf_nodes fl)) (j_allocated_nodes j))
       \<and> field_matches (\<lambda>u. js_user (j_spec j) = u) (jf_user fl)
       \<and> field_matches (\<lambda>p. js_partition (j_spec j) = Some p) (jf_partition fl)
       \<and> field_matches (\<lambda>a. js_account (j_spec j) = Some a) (jf_account fl)
       \<and> field_matches (\<lambda>n. js_name (j_spec j) \<in> set (listed n)) (jf_name fl)
       \<and> field_matches (\<lambda>q. js_qos (j_spec j) \<in> Some ` set (listed q)) (jf_qos fl)
       \<and> field_matches (\<lambda>r. js_reservation (j_spec j) \<in> Some ` set (listed r)) (jf_reservation fl))"

definition get_jobs :: "job_filter \<Rightarrow> (u32, job) hashmap \<Rightarrow> job list" where
  "get_jobs fl jobs = filter (\<lambda>j. (jf_job_ids fl = [] \<or> j_job_id j \<in> set (jf_job_ids fl)) \<and> filter_matches fl j) (hm_values jobs)"

section \<open>When nodes are expected free\<close>

record scheduler_waits =
  sc_complete_wait_secs :: u32
  sc_kill_wait_secs :: u32
  sc_timeout_kill_wait_secs :: u32

definition min_effective_kill_wait_secs :: u32 where
  "min_effective_kill_wait_secs = 5"

definition effective_kill_wait_secs :: "scheduler_waits \<Rightarrow> u32" where
  "effective_kill_wait_secs sc = max (sc_kill_wait_secs sc) min_effective_kill_wait_secs"

definition effective_timeout_kill_wait_secs :: "scheduler_waits \<Rightarrow> u32" where
  "effective_timeout_kill_wait_secs sc = max (sc_timeout_kill_wait_secs sc) min_effective_kill_wait_secs"

definition busy_until_margin_secs :: i64 where
  "busy_until_margin_secs = 5"

definition i64_sat_add :: "i64 \<Rightarrow> i64 \<Rightarrow> i64" where
  "i64_sat_add a b = max (- (2 ^ 63)) (min (2 ^ 63 - 1) (a + b))"

text \<open>
  The end of one job's hold, before it is raised to the clock. \<open>checked_add\<close> is
  \<^verbatim>\<open>DateTime::checked_add_signed\<close>, which gives nothing outside the dates it can hold.
\<close>

type_synonym date_adder = "instant \<Rightarrow> duration \<Rightarrow> instant option"

definition add_or :: "date_adder \<Rightarrow> instant \<Rightarrow> instant \<Rightarrow> i64 \<Rightarrow> instant" where
  "add_or checked_add far_future start secs =
     (case checked_add start (duration_seconds secs) of None \<Rightarrow> far_future | Some e \<Rightarrow> e)"

definition completing_end :: "date_adder \<Rightarrow> u32 \<Rightarrow> instant \<Rightarrow> job \<Rightarrow> instant" where
  "completing_end checked_add complete_wait now job =
     add_or checked_add (now + unlimited_job_duration) (case j_end_time job of None \<Rightarrow> now | Some e \<Rightarrow> e) (uint complete_wait)"

definition running_end :: "date_adder \<Rightarrow> u32 \<Rightarrow> u32 \<Rightarrow> instant \<Rightarrow> job \<Rightarrow> instant" where
  "running_end checked_add kill_wait timeout_wait now job =
     (let far_future = now + unlimited_job_duration;
          start = (case j_start_time job of None \<Rightarrow> now | Some s \<Rightarrow> s);
          suspended = (case j_suspended_at job of
              None \<Rightarrow> j_suspended_secs job
            | Some since \<Rightarrow> i64_sat_add (j_suspended_secs job) (max (num_seconds (now - since)) 0));
          limit = (case js_time_limit (j_spec job) of None \<Rightarrow> num_seconds unlimited_job_duration | Some d \<Rightarrow> num_seconds d);
          slack = min (i64_sat_add (i64_sat_add limit suspended) (uint timeout_wait)) (num_seconds unlimited_job_duration);
          stop = add_or checked_add far_future start slack
      in case preempt_grace job of
           None \<Rightarrow> stop
         | Some p \<Rightarrow> min stop (add_or checked_add far_future (pp_deadline p) (uint kill_wait + busy_until_margin_secs)))"

definition expected_end :: "date_adder \<Rightarrow> u32 \<Rightarrow> u32 \<Rightarrow> u32 \<Rightarrow> instant \<Rightarrow> job \<Rightarrow> instant" where
  "expected_end checked_add complete_wait kill_wait timeout_wait now job =
     (if j_state job = Completing then completing_end checked_add complete_wait now job
      else running_end checked_add kill_wait timeout_wait now job)"

definition hold_node :: "instant \<Rightarrow> (string, instant) hashmap \<Rightarrow> string \<Rightarrow> (string, instant) hashmap" where
  "hold_node stop m node = hm_insert node (case hm_get m node of None \<Rightarrow> stop | Some e \<Rightarrow> max e stop) m"

definition busy_until_from_running_jobs ::
  "date_adder \<Rightarrow> instant \<Rightarrow> job list \<Rightarrow> u32 \<Rightarrow> u32 \<Rightarrow> u32 \<Rightarrow> (string, instant) hashmap" where
  "busy_until_from_running_jobs checked_add now running complete_wait kill_wait timeout_wait =
     foldl (\<lambda>m job. foldl (hold_node (max (expected_end checked_add complete_wait kill_wait timeout_wait now job) now)) m
                      (held_nodes job)) [] running"

definition running_jobs_busy_until ::
  "date_adder \<Rightarrow> instant \<Rightarrow> scheduler_waits \<Rightarrow> (u32, job) hashmap \<Rightarrow> (string, instant) hashmap" where
  "running_jobs_busy_until checked_add now sc jobs =
     busy_until_from_running_jobs checked_add now (get_jobs (job_filter_default\<lparr>jf_states := [Running, Completing]\<rparr>) jobs)
       (sc_complete_wait_secs sc) (effective_kill_wait_secs sc) (effective_timeout_kill_wait_secs sc)"

section \<open>After the pass\<close>

definition without_released ::
  "(string, u32 list) hashmap \<Rightarrow> (string \<times> u32) list \<Rightarrow> (string, u32 list) hashmap" where
  "without_released handoffs released =
     filter (\<lambda>(_, held). held \<noteq> [])
       (map (\<lambda>(node, owners). (node, filter (\<lambda>owner. \<not> list_ex (\<lambda>(n, ow). n = node \<and> ow = owner) released) owners)) handoffs)"

definition without_unclaimed :: "assignment list \<Rightarrow> u32 set \<Rightarrow> assignment list" where
  "without_unclaimed as unclaimed = filter (\<lambda>a. as_job_id a \<notin> unclaimed) as"

definition claimed_assignments ::
  "fabric_view option \<Rightarrow> job list \<Rightarrow> cluster_state \<Rightarrow> instant \<Rightarrow> u32 set \<Rightarrow> backfill_scheduler
    \<Rightarrow> (assignment list \<times> backfill_scheduler) option" where
  "claimed_assignments fabric pending cl now unclaimed self =
     map_option (map_prod (\<lambda>as. without_unclaimed as unclaimed) id) (schedule fabric pending cl now self)"

section \<open>The expected ends\<close>

lemma hold_nodes:
  "hm_get (foldl (hold_node stop) m ns) n =
     (if n \<in> set ns then Some (case hm_get m n of None \<Rightarrow> stop | Some e \<Rightarrow> max e stop) else hm_get m n)"
  by (induction ns arbitrary: m) (auto simp: hold_node_def hm_simps split: option.splits)

definition holds_on :: "job list \<Rightarrow> string \<Rightarrow> job set" where
  "holds_on running n = {job \<in> set running. n \<in> set (held_nodes job)}"

lemma busy_until_latest:
  fixes checked_add now cw kw tw
  defines "stop \<equiv> \<lambda>job. max (expected_end checked_add cw kw tw now job) now"
  shows "hm_get (busy_until_from_running_jobs checked_add now running cw kw tw) n =
    (if holds_on running n = {} then None else Some (Max (stop ` holds_on running n)))"
proof (induction running rule: rev_induct)
  case Nil
  then show ?case by (simp add: busy_until_from_running_jobs_def holds_on_def)
next
  case (snoc job running)
  have "holds_on (running @ [job]) n = (if n \<in> set (held_nodes job) then insert job (holds_on running n) else holds_on running n)"
    by (auto simp: holds_on_def)
  moreover have "finite (holds_on running n)" by (simp add: holds_on_def)
  ultimately show ?case
    using snoc by (auto simp: busy_until_from_running_jobs_def hold_nodes stop_def max.commute)
qed

section \<open>Properties\<close>

text \<open>A job with a limit of one minute, on eight cores of \<open>n1\<close> since instant 0.\<close>

definition sample_overrun :: job where
  "sample_overrun = (job_new 0 7 (job_spec_default\<lparr>js_time_limit := Some (duration_seconds 60)\<rparr>))
     \<lparr>j_state := Running, j_start_time := Some 0, j_allocated_nodes := [''n1''], j_per_node_alloc := [(''n1'', with_scalar 8 4000)]\<rparr>"

definition sample_overrun_fleet :: cluster_state where
  "sample_overrun_fleet = \<lparr>cs_nodes = [(node_new ''n1'' (rs_default\<lparr>rs_cpus := 8, rs_memory_mb := 16000\<rparr>))
       \<lparr>n_state := NS_Allocated, n_alloc_resources := with_scalar 8 4000\<rparr>],
     cs_reservations = [], cs_topology = None,
     cs_busy_until = busy_until_from_running_jobs (\<lambda>t d. Some (t + d)) (duration_seconds 1000) [sample_overrun] 60 30 30,
     cs_preemption_handoffs = []\<rparr>"

definition sample_overrun_line :: node_timeline where
  "sample_overrun_line = \<lparr>tl_node_name = ''n1'', tl_total = rs_default\<lparr>rs_cpus := 8, rs_memory_mb := 16000\<rparr>,
     tl_intervals = [\<lparr>iv_start = duration_seconds 1001, iv_end = duration_seconds 1000,
        iv_resources = with_scalar 8 4000, iv_job_id = None\<rparr>]\<rparr>"

lemma overrun_search:
  "earliest_start sample_overrun_line (rs_default\<lparr>rs_cpus := 8\<rparr>) (duration_seconds 60) (duration_seconds 1001) = Some (duration_seconds 1001)"
  unfolding earliest_start_def
  by (subst earliest_loop.simps)
    (simp add: sample_overrun_line_def sweep_new_def advance_to_def duration_blocker_def overlap_prefix_end_def
      duration_seconds_def duration_days_def nanos_per_sec_def ra_add_def ra_subtract_def sat_add_def sat_sub_def gpu_counts_def
      can_satisfy_with_allocated_def rs_default_def ra_default_def with_scalar_def)

text \<open>
  C40. The nodes of a job that runs past its expected end are planned as free. When every job that holds a node is past the
  end computed for it, the clock of that computation is taken instead; a pass reads its own clock afterwards, so the
  interval it reserves for what is in use on the node is empty, and at every instant from then on the timeline of the
  node counts nothing in use.
\<close>
theorem overrun_node_is_planned_as_free:
  assumes "cs_busy_until cl = busy_until_from_running_jobs checked_add clock running cw kw tw" and "clock \<le> now"
    and "job \<in> set running" and "n_name node \<in> set (held_nodes job)"
    and "\<forall>job \<in> set running. n_name node \<in> set (held_nodes job) \<longrightarrow> expected_end checked_add cw kw tw clock job \<le> clock"
    and "now \<le> time"
  shows "accumulated_at (busy_timeline cl now node (timeline_new (n_name node) (n_total_resources node))) time = ra_default"
proof -
  have "(\<lambda>job. max (expected_end checked_add cw kw tw clock job) clock) ` holds_on running (n_name node) = {clock}"
    using assms(3-5) by (force simp: holds_on_def max_def)
  moreover have "holds_on running (n_name node) \<noteq> {}" using assms(3,4) by (auto simp: holds_on_def)
  ultimately have "hm_get (cs_busy_until cl) (n_name node) = Some clock" by (simp add: assms(1) busy_until_latest)
  then show ?thesis
    using assms(2,6)
    by (simp add: busy_timeline_def reserve_def reserve_for_job_def timeline_new_def accumulated_at_def active_prefix_end_def)
qed

theorem overrun_node_is_planned_as_free_witness:
  "n_alloc_resources (hd (cs_nodes sample_overrun_fleet)) = with_scalar 8 4000
   \<and> accumulated_at (hd (first_lines sample_overrun_fleet (duration_seconds 1001))) (duration_seconds 1001) = ra_default
   \<and> earliest_start (hd (first_lines sample_overrun_fleet (duration_seconds 1001))) (rs_default\<lparr>rs_cpus := 8\<rparr>)
       (duration_seconds 60) (duration_seconds 1001) = Some (duration_seconds 1001)"
proof -
  let ?node = "hd (cs_nodes sample_overrun_fleet)" and ?now = "duration_seconds 1001"
  have held: "held_nodes sample_overrun = [''n1'']" by (simp add: sample_overrun_def held_nodes_def is_held_on_def job_new_def)
  have past: "expected_end (\<lambda>t d. Some (t + d)) 60 30 30 (duration_seconds 1000) sample_overrun = duration_seconds 90"
    by (simp add: expected_end_def running_end_def sample_overrun_def job_new_def add_or_def i64_sat_add_def preempt_grace_def Let_def
        unlimited_job_duration_def duration_days_def)
  have le: "duration_seconds 90 \<le> duration_seconds 1000" "duration_seconds 1000 \<le> ?now"
    by (simp_all add: duration_seconds_def nanos_per_sec_def)
  have line: "hd (first_lines sample_overrun_fleet ?now) =
      busy_timeline sample_overrun_fleet ?now ?node (timeline_new (n_name ?node) (n_total_resources ?node))"
    by (simp add: first_lines_def init_timelines_def sample_overrun_fleet_def)
  have "accumulated_at (hd (first_lines sample_overrun_fleet ?now)) ?now = ra_default"
    unfolding line
    by (rule overrun_node_is_planned_as_free [where running = "[sample_overrun]" and job = sample_overrun
          and clock = "duration_seconds 1000" and checked_add = "\<lambda>t d. Some (t + d)" and cw = 60 and kw = 30 and tw = 30])
      (use held past le in \<open>simp_all add: sample_overrun_fleet_def node_new_def\<close>)
  moreover have "hm_get (cs_busy_until sample_overrun_fleet) ''n1'' = Some (duration_seconds 1000)"
    using held past le by (simp add: sample_overrun_fleet_def busy_until_latest holds_on_def Collect_conv_if conj_commute)
  then have "hd (first_lines sample_overrun_fleet ?now) = sample_overrun_line"
    unfolding line
    by (simp add: sample_overrun_fleet_def busy_timeline_def reserve_def reserve_for_job_def timeline_new_def node_new_def
        sample_overrun_line_def with_scalar_def)
  ultimately show ?thesis using overrun_search by (simp add: sample_overrun_fleet_def)
qed

end
