(* ===== verification/Requests.thy ===== *)
theory Requests
  imports Cluster_Ops "HOL-Library.Sublist"
begin

text \<open>
  The requests of the controller (\<^verbatim>\<open>spurctld/src/cluster.rs\<close>): every handler reads the tables, refuses or
  proposes entries to the replicated log, and acts on the response of the applied entry.

  The Raft library is not part of the sources: \<open>ct_client_write\<close> is its \<^verbatim>\<open>client_write\<close>, which
  commits an entry, among entries of other requests, and returns the tables afterwards with the response of
  applying it or an error. The tables a handler reads after a proposal are the ones the proposal returned. Mail,
  accounting notifications, hook scripts, metrics and the wake-up of the scheduler change no table and are left
  out; an error is its branch of the handler, without the text of the message. \<open>now\<close> is the clock of the leader.
\<close>

section \<open>Environment\<close>

datatype propose_error = RaftFailed | OutcomeUnknown

datatype request_error =
    JobNotFound job_id
  | NodeNotFound string
  | AlreadyTerminal job_id job_state
  | NotJobOwner string string string
  | WrongState job_id job_state
  | IsInteractive job_id
  | InGracePeriod job_id
  | WrongRun job_id u32 u32
  | MissingShare job_id string
  | FabricRefused job_id
  | PlacementHeld job_id
  | NodeExcluded job_id string
  | LostRace job_id
  | NodeNotAllocated job_id string
  | NotHeld job_id
  | PreemptionDisabled job_id
  | NodeBusy string
  | NotSrunJob job_id
  | NotStepDispatch job_id
  | NothingRequeued job_id
  | LateRequeue "job option"
  | ProposeFailed propose_error

record controller =
  ct_config :: cluster_config
  ct_interval_secs :: u32
  ct_max_launch_backoff_secs :: u64
  ct_scheduler_interval_secs :: u32
  ct_kill_wait_secs :: u32
  ct_client_write :: "wal_operation \<Rightarrow> cluster \<Rightarrow> cluster \<times> (propose_error + client_response)"

type_synonym 'a handled = "cluster \<times> (request_error + 'a)"

definition propose :: "controller \<Rightarrow> instant \<Rightarrow> wal_operation \<Rightarrow> cluster \<Rightarrow> cluster \<times> (propose_error + client_response)" where
  "propose ct now op s = ct_client_write ct (stamp_occurred_at now op) s"

text \<open>A proposal followed by the \<^verbatim>\<open>?\<close> operator.\<close>

definition proposing ::
  "controller \<Rightarrow> instant \<Rightarrow> wal_operation \<Rightarrow> (client_response \<Rightarrow> cluster \<Rightarrow> 'a handled) \<Rightarrow> cluster \<Rightarrow> 'a handled" where
  "proposing ct now op k s =
     (case propose ct now op s of
        (s', Inl e) \<Rightarrow> (s', Inl (ProposeFailed e))
      | (s', Inr resp) \<Rightarrow> k resp s')"

definition check_job_owner :: "string \<Rightarrow> bool \<Rightarrow> string \<Rightarrow> string \<Rightarrow> request_error + unit" where
  "check_job_owner user is_internal owner action =
     (if is_internal \<or> (user \<noteq> [] \<and> user = owner) then Inr () else Inl (NotJobOwner user owner action))"

section \<open>Delays\<close>

definition max_launch_backoff_secs :: u64 where
  "max_launch_backoff_secs = 86400"

definition sat_mul :: "u64 \<Rightarrow> u64 \<Rightarrow> u64" where
  "sat_mul a b = (if unat a * unat b < 2 ^ 64 then a * b else - 1)"

definition launch_backoff_secs :: "u32 \<Rightarrow> u64 \<Rightarrow> u32 \<Rightarrow> u64" where
  "launch_backoff_secs interval_secs cap requeue_count =
     (let base = max (ucast interval_secs * 2 + 3) 5
      in min (min (sat_mul base (push_bit (unat (min requeue_count 16)) 1)) cap) max_launch_backoff_secs)"

definition requeue_hold_secs :: "u32 \<Rightarrow> u32 \<Rightarrow> int" where
  "requeue_hold_secs scheduler_interval_secs kill_wait_secs =
     max (uint scheduler_interval_secs * 2 + 3) (uint kill_wait_secs)"

definition not_before :: "instant option \<Rightarrow> instant \<Rightarrow> instant" where
  "not_before user_begin hold = (case user_begin of None \<Rightarrow> hold | Some b \<Rightarrow> max b hold)"

definition launch_backoff_until :: "controller \<Rightarrow> instant \<Rightarrow> job \<Rightarrow> instant" where
  "launch_backoff_until ct now job =
     (let hold_secs = launch_backoff_secs (ct_interval_secs ct) (ct_max_launch_backoff_secs ct) (j_requeue_count job)
      in not_before (js_begin_time (j_spec job)) (now + duration_seconds (uint hold_secs)))"

definition requeue_hold_until :: "controller \<Rightarrow> instant \<Rightarrow> job \<Rightarrow> instant" where
  "requeue_hold_until ct now job =
     not_before (js_begin_time (j_spec job))
       (now + duration_seconds (requeue_hold_secs (ct_scheduler_interval_secs ct) (ct_kill_wait_secs ct)))"

section \<open>What follows the end of a run\<close>

definition priority_change :: "job_id \<Rightarrow> u32 \<Rightarrow> u32 \<Rightarrow> pending_reason \<Rightarrow> job_priority_change" where
  "priority_change i old_priority new_priority reason =
     \<lparr>pc_job_id = i, pc_old_priority = old_priority, pc_new_priority = new_priority, pc_pending_reason = Some reason,
      pc_pending_reason_desc = None, pc_reset_requeue_count = False, pc_clear_reservation = False, pc_run_attempt = None\<rparr>"

definition hold_job_at_max_requeue :: "controller \<Rightarrow> instant \<Rightarrow> job_id \<Rightarrow> u32 option \<Rightarrow> cluster \<Rightarrow> unit handled" where
  "hold_job_at_max_requeue ct now i run_attempt s =
     (case hm_get (c_jobs s) i of
        None \<Rightarrow> (s, Inl (JobNotFound i))
      | Some job \<Rightarrow>
          (let rest = (\<lambda>state s.
             if state \<in> {Preempted, Timeout, NodeFail, Failed} then
               proposing ct now (job_state_change_held_pending i state PR_JobHoldMaxRequeue) (\<lambda>_ s. (s, Inr ())) s
             else if state \<noteq> Pending then (s, Inl (WrongState i state))
             else
               (case hm_get (c_jobs s) i of
                  None \<Rightarrow> (s, Inr ())
                | Some j \<Rightarrow>
                    if j_pending_reason j \<noteq> PR_JobHoldMaxRequeue \<or> j_priority j \<noteq> 0
                    then proposing ct now
                           (JobPriorityChange ((priority_change i (j_priority j) 0 PR_JobHoldMaxRequeue)
                              \<lparr>pc_run_attempt := run_attempt\<rparr>)) (\<lambda>_ s. (s, Inr ())) s
                    else (s, Inr ())))
           in if j_state job = Running
              then proposing ct now (job_failed_by_controller i) (\<lambda>_ s. rest Failed s) s
              else rest (j_state job) s))"

definition maybe_requeue :: "controller \<Rightarrow> instant \<Rightarrow> job_id \<Rightarrow> cluster \<Rightarrow> unit handled" where
  "maybe_requeue ct now i s =
     (case hm_get (c_jobs s) i of
        None \<Rightarrow> (s, Inr ())
      | Some job \<Rightarrow>
          if cc_max_batch_requeue (ct_config ct) \<le> j_requeue_count job then
            (if j_state job \<in> {Preempted, Timeout, NodeFail} then hold_job_at_max_requeue ct now i None s
             else (s, Inr ()))
          else if \<not> js_requeue (j_spec job) then (s, Inr ())
          else proposing ct now
                 (if j_pending_reason job = PR_JobLaunchFailure
                  then job_state_change_backoff_pending i (j_state job) PR_JobLaunchFailure (launch_backoff_until ct now job)
                  else job_state_change_op i (j_state job) Pending)
                 (\<lambda>_ s. (s, Inr ())) s)"

definition reason_attribution :: "instant \<Rightarrow> string option \<Rightarrow> u32 option \<Rightarrow> u32 option \<times> instant option" where
  "reason_attribution now reason reason_uid =
     (case reason of Some _ \<Rightarrow> (reason_uid, Some now) | None \<Rightarrow> (None, None))"

definition drain_node ::
  "controller \<Rightarrow> instant \<Rightarrow> string \<Rightarrow> string option \<Rightarrow> u32 option \<Rightarrow> cluster \<Rightarrow> (node_state \<times> u32) handled" where
  "drain_node ct now name reason reason_uid s =
     (case hm_get (c_nodes s) name of
        None \<Rightarrow> (s, Inl (NodeNotFound name))
      | Some node \<Rightarrow>
          (let running_count = of_nat (length (filter (\<lambda>j. j_state j \<in> {Running, Completing, Suspended}
                 \<and> name \<in> set (j_allocated_nodes j)) (hm_values (c_jobs s)))) :: u32;
               target_state = (if 0 < running_count then NS_Draining else NS_Drain);
               (uid, time) = reason_attribution now reason reason_uid
           in proposing ct now
                (NodeStateChange \<lparr>ns_name = name, ns_old_state = n_state node, ns_new_state = target_state,
                   ns_reason = reason, ns_admin_locked = True, ns_reason_uid = uid, ns_reason_time = time, ns_at = None\<rparr>)
                (\<lambda>_ s. (s, Inr (target_state, running_count))) s))"

definition health_job_prefix :: string where
  "health_job_prefix = ''_spur-health.''"

definition health_fail_drain_prefix :: string where
  "health_fail_drain_prefix = ''health-check(failed): ''"

text \<open>The derived \<^verbatim>\<open>Debug\<close> text of the states that drain a node.\<close>

fun job_state_debug :: "job_state \<Rightarrow> string" where
  "job_state_debug Pending = ''Pending''"
| "job_state_debug Running = ''Running''"
| "job_state_debug Completing = ''Completing''"
| "job_state_debug Completed = ''Completed''"
| "job_state_debug Failed = ''Failed''"
| "job_state_debug Cancelled = ''Cancelled''"
| "job_state_debug Timeout = ''Timeout''"
| "job_state_debug NodeFail = ''NodeFail''"
| "job_state_debug Preempted = ''Preempted''"
| "job_state_debug Suspended = ''Suspended''"
| "job_state_debug Deadline = ''Deadline''"
| "job_state_debug OutOfMemory = ''OutOfMemory''"
| "job_state_debug Requeued = ''Requeued''"

definition react_to_health_job_finalized :: "controller \<Rightarrow> instant \<Rightarrow> job_id \<Rightarrow> job_state \<Rightarrow> int \<Rightarrow> cluster \<Rightarrow> cluster" where
  "react_to_health_job_finalized ct now i state exit_code s =
     (case hm_get (c_jobs s) i of
        None \<Rightarrow> s
      | Some job \<Rightarrow>
          if \<not> prefix health_job_prefix (js_name (j_spec job)) then s
          else
            (case j_allocated_nodes job of
               [] \<Rightarrow> s
             | node # _ \<Rightarrow>
                 (let program = (case js_argv (j_spec job) of [] \<Rightarrow> [] | a # _ \<Rightarrow> a)
                  in if state = Failed \<and> exit_code \<in> {126, 127} then s
                     else if state \<in> {Failed, Timeout, NodeFail, Deadline, OutOfMemory}
                     then fst (drain_node ct now node
                            (Some (health_fail_drain_prefix @ program @ '' failed ('' @ job_state_debug state @ '', exit ''
                               @ show_int exit_code @ '')'')) None s)
                     else s)))"

definition notify_job_finished :: "controller \<Rightarrow> instant \<Rightarrow> job_finalized \<Rightarrow> cluster \<Rightarrow> cluster" where
  "notify_job_finished ct now finalized s =
     (if jf_state finalized \<in> {Timeout, NodeFail} then fst (maybe_requeue ct now (jf_job_id finalized) s) else s)"

definition run_job_finalized_side_effects :: "controller \<Rightarrow> instant \<Rightarrow> job_finalized \<Rightarrow> cluster \<Rightarrow> cluster" where
  "run_job_finalized_side_effects ct now f s =
     react_to_health_job_finalized ct now (jf_job_id f) (jf_state f) (jf_exit_code f) (notify_job_finished ct now f s)"

definition run_all_finalized_side_effects :: "controller \<Rightarrow> instant \<Rightarrow> client_response \<Rightarrow> cluster \<Rightarrow> cluster" where
  "run_all_finalized_side_effects ct now resp s =
     foldl (\<lambda>s f. run_job_finalized_side_effects ct now f s) s (cr_jobs_finalized resp)"

section \<open>Requests of users and operators\<close>

record canceller =
  cn_user :: string
  cn_uid :: "u32 option"
  cn_system :: bool

definition canceller_provenance :: "canceller \<Rightarrow> string \<Rightarrow> cancel_provenance" where
  "canceller_provenance c owner =
     \<lparr>cp_origin = (if cn_system c then ''System'' else if cn_user c = owner then ''User'' else ''Admin''),
      cp_user = cn_user c, cp_uid = cn_uid c\<rparr>"

definition job_is :: "job_state \<Rightarrow> job_id \<Rightarrow> cluster \<Rightarrow> bool" where
  "job_is state i s = (case hm_get (c_jobs s) i of None \<Rightarrow> False | Some j \<Rightarrow> j_state j = state)"

definition cancel_job_for :: "controller \<Rightarrow> instant \<Rightarrow> job_id \<Rightarrow> canceller \<Rightarrow> bool \<Rightarrow> cluster \<Rightarrow> unit handled" where
  "cancel_job_for ct now i canceller operates_jobs s =
     (case hm_get (c_jobs s) i of
        None \<Rightarrow> (s, Inl (JobNotFound i))
      | Some job \<Rightarrow>
          if is_terminal (j_state job) then (s, Inl (AlreadyTerminal i (j_state job)))
          else
            (case check_job_owner (cn_user canceller) operates_jobs (js_user (j_spec job)) ''cancel'' of
               Inl e \<Rightarrow> (s, Inl e)
             | Inr _ \<Rightarrow>
                 (let cancel = canceller_provenance canceller (js_user (j_spec job));
                      finish = proposing ct now (job_cancelled i cancel)
                        (\<lambda>resp s. (run_all_finalized_side_effects ct now resp s, Inr ()))
                  in if j_allocated_nodes job \<noteq> [] then
                       proposing ct now (JobCancelSignaled i now (Some cancel))
                         (\<lambda>_ s. if job_is Completing i s then (s, Inr ()) else finish s) s
                     else finish s)))"

text \<open>What \<^verbatim>\<open>requeue_one_job\<close> makes of the answer to its proposal.\<close>

definition after_requeue ::
  "controller \<Rightarrow> instant \<Rightarrow> job_id \<Rightarrow> job option \<Rightarrow> cluster \<times> (propose_error + client_response) \<Rightarrow> (bool \<times> job option) handled" where
  "after_requeue ct now i snapshot answer =
     (case answer of
        (s, Inl OutcomeUnknown) \<Rightarrow> (s, Inl (LateRequeue snapshot))
      | (s, Inl e) \<Rightarrow> (s, Inl (ProposeFailed e))
      | (s, Inr resp) \<Rightarrow>
          (let s' = run_all_finalized_side_effects ct now resp s
           in if job_is Pending i s' then (s', Inr (True, snapshot)) else (s', Inr (False, None))))"

definition requeue_one_job ::
  "controller \<Rightarrow> instant \<Rightarrow> job_id \<Rightarrow> actor \<Rightarrow> bool \<Rightarrow> bool \<Rightarrow> cluster \<Rightarrow> (bool \<times> job option) handled" where
  "requeue_one_job ct now i actor caller_is_admin hold s =
     (case hm_get (c_jobs s) i of
        None \<Rightarrow> (s, Inl (JobNotFound i))
      | Some job \<Rightarrow>
          (case check_job_owner (ac_user actor) caller_is_admin (js_user (j_spec job)) ''requeue'' of
             Inl e \<Rightarrow> (s, Inl e)
           | Inr _ \<Rightarrow>
               if js_interactive (j_spec job) \<or> js_srun_job (j_spec job) \<or> js_pty (j_spec job) then (s, Inl (IsInteractive i))
               else if j_state job \<in> {Pending, Completing, Preempted, Requeued} then (s, Inl (WrongState i (j_state job)))
               else
                 (let snapshot = (if j_state job \<in> {Running, Suspended} then Some job else None);
                      begin_time = (case snapshot of
                          Some j \<Rightarrow> if hold then None else Some (requeue_hold_until ct now j)
                        | None \<Rightarrow> None);
                      by_actor = (if ac_user actor = [] then None else Some actor)
                  in after_requeue ct now i snapshot (propose ct now (JobUserRequeue i hold begin_time by_actor None) s))))"

datatype skip_reason = StateChanged | TaskFailed request_error | NotAttempted

record requeue_outcome =
  ro_requeued :: u32
  ro_killed :: "job list"
  ro_skipped :: "(job_id \<times> skip_reason) list"
  ro_late :: "job option list"

fun requeue_tasks ::
  "controller \<Rightarrow> instant \<Rightarrow> actor \<Rightarrow> bool \<Rightarrow> bool \<Rightarrow> job_id list \<Rightarrow> requeue_outcome \<Rightarrow> cluster \<Rightarrow> requeue_outcome \<times> cluster" where
  "requeue_tasks ct now actor admin hold [] out s = (out, s)"
| "requeue_tasks ct now actor admin hold (i # targets) out s =
     (case requeue_one_job ct now i actor admin hold s of
        (s', Inr (True, killed)) \<Rightarrow>
          requeue_tasks ct now actor admin hold targets
            (out\<lparr>ro_requeued := ro_requeued out + 1,
                 ro_killed := ro_killed out @ (case killed of None \<Rightarrow> [] | Some j \<Rightarrow> [j])\<rparr>) s'
      | (s', Inr (False, _)) \<Rightarrow>
          requeue_tasks ct now actor admin hold targets
            (out\<lparr>ro_skipped := ro_skipped out @ [(i, StateChanged)]\<rparr>) s'
      | (s', Inl (LateRequeue killed)) \<Rightarrow>
          (out\<lparr>ro_skipped := ro_skipped out @ (i, TaskFailed (LateRequeue killed)) # map (\<lambda>t. (t, NotAttempted)) targets,
               ro_late := ro_late out @ [killed]\<rparr>, s')
      | (s', Inl e) \<Rightarrow>
          requeue_tasks ct now actor admin hold targets
            (out\<lparr>ro_skipped := ro_skipped out @ [(i, TaskFailed e)]\<rparr>) s')"

definition requeue_outcome_default :: requeue_outcome where
  "requeue_outcome_default = \<lparr>ro_requeued = 0, ro_killed = [], ro_skipped = [], ro_late = []\<rparr>"

definition requeue_job_by ::
  "controller \<Rightarrow> instant \<Rightarrow> job_id \<Rightarrow> actor \<Rightarrow> bool \<Rightarrow> bool \<Rightarrow> cluster \<Rightarrow> requeue_outcome handled" where
  "requeue_job_by ct now i actor caller_is_admin hold s =
     (if hm_contains (c_jobs s) i then
        (case requeue_one_job ct now i actor caller_is_admin hold s of
           (s', Inl e) \<Rightarrow> (s', Inl e)
         | (s', Inr (True, killed)) \<Rightarrow>
             (s', Inr (requeue_outcome_default\<lparr>ro_requeued := 1,
                ro_killed := (case killed of None \<Rightarrow> [] | Some j \<Rightarrow> [j])\<rparr>))
         | (s', Inr (False, _)) \<Rightarrow> (s', Inr (requeue_outcome_default\<lparr>ro_skipped := [(i, StateChanged)]\<rparr>)))
      else
        (let targets = sort (map j_job_id (filter (\<lambda>j. js_array_job_id (j_spec j) = Some i) (hm_values (c_jobs s))))
         in if targets = [] then (s, Inl (JobNotFound i))
            else
              (let (out, s') = requeue_tasks ct now actor caller_is_admin hold targets requeue_outcome_default s
               in if ro_requeued out = 0 \<and> ro_late out = [] \<and> length (ro_skipped out) = length targets
                  then (s', Inl (NothingRequeued i)) else (s', Inr out))))"

definition check_suspendable :: "job_id \<Rightarrow> string \<Rightarrow> bool \<Rightarrow> cluster \<Rightarrow> request_error + unit" where
  "check_suspendable i user operates_jobs s =
     (case hm_get (c_jobs s) i of
        None \<Rightarrow> Inl (JobNotFound i)
      | Some job \<Rightarrow>
          if j_state job \<noteq> Running then Inl (WrongState i (j_state job))
          else
            (case check_job_owner user operates_jobs (js_user (j_spec job)) ''suspend'' of
               Inl e \<Rightarrow> Inl e
             | Inr _ \<Rightarrow> if preempt_grace job \<noteq> None then Inl (InGracePeriod i) else Inr ()))"

definition suspend_refusal :: "job_id \<Rightarrow> cluster \<Rightarrow> request_error" where
  "suspend_refusal i s =
     (case hm_get (c_jobs s) i of
        None \<Rightarrow> JobNotFound i
      | Some job \<Rightarrow> if preempt_grace job \<noteq> None then InGracePeriod i else WrongState i (j_state job))"

definition propose_suspend :: "controller \<Rightarrow> instant \<Rightarrow> job_id \<Rightarrow> actor \<Rightarrow> cluster \<Rightarrow> unit handled" where
  "propose_suspend ct now i actor s =
     proposing ct now (JobSuspend i now None None (if ac_user actor = [] then None else Some actor))
       (\<lambda>resp s. (s, if cr_suspend_applied resp then Inr () else Inl (suspend_refusal i s))) s"

definition suspend_job_by :: "controller \<Rightarrow> instant \<Rightarrow> job_id \<Rightarrow> actor \<Rightarrow> bool \<Rightarrow> cluster \<Rightarrow> unit handled" where
  "suspend_job_by ct now i actor operates_jobs s =
     (case check_suspendable i (ac_user actor) operates_jobs s of
        Inl e \<Rightarrow> (s, Inl e)
      | Inr _ \<Rightarrow> propose_suspend ct now i actor s)"

definition resume_job_for :: "controller \<Rightarrow> instant \<Rightarrow> job_id \<Rightarrow> string \<Rightarrow> bool \<Rightarrow> cluster \<Rightarrow> unit handled" where
  "resume_job_for ct now i user operates_jobs s =
     (case hm_get (c_jobs s) i of
        None \<Rightarrow> (s, Inl (JobNotFound i))
      | Some job \<Rightarrow>
          if j_state job \<noteq> Suspended then (s, Inl (WrongState i (j_state job)))
          else
            (case check_job_owner user operates_jobs (js_user (j_spec job)) ''resume'' of
               Inl e \<Rightarrow> (s, Inl e)
             | Inr _ \<Rightarrow> proposing ct now (JobResume i now) (\<lambda>_ s. (s, Inr ())) s))"

definition hold_job :: "controller \<Rightarrow> instant \<Rightarrow> job_id \<Rightarrow> cluster \<Rightarrow> unit handled" where
  "hold_job ct now i s =
     (case hm_get (c_jobs s) i of
        None \<Rightarrow> (s, Inl (JobNotFound i))
      | Some job \<Rightarrow>
          if j_state job \<noteq> Pending then (s, Inl (WrongState i (j_state job)))
          else proposing ct now (JobPriorityChange (priority_change i (j_priority job) 0 PR_Held)) (\<lambda>_ s. (s, Inr ())) s)"

definition release_job :: "controller \<Rightarrow> instant \<Rightarrow> job_id \<Rightarrow> cluster \<Rightarrow> unit handled" where
  "release_job ct now i s =
     (case hm_get (c_jobs s) i of
        None \<Rightarrow> (s, Inl (JobNotFound i))
      | Some job \<Rightarrow>
          if \<not> is_scheduling_hold (j_pending_reason job) then (s, Inl (NotHeld i))
          else proposing ct now
                 (JobPriorityChange ((priority_change i (j_priority job) default_priority PR_Priority)
                    \<lparr>pc_reset_requeue_count := (j_pending_reason job = PR_JobHoldMaxRequeue),
                     pc_clear_reservation := (j_pending_reason job = PR_ReservationDeleted)\<rparr>))
                 (\<lambda>_ s. (s, Inr ())) s)"

section \<open>Placements\<close>

text \<open>
  \<open>fabric_check\<close> is the verdict of \<^verbatim>\<open>validate_fabric_placement\<close>, which may only refuse a placement.
\<close>

definition reserve_placement ::
  "(cluster \<Rightarrow> job \<Rightarrow> string list \<Rightarrow> (string, resource_allocations) hashmap \<Rightarrow> bool) \<Rightarrow> controller \<Rightarrow> instant \<Rightarrow> job_id
     \<Rightarrow> string list \<Rightarrow> resource_allocations \<Rightarrow> (string, resource_allocations) hashmap \<Rightarrow> bool \<Rightarrow> bool \<Rightarrow> cluster \<Rightarrow> u32 handled" where
  "reserve_placement fabric_check ct now i node_names resources per_node_alloc srun_step_dispatch idle_fill s =
     (case find (\<lambda>name. \<not> hm_contains per_node_alloc name) node_names of
        Some name \<Rightarrow> (s, Inl (MissingShare i name))
      | None \<Rightarrow>
          (case hm_get (c_jobs s) i of
             None \<Rightarrow> (s, Inl (JobNotFound i))
           | Some job \<Rightarrow>
               if \<not> fabric_check s job node_names per_node_alloc then (s, Inl (FabricRefused i))
               else if j_state job \<noteq> Pending then (s, Inl (WrongState i (j_state job)))
               else if holds_a_placement job then (s, Inl (PlacementHeld i))
               else
                 (case excluded_node job node_names of
                    Some node \<Rightarrow> (s, Inl (NodeExcluded i node))
                  | None \<Rightarrow>
                      (let run_attempt = sat_add (j_run_attempt job) 1
                       in proposing ct now
                            (JobStart \<lparr>sr_job_id = i, sr_nodes = node_names, sr_resources = resources,
                               sr_per_node_alloc = per_node_alloc, sr_srun_step_dispatch = srun_step_dispatch,
                               sr_run_attempt = run_attempt, sr_idle_fill = idle_fill, sr_at = None\<rparr>)
                            (\<lambda>resp s. (s, if cr_job_started resp then Inr run_attempt else Inl (LostRace i))) s))))"

definition abort_placement :: "controller \<Rightarrow> instant \<Rightarrow> job_id \<Rightarrow> u32 \<Rightarrow> bool \<Rightarrow> cluster \<Rightarrow> unit handled" where
  "abort_placement ct now i run_attempt spare_requeue_budget s =
     (case hm_get (c_jobs s) i of
        None \<Rightarrow> (s, Inr ())
      | Some job \<Rightarrow>
          if \<not> holds_a_placement job then (s, Inr ())
          else
            (let at_max_requeue = (\<not> spare_requeue_budget \<and> cc_max_batch_requeue (ct_config ct) \<le> j_requeue_count job);
                 begin_time = launch_backoff_until ct now job
             in proposing ct now (JobDispatchBackoff i begin_time spare_requeue_budget run_attempt at_max_requeue)
                  (\<lambda>_ s. (s, Inr ())) s))"

definition create_step :: "controller \<Rightarrow> instant \<Rightarrow> job_step \<Rightarrow> cluster \<Rightarrow> unit handled" where
  "create_step ct now step s =
     proposing ct now (JobStepCreate (step\<lparr>st_name := truncate_step_name (st_name step)\<rparr>)) (\<lambda>_ s. (s, Inr ())) s"

definition activate_job ::
  "controller \<Rightarrow> instant \<Rightarrow> job_id \<Rightarrow> u32 \<Rightarrow> string list \<Rightarrow> resource_allocations \<Rightarrow> (string, resource_allocations) hashmap
     \<Rightarrow> bool \<Rightarrow> cluster \<Rightarrow> u32 handled" where
  "activate_job ct now i run_attempt node_names resources per_node_alloc srun_step_dispatch s =
     (case hm_get (c_jobs s) i of
        None \<Rightarrow> (s, Inl (JobNotFound i))
      | Some job \<Rightarrow>
          if j_state job \<noteq> Pending then (s, Inl (WrongState i (j_state job)))
          else if j_run_attempt job \<noteq> run_attempt then (s, Inl (WrongRun i (j_run_attempt job) run_attempt))
          else proposing ct now (job_state_change_activating i run_attempt)
            (\<lambda>resp s.
               if \<not> cr_state_change_applied resp then (s, Inl (LostRace i))
               else
                 (let node_count = of_nat (max (length node_names) 1) :: u32;
                      shared = with_scalar (ra_cpus resources div node_count) (ra_memory_mb resources div ucast node_count);
                      per_node = (case node_names of
                          [] \<Rightarrow> shared
                        | n # _ \<Rightarrow> (case hm_get per_node_alloc n of None \<Rightarrow> shared | Some share \<Rightarrow> share));
                      batch_step = \<lparr>st_job_id = i, st_step_id = step_batch, st_name = ''batch'', st_state = StepRunning,
                        st_num_tasks = 1, st_cpus_per_task = ra_cpus per_node, st_resources = per_node,
                        st_nodes = node_names, st_distribution = DistBlock, st_start_time = Some now, st_end_time = None,
                        st_exit_code = None, st_pty = False, st_job_shell = False\<rparr>
                  in (if srun_step_dispatch then s else fst (create_step ct now batch_step s), Inr run_attempt))) s)"

definition orphaned_placements :: "job_id set \<Rightarrow> cluster \<Rightarrow> (job_id \<times> u32 \<times> string list) list" where
  "orphaned_placements in_flight s =
     map (\<lambda>job. (j_job_id job, j_run_attempt job, j_allocated_nodes job))
       (filter (\<lambda>job. j_state job = Pending \<and> holds_a_placement job \<and> j_exit_code job = None
           \<and> j_job_id job \<notin> in_flight) (hm_values (c_jobs s)))"

definition abort_orphaned_placements :: "controller \<Rightarrow> instant \<Rightarrow> job_id set \<Rightarrow> cluster \<Rightarrow> cluster" where
  "abort_orphaned_placements ct now in_flight s =
     foldl (\<lambda>s (i, run_attempt, _). fst (abort_placement ct now i run_attempt True s)) s (orphaned_placements in_flight s)"

definition hold_job_for_launch_failure :: "controller \<Rightarrow> instant \<Rightarrow> job_id \<Rightarrow> string option \<Rightarrow> u32 \<Rightarrow> cluster \<Rightarrow> unit handled" where
  "hold_job_for_launch_failure ct now i reason_desc run_attempt s =
     (case hm_get (c_jobs s) i of
        None \<Rightarrow> (s, Inl (JobNotFound i))
      | Some job \<Rightarrow>
          if j_state job \<noteq> Pending then (s, Inl (WrongState i (j_state job)))
          else proposing ct now
                 (JobPriorityChange ((priority_change i (j_priority job) 0 PR_Held)
                    \<lparr>pc_pending_reason_desc := Some (case reason_desc of
                        None \<Rightarrow> ''launch failed requeued held'' | Some d \<Rightarrow> d),
                     pc_run_attempt := Some run_attempt\<rparr>)) (\<lambda>_ s. (s, Inr ())) s)"

definition requeue_after_launch_failure :: "controller \<Rightarrow> instant \<Rightarrow> job_id \<Rightarrow> bool \<Rightarrow> cluster \<Rightarrow> unit handled" where
  "requeue_after_launch_failure ct now i hold s =
     (case hm_get (c_jobs s) i of
        None \<Rightarrow> (s, Inr ())
      | Some job \<Rightarrow>
          if is_terminal (j_state job) then (s, Inr ())
          else if \<not> hold \<and> cc_max_batch_requeue (ct_config ct) \<le> j_requeue_count job
          then hold_job_at_max_requeue ct now i None s
          else if j_state job = Pending then (s, Inr ())
          else proposing ct now (job_failed_by_controller i)
                 (\<lambda>_. proposing ct now
                    (if hold
                     then job_state_change_held_pending_desc i Failed PR_Held ''launch failed requeued held''
                     else job_state_change_backoff_pending i Failed PR_JobLaunchFailure (launch_backoff_until ct now job))
                    (\<lambda>_ s. (s, Inr ()))) s)"

definition backoff_pending_job_after_dispatch_failure ::
  "controller \<Rightarrow> instant \<Rightarrow> job_id \<Rightarrow> u32 \<Rightarrow> cluster \<Rightarrow> unit handled" where
  "backoff_pending_job_after_dispatch_failure ct now i run_attempt s =
     (case hm_get (c_jobs s) i of
        None \<Rightarrow> (s, Inr ())
      | Some job \<Rightarrow>
          if j_state job \<noteq> Pending then (s, Inr ())
          else proposing ct now
                 (JobDispatchBackoff i (launch_backoff_until ct now job) False run_attempt
                    (cc_max_batch_requeue (ct_config ct) \<le> j_requeue_count job)) (\<lambda>_ s. (s, Inr ())) s)"

section \<open>Ending runs\<close>

datatype node_complete_result =
    NodeCompleting | NodeInGrace | AllDone job_state int | NodeAlreadyTerminal | StaleReport

definition node_complete ::
  "controller \<Rightarrow> instant \<Rightarrow> job_id \<Rightarrow> string \<Rightarrow> int \<Rightarrow> int \<Rightarrow> u32 \<Rightarrow> cluster \<Rightarrow> node_complete_result handled" where
  "node_complete ct now i node_name exit_code signal run_attempt s =
     (case hm_get (c_jobs s) i of
        None \<Rightarrow> (s, Inl (JobNotFound i))
      | Some job \<Rightarrow>
          if is_terminal (j_state job) then (s, Inr NodeAlreadyTerminal)
          else if run_attempt \<noteq> 0 \<and> j_run_attempt job \<noteq> 0 \<and> run_attempt < j_run_attempt job then (s, Inr StaleReport)
          else if node_name \<notin> set (j_allocated_nodes job) then
            (s, if j_state job \<noteq> Running then Inr StaleReport else Inl (NodeNotAllocated i node_name))
          else proposing ct now (JobNodeComplete i node_name exit_code signal run_attempt None)
            (\<lambda>resp s0.
               (let s = run_all_finalized_side_effects ct now resp s0
                in (s, Inr (case cr_jobs_finalized resp of
                      f # _ \<Rightarrow> AllDone (jf_state f) (jf_exit_code f)
                    | [] \<Rightarrow>
                        (case hm_get (c_jobs s) i of
                           None \<Rightarrow> NodeCompleting
                         | Some job \<Rightarrow>
                             if is_terminal (j_state job) then NodeAlreadyTerminal
                             else if j_state job = Running \<and> preempt_grace job \<noteq> None then NodeInGrace
                             else NodeCompleting))))) s)"

record job_end_facts =
  ef_unreported_nodes :: "string list"
  ef_cancel :: "cancel_provenance option"

definition complete_job_with ::
  "controller \<Rightarrow> instant \<Rightarrow> job_id \<Rightarrow> int \<Rightarrow> job_state \<Rightarrow> job_end_facts \<Rightarrow> cluster \<Rightarrow> unit handled" where
  "complete_job_with ct now i exit_code state facts s =
     (case hm_get (c_jobs s) i of
        None \<Rightarrow> (s, Inl (JobNotFound i))
      | Some job \<Rightarrow>
          if is_terminal (j_state job) then (s, Inl (WrongState i (j_state job)))
          else
            (let state' = (if state \<notin> {Failed, Completed} then state
                           else if j_time_limit_signaled_at job \<noteq> None then Timeout
                           else if j_cancel_signaled_at job \<noteq> None then Cancelled
                           else state)
             in proposing ct now
                  (JobComplete \<lparr>jc_job_id = i, jc_exit_code = exit_code, jc_state = state',
                     jc_unreported_nodes = ef_unreported_nodes facts, jc_cancel = ef_cancel facts,
                     jc_controller_initiated = False, jc_at = None\<rparr>)
                  (\<lambda>resp s. (run_all_finalized_side_effects ct now resp s, Inr ())) s))"

datatype srun_completion = Finished job | AlreadyComplete

definition finish_srun_job_for :: "controller \<Rightarrow> instant \<Rightarrow> job_id \<Rightarrow> int \<Rightarrow> string \<Rightarrow> bool \<Rightarrow> cluster \<Rightarrow> srun_completion handled" where
  "finish_srun_job_for ct now i exit_code user operates_jobs s =
     (case hm_get (c_jobs s) i of
        None \<Rightarrow> (s, Inl (JobNotFound i))
      | Some job \<Rightarrow>
          if \<not> js_srun_job (j_spec job) then (s, Inl (NotSrunJob i))
          else if \<not> j_srun_step_dispatch job then (s, Inl (NotStepDispatch i))
          else
            (case check_job_owner user operates_jobs (js_user (j_spec job)) ''complete'' of
               Inl e \<Rightarrow> (s, Inl e)
             | Inr _ \<Rightarrow>
                 if is_terminal (j_state job) then (s, Inr AlreadyComplete)
                 else
                   (case complete_job_with ct now i exit_code (if exit_code = 0 then Completed else Failed)
                           \<lparr>ef_unreported_nodes = [], ef_cancel = None\<rparr> s of
                      (s', Inl e) \<Rightarrow> (s', Inl e)
                    | (s', Inr _) \<Rightarrow> (s', Inr (Finished job)))))"

definition deadline_job :: "controller \<Rightarrow> instant \<Rightarrow> job_id \<Rightarrow> cluster \<Rightarrow> unit handled" where
  "deadline_job ct now i s =
     (case hm_get (c_jobs s) i of
        None \<Rightarrow> (s, Inl (JobNotFound i))
      | Some job \<Rightarrow>
          if is_terminal (j_state job) then (s, Inl (AlreadyTerminal i (j_state job)))
          else if j_state job \<noteq> Pending then (s, Inl (WrongState i (j_state job)))
          else proposing ct now (job_complete_op i (- 1) Deadline)
                 (\<lambda>resp s. (run_all_finalized_side_effects ct now resp s, Inr ()))
                 (put_job i (set_pending_reason PR_DeadLine job) s))"

definition expire_time_limit :: "controller \<Rightarrow> instant \<Rightarrow> job_id \<Rightarrow> u32 \<Rightarrow> instant \<Rightarrow> cluster \<Rightarrow> bool handled" where
  "expire_time_limit ct now i run_attempt at s =
     proposing ct now (JobTimeLimitExpired i run_attempt at)
       (\<lambda>resp s. (s, Inr (cr_time_limit_applied resp \<and> job_is Completing i s))) s"

definition signal_preemption :: "controller \<Rightarrow> instant \<Rightarrow> preempt_pending \<Rightarrow> job_id \<Rightarrow> cluster \<Rightarrow> bool handled" where
  "signal_preemption ct now pending i s =
     proposing ct now (JobPreemptSignaled i pending) (\<lambda>resp s. (s, Inr (cr_preempt_signal_applied resp))) s"

datatype preempt_outcome = VictimKilled | VictimSuspended

definition preempt_job_inner ::
  "controller \<Rightarrow> instant \<Rightarrow> job_id \<Rightarrow> u32 \<Rightarrow> preempt_mode \<Rightarrow> job_id option \<Rightarrow> string option \<Rightarrow> bool
     \<Rightarrow> cluster \<Rightarrow> preempt_outcome handled" where
  "preempt_job_inner ct now i expected_run_attempt mode preempted_by preempt_qos earmark_freed s =
     (case hm_get (c_jobs s) i of
        None \<Rightarrow> (s, Inl (JobNotFound i))
      | Some job \<Rightarrow>
          if j_state job \<noteq> Running then (s, Inl (WrongState i (j_state job)))
          else if j_run_attempt job \<noteq> expected_run_attempt
          then (s, Inl (WrongRun i (j_run_attempt job) expected_run_attempt))
          else
            (case mode of
               PmOff \<Rightarrow> (s, Inl (PreemptionDisabled i))
             | PmSuspend \<Rightarrow>
                 proposing ct now (JobSuspend i now preempted_by preempt_qos None)
                   (\<lambda>resp s. if cr_suspend_applied resp
                      then (run_all_finalized_side_effects ct now resp s, Inr VictimSuspended)
                      else (s, Inl (suspend_refusal i s))) s
             | PmCancel \<Rightarrow>
                 proposing ct now (JobPreemptCancel i preempted_by preempt_qos (Some now) (Some expected_run_attempt))
                   (\<lambda>resp s. if cr_preempt_applied resp
                      then (run_all_finalized_side_effects ct now resp s, Inr VictimKilled)
                      else (s, Inl (LostRace i))) s
             | PmRequeue \<Rightarrow>
                 proposing ct now
                   (JobPreemptRequeue \<lparr>pq_job_id = i, pq_begin_time = requeue_hold_until ct now job,
                      pq_preempted_by = preempted_by, pq_preempt_qos = preempt_qos, pq_at = None,
                      pq_run_attempt = Some expected_run_attempt,
                      pq_handoff = (earmark_freed \<and> preempted_by \<noteq> None)\<rparr>)
                   (\<lambda>resp s. if cr_preempt_applied resp
                      then (run_all_finalized_side_effects ct now resp s, Inr VictimKilled)
                      else (s, Inl (LostRace i))) s))"

definition evict_job_attempt :: "controller \<Rightarrow> instant \<Rightarrow> job_id \<Rightarrow> u32 option \<Rightarrow> string option \<Rightarrow> cluster \<Rightarrow> unit handled" where
  "evict_job_attempt ct now i run_attempt detail s =
     (case hm_get (c_jobs s) i of
        None \<Rightarrow> (s, Inl (JobNotFound i))
      | Some job \<Rightarrow>
          if is_terminal (j_state job) \<or> (case run_attempt of None \<Rightarrow> False | Some a \<Rightarrow> j_run_attempt job \<noteq> a) then (s, Inr ())
          else proposing ct now (JobEvict i detail None)
                 (\<lambda>resp s. (run_all_finalized_side_effects ct now resp s, Inr ())) s)"

section \<open>Nodes\<close>

definition node_has_running_jobs :: "string \<Rightarrow> cluster \<Rightarrow> bool" where
  "node_has_running_jobs name s =
     list_ex (\<lambda>j. j_state j \<in> {Running, Completing, Suspended} \<and> is_held_on j name) (hm_values (c_jobs s))"

definition down_reason_attribution ::
  "instant \<Rightarrow> node option \<Rightarrow> string option \<Rightarrow> string option \<times> u32 option \<times> instant option" where
  "down_reason_attribution now node fallback =
     (case node of
        Some n \<Rightarrow> if n_admin_locked n \<and> n_state_reason n \<noteq> None then (n_state_reason n, n_reason_uid n, n_reason_time n)
                  else (fallback, Some 0, Some now)
      | None \<Rightarrow> (fallback, Some 0, Some now))"

definition mark_node_down :: "controller \<Rightarrow> instant \<Rightarrow> string \<Rightarrow> string option \<Rightarrow> cluster \<Rightarrow> job_finalized list handled" where
  "mark_node_down ct now name reason s =
     (case hm_get (c_nodes s) name of
        None \<Rightarrow> (s, Inl (NodeNotFound name))
      | Some node \<Rightarrow>
          (let (reason', uid, time) = down_reason_attribution now (Some node) reason
           in proposing ct now
                (NodeStateChange \<lparr>ns_name = name, ns_old_state = n_state node, ns_new_state = NS_Down, ns_reason = reason',
                   ns_admin_locked = n_admin_locked node, ns_reason_uid = uid, ns_reason_time = time, ns_at = None\<rparr>)
                (\<lambda>resp s. (run_all_finalized_side_effects ct now resp s, Inr (cr_jobs_finalized resp))) s))"

definition remove_node :: "controller \<Rightarrow> instant \<Rightarrow> string \<Rightarrow> bool \<Rightarrow> string option \<Rightarrow> cluster \<Rightarrow> job_finalized list handled" where
  "remove_node ct now name force reason s =
     (if \<not> hm_contains (c_nodes s) name then (s, Inl (NodeNotFound name))
      else if \<not> force \<and> node_has_running_jobs name s then (s, Inl (NodeBusy name))
      else proposing ct now (NodeRemove name reason None)
             (\<lambda>resp s. (run_all_finalized_side_effects ct now resp s, Inr (cr_jobs_finalized resp))) s)"

definition update_node_state ::
  "controller \<Rightarrow> instant \<Rightarrow> string \<Rightarrow> node_state \<Rightarrow> string option \<Rightarrow> u32 option \<Rightarrow> cluster \<Rightarrow> unit handled" where
  "update_node_state ct now name state reason reason_uid s =
     (case hm_get (c_nodes s) name of
        None \<Rightarrow> (s, Inl (NodeNotFound name))
      | Some node \<Rightarrow>
          (let requested = (case node_transition (n_state node) (AdminSetState state) (n_admin_locked node) of
                 None \<Rightarrow> state | Some st \<Rightarrow> st);
               effective = (if requested = NS_Drain
                   \<and> (0 < ra_cpus (n_alloc_resources node) \<or> has_devices (n_alloc_resources node))
                 then NS_Draining else requested);
               (uid, time) = reason_attribution now reason reason_uid
           in proposing ct now
                (NodeStateChange \<lparr>ns_name = name, ns_old_state = n_state node, ns_new_state = effective, ns_reason = reason,
                   ns_admin_locked = is_admin_hold effective, ns_reason_uid = uid, ns_reason_time = time, ns_at = None\<rparr>)
                (\<lambda>_ s. (s, Inr ())) s))"

definition quarantine_node :: "controller \<Rightarrow> instant \<Rightarrow> string \<Rightarrow> string \<Rightarrow> cluster \<Rightarrow> unit handled" where
  "quarantine_node ct now name reason s =
     (if (case hm_get (c_nodes s) name of None \<Rightarrow> False
          | Some node \<Rightarrow> n_admin_locked node \<and> is_unavailable (n_state node)) then (s, Inr ())
      else update_node_state ct now name NS_Drain (Some reason) None s)"

end
