(* ===== verification/Request_Ledger.thy ===== *)
theory Request_Ledger
  imports Requests Log_Props Placement
begin

text \<open>
  The requests of the controller over a log that commits one entry at a time: every handler, with what follows
  the runs it ends, keeps the node ledgers equal to what the placed jobs hold.
\<close>

section \<open>The interface of the log\<close>

lemma admissible_stamp [simp]: "admissible s (stamp_occurred_at now op) = admissible s op"
  by (cases op) (simp_all add: admissible_def stamp_occurred_at_def start_ok_def)

text \<open>
  What the handlers rely on: a proposal is applied and its response returned, or an error is returned, and then the
  entry has been applied or not. A write of which the outcome is unknown (\<^verbatim>\<open>OutcomeUnknown\<close>) may still be
  applied after the handler has returned: that is an event \<open>Late\<close> of its own, below.
\<close>

definition commits :: "cluster_config \<Rightarrow> (wal_operation \<Rightarrow> cluster \<Rightarrow> cluster \<times> (propose_error + client_response)) \<Rightarrow> bool" where
  "commits cfg write =
     (\<forall>op s. (\<exists>e. write op s = (s, Inl e))
        \<or> (\<exists>t e. write op s = (fst (apply_operation cfg t op s), Inl e))
        \<or> (\<exists>t. write op s = (fst (apply_operation cfg t op s), Inr (snd (apply_operation cfg t op s)))))"

definition sound :: "cluster \<Rightarrow> bool" where
  "sound s = (bal s \<and> nodes_named (c_nodes s))"

lemma foldl_keeps: "P s \<Longrightarrow> (\<And>x s. P s \<Longrightarrow> P (f s x)) \<Longrightarrow> P (foldl f s xs)"
  by (induction xs arbitrary: s) auto

lemma admissible_ops [simp]:
  "admissible s (JobCancelSignaled i t canc)" "admissible s (JobUserRequeue i h bt ac at)" "admissible s (JobSuspend i t pb qos ac)"
  "admissible s (JobResume i t)" "admissible s (JobPriorityChange pc)" "admissible s (JobDispatchBackoff i t spare r m)"
  "admissible s (JobStepCreate st)" "admissible s (JobTimeLimitExpired i r t)" "admissible s (JobPreemptSignaled i pp)"
  "admissible s (JobPreemptCancel i pb qos at ra)" "admissible s (JobPreemptRequeue pq)" "admissible s (JobEvict i d at)"
  "admissible s (NodeStateChange ns)" "admissible s (NodeRemove n d at)"
  "admissible s (job_failed_by_controller i)" "admissible s (job_cancelled i cp)"
  "admissible s (job_state_change_held_pending i js pr)" "admissible s (job_state_change_held_pending_desc i js pr desc)"
  "admissible s (job_state_change_backoff_pending i js pr t)" "admissible s (job_state_change_op i js Pending)"
  "admissible s (job_state_change_activating i r)" "admissible s (job_complete_op i code Deadline)"
  by (simp_all add: admissible_def job_failed_by_controller_def job_cancelled_def job_state_change_held_pending_def
      job_state_change_held_pending_desc_def job_state_change_backoff_pending_def job_state_change_op_def
      job_state_change_activating_def job_complete_op_def state_change_of_def is_terminal_def)

locale raft_client =
  fixes ct :: controller
  assumes commits: "commits (ct_config ct) (ct_client_write ct)"
begin

lemma propose_cases:
  obtains e where "propose ct now op s = (s, Inl e)"
  | t e where "propose ct now op s = (fst (apply_operation (ct_config ct) t (stamp_occurred_at now op) s), Inl e)"
  | t where "propose ct now op s = (fst (apply_operation (ct_config ct) t (stamp_occurred_at now op) s),
      Inr (snd (apply_operation (ct_config ct) t (stamp_occurred_at now op) s)))"
  using commits unfolding commits_def propose_def by blast

lemma sound_propose: "sound s \<Longrightarrow> admissible s op \<Longrightarrow> sound (fst (propose ct now op s))"
  by (rule propose_cases [of now op s])
     (auto simp: sound_def intro: bal_apply_operation named_apply_operation)

lemma sound_proposing:
  assumes "sound s" and "admissible s op" and "\<And>resp s'. sound s' \<Longrightarrow> sound (fst (k resp s'))"
  shows "sound (fst (proposing ct now op k s))"
  using assms(3) sound_propose [OF assms(1,2), of now] by (auto simp: proposing_def split: prod.splits sum.splits)

subsection \<open>What follows the end of a run\<close>

lemma sound_hold_at_max: "sound s \<Longrightarrow> sound (fst (hold_job_at_max_requeue ct now i ra s))"
  by (auto simp: hold_job_at_max_requeue_def Let_def intro!: sound_proposing split: option.split)

lemma sound_maybe_requeue: "sound s \<Longrightarrow> sound (fst (maybe_requeue ct now i s))"
  by (auto simp: maybe_requeue_def sound_hold_at_max intro!: sound_proposing split: option.split)

lemma sound_drain_node: "sound s \<Longrightarrow> sound (fst (drain_node ct now n r u s))"
  by (auto simp: drain_node_def Let_def intro!: sound_proposing split: option.split prod.split)

lemma sound_side_effect: "sound s \<Longrightarrow> sound (run_job_finalized_side_effects ct now f s)"
  by (auto simp: run_job_finalized_side_effects_def react_to_health_job_finalized_def notify_job_finished_def Let_def
      sound_maybe_requeue sound_drain_node split: option.split list.split)

lemma sound_side_effects: "sound s \<Longrightarrow> sound (run_all_finalized_side_effects ct now resp s)"
  unfolding run_all_finalized_side_effects_def
  by (rule foldl_keeps [where P = sound]) (auto intro: sound_side_effect)

subsection \<open>The handlers\<close>

lemmas handler_rules = sound_proposing sound_side_effects

lemma sound_cancel: "sound s \<Longrightarrow> sound (fst (cancel_job_for ct now i c b s))"
  by (auto simp: cancel_job_for_def Let_def intro!: handler_rules split: option.split sum.split)

lemma sound_after_requeue: "sound (fst answer) \<Longrightarrow> sound (fst (after_requeue ct now i snap answer))"
  by (auto simp: after_requeue_def Let_def intro: sound_side_effects split: prod.split sum.split propose_error.split)

lemma sound_requeue_one: "sound s \<Longrightarrow> sound (fst (requeue_one_job ct now i a adm h s))"
  by (simp add: requeue_one_job_def Let_def sound_after_requeue sound_propose split: option.split sum.split)

lemma sound_requeue_tasks: "sound s \<Longrightarrow> sound (snd (requeue_tasks ct now a adm h targets out s))"
proof (induction targets arbitrary: out s)
  case (Cons i targets)
  obtain s' r where r: "requeue_one_job ct now i a adm h s = (s', r)" by force
  have "sound s'" using sound_requeue_one [OF Cons.prems, of now i a adm h] r by simp
  note IH = Cons.IH [OF this]
  show ?case
  proof (cases r)
    case (Inl e)
    then show ?thesis using IH \<open>sound s'\<close> by (cases e) (simp_all add: r)
  next
    case (Inr p)
    then show ?thesis using IH by (cases "fst p"; cases p) (simp_all add: r)
  qed
qed simp

lemma sound_requeue: "sound s \<Longrightarrow> sound (fst (requeue_job_by ct now i a adm h s))"
proof (cases "hm_contains (c_jobs s) i")
  case True
  then show "sound s \<Longrightarrow> ?thesis"
    using sound_requeue_one [of s now i a adm h]
    by (auto simp: requeue_job_by_def split: sum.split prod.split bool.split)
next
  case False
  then show "sound s \<Longrightarrow> ?thesis"
    by (simp add: requeue_job_by_def Let_def case_prod_beta sound_requeue_tasks)
qed

lemma sound_suspend: "sound s \<Longrightarrow> sound (fst (suspend_job_by ct now i a b s))"
  by (auto simp: suspend_job_by_def propose_suspend_def intro!: handler_rules split: sum.split)

lemma sound_resume: "sound s \<Longrightarrow> sound (fst (resume_job_for ct now i u b s))"
  by (auto simp: resume_job_for_def intro!: handler_rules split: option.split sum.split)

lemma sound_hold: "sound s \<Longrightarrow> sound (fst (hold_job ct now i s))"
  by (auto simp: hold_job_def intro!: handler_rules split: option.split)

lemma sound_release: "sound s \<Longrightarrow> sound (fst (release_job ct now i s))"
  by (auto simp: release_job_def intro!: handler_rules split: option.split)

lemma sound_abort: "sound s \<Longrightarrow> sound (fst (abort_placement ct now i r b s))"
  by (auto simp: abort_placement_def Let_def intro!: handler_rules split: option.split)

lemma sound_abort_orphans: "sound s \<Longrightarrow> sound (abort_orphaned_placements ct now fl s)"
  unfolding abort_orphaned_placements_def
  by (rule foldl_keeps [where P = sound]) (auto simp: sound_abort split: prod.split)

lemma sound_create_step: "sound s \<Longrightarrow> sound (fst (create_step ct now st s))"
  by (auto simp: create_step_def intro!: handler_rules)

lemma sound_activate: "sound s \<Longrightarrow> sound (fst (activate_job ct now i r ns res pna b s))"
  by (auto simp: activate_job_def Let_def sound_create_step intro!: handler_rules split: option.split)

lemma sound_hold_for_launch_failure: "sound s \<Longrightarrow> sound (fst (hold_job_for_launch_failure ct now i d r s))"
  by (auto simp: hold_job_for_launch_failure_def intro!: handler_rules split: option.split)

lemma sound_requeue_after_launch_failure: "sound s \<Longrightarrow> sound (fst (requeue_after_launch_failure ct now i h s))"
  by (auto simp: requeue_after_launch_failure_def sound_hold_at_max intro!: handler_rules split: option.split)

lemma sound_backoff: "sound s \<Longrightarrow> sound (fst (backoff_pending_job_after_dispatch_failure ct now i r s))"
  by (auto simp: backoff_pending_job_after_dispatch_failure_def intro!: handler_rules split: option.split)

lemma sound_expire: "sound s \<Longrightarrow> sound (fst (expire_time_limit ct now i r t s))"
  by (auto simp: expire_time_limit_def intro!: handler_rules)

lemma sound_signal_preemption: "sound s \<Longrightarrow> sound (fst (signal_preemption ct now pp i s))"
  by (auto simp: signal_preemption_def intro!: handler_rules)

lemma sound_preempt: "sound s \<Longrightarrow> sound (fst (preempt_job_inner ct now i r m pb q e s))"
  by (auto simp: preempt_job_inner_def intro!: handler_rules split: option.split preempt_mode.split)

lemma sound_evict: "sound s \<Longrightarrow> sound (fst (evict_job_attempt ct now i r d s))"
  by (auto simp: evict_job_attempt_def intro!: handler_rules split: option.split)

lemma sound_mark_down: "sound s \<Longrightarrow> sound (fst (mark_node_down ct now n r s))"
  by (auto simp: mark_node_down_def intro!: handler_rules split: option.split prod.split)

lemma sound_remove: "sound s \<Longrightarrow> sound (fst (remove_node ct now n f r s))"
  by (auto simp: remove_node_def intro!: handler_rules)

lemma sound_update_node: "sound s \<Longrightarrow> sound (fst (update_node_state ct now n st r u s))"
  by (auto simp: update_node_state_def Let_def intro!: handler_rules split: option.split prod.split)

lemma sound_quarantine: "sound s \<Longrightarrow> sound (fst (quarantine_node ct now n r s))"
  by (simp add: quarantine_node_def sound_update_node)

text \<open>A reservation is admissible when the shares of its nodes fit; the handler checks the rest.\<close>

lemma sound_reserve:
  assumes "sound s" and "distinct names" and "\<forall>n. ra_ok (slice_for pna res names n)" and "fits (c_nodes s) names res pna"
  shows "sound (fst (reserve_placement fc ct now i names res pna b b' s))"
  using assms
  by (auto simp: reserve_placement_def Let_def admissible_def start_ok_def intro!: handler_rules split: option.split)

lemma sound_node_complete: "sound s \<Longrightarrow> sound (fst (node_complete ct now i n c sg r s))"
  by (auto simp: node_complete_def Let_def admissible_def intro!: handler_rules split: option.split)

lemma sound_complete: "sound s \<Longrightarrow> is_terminal st \<Longrightarrow> sound (fst (complete_job_with ct now i c st fa s))"
  by (auto simp: complete_job_with_def Let_def admissible_def is_terminal_def intro!: handler_rules split: option.split)

lemma sound_finish_srun: "sound s \<Longrightarrow> sound (fst (finish_srun_job_for ct now i c u b s))"
  using sound_complete [of s "if c = 0 then Completed else Failed" now i c "\<lparr>ef_unreported_nodes = [], ef_cancel = None\<rparr>"]
  by (auto simp: finish_srun_job_for_def is_terminal_def split: option.split sum.split prod.split)

lemma sound_deadline: "sound s \<Longrightarrow> sound (fst (deadline_job ct now i s))"
proof -
  assume s: "sound s"
  have "sound (put_job i (set_pending_reason PR_DeadLine job) s)" if "hm_get (c_jobs s) i = Some job" for job
    using s that
    by (simp add: sound_def bal_put_same_placement [OF _ that] set_pending_reason_def placement_def drop_stale_detail_def)
  then show ?thesis using s by (auto simp: deadline_job_def intro!: handler_rules split: option.split)
qed

end

section \<open>Requests in sequence\<close>

text \<open>A request with its arguments; \<^verbatim>\<open>RequestReserve\<close> carries the verdict of the fabric check.\<close>

datatype (plugins only: size) request =
    RequestCancel job_id canceller bool
  | RequestRequeue job_id actor bool bool
  | RequestSuspend job_id actor bool
  | RequestResume job_id string bool
  | RequestHold job_id
  | RequestRelease job_id
  | RequestReserve bool job_id "string list" resource_allocations "(string, resource_allocations) hashmap" bool bool
  | RequestActivate job_id u32 "string list" resource_allocations "(string, resource_allocations) hashmap" bool
  | RequestAbort job_id u32 bool
  | RequestAbortOrphans "job_id set"
  | RequestHoldFailed job_id "string option" u32
  | RequestLaunchFailed job_id bool
  | RequestBackoff job_id u32
  | RequestNodeComplete job_id string int int u32
  | RequestComplete job_id int job_state job_end_facts
  | RequestFinishSrun job_id int string bool
  | RequestDeadline job_id
  | RequestExpire job_id u32 instant
  | RequestSignalPreempt preempt_pending job_id
  | RequestPreempt job_id u32 preempt_mode "job_id option" "string option" bool
  | RequestEvict job_id "u32 option" "string option"
  | RequestMarkDown string "string option"
  | RequestRemove string bool "string option"
  | RequestUpdateNode string node_state "string option" "u32 option"
  | RequestDrain string "string option" "u32 option"
  | RequestQuarantine string string

fun handle :: "controller \<Rightarrow> cluster \<Rightarrow> instant \<times> request \<Rightarrow> cluster" where
  "handle ct s (now, RequestCancel i c b) = fst (cancel_job_for ct now i c b s)"
| "handle ct s (now, RequestRequeue i a b h) = fst (requeue_job_by ct now i a b h s)"
| "handle ct s (now, RequestSuspend i a b) = fst (suspend_job_by ct now i a b s)"
| "handle ct s (now, RequestResume i u b) = fst (resume_job_for ct now i u b s)"
| "handle ct s (now, RequestHold i) = fst (hold_job ct now i s)"
| "handle ct s (now, RequestRelease i) = fst (release_job ct now i s)"
| "handle ct s (now, RequestReserve f i ns r p b c) = fst (reserve_placement (\<lambda>_ _ _ _. f) ct now i ns r p b c s)"
| "handle ct s (now, RequestActivate i a ns r p b) = fst (activate_job ct now i a ns r p b s)"
| "handle ct s (now, RequestAbort i a b) = fst (abort_placement ct now i a b s)"
| "handle ct s (now, RequestAbortOrphans fl) = abort_orphaned_placements ct now fl s"
| "handle ct s (now, RequestHoldFailed i d a) = fst (hold_job_for_launch_failure ct now i d a s)"
| "handle ct s (now, RequestLaunchFailed i h) = fst (requeue_after_launch_failure ct now i h s)"
| "handle ct s (now, RequestBackoff i a) = fst (backoff_pending_job_after_dispatch_failure ct now i a s)"
| "handle ct s (now, RequestNodeComplete i n c g a) = fst (node_complete ct now i n c g a s)"
| "handle ct s (now, RequestComplete i c st fa) = fst (complete_job_with ct now i c st fa s)"
| "handle ct s (now, RequestFinishSrun i c u b) = fst (finish_srun_job_for ct now i c u b s)"
| "handle ct s (now, RequestDeadline i) = fst (deadline_job ct now i s)"
| "handle ct s (now, RequestExpire i a t) = fst (expire_time_limit ct now i a t s)"
| "handle ct s (now, RequestSignalPreempt pp i) = fst (signal_preemption ct now pp i s)"
| "handle ct s (now, RequestPreempt i a m pb q e) = fst (preempt_job_inner ct now i a m pb q e s)"
| "handle ct s (now, RequestEvict i a d) = fst (evict_job_attempt ct now i a d s)"
| "handle ct s (now, RequestMarkDown n r) = fst (mark_node_down ct now n r s)"
| "handle ct s (now, RequestRemove n f r) = fst (remove_node ct now n f r s)"
| "handle ct s (now, RequestUpdateNode n st r u) = fst (update_node_state ct now n st r u s)"
| "handle ct s (now, RequestDrain n r u) = fst (drain_node ct now n r u s)"
| "handle ct s (now, RequestQuarantine n r) = fst (quarantine_node ct now n r s)"

text \<open>What a caller owes: a reservation names each node once with a share that fits, and a completion ends the run.\<close>

definition request_ok :: "cluster \<Rightarrow> instant \<times> request \<Rightarrow> bool" where
  "request_ok s r =
     (case snd r of
        RequestReserve f i names res pna b c \<Rightarrow>
          distinct names \<and> (\<forall>n. ra_ok (slice_for pna res names n)) \<and> fits (c_nodes s) names res pna
      | RequestComplete i c st fa \<Rightarrow> is_terminal st
      | _ \<Rightarrow> True)"

context raft_client
begin

lemmas sound_handlers = sound_cancel sound_requeue sound_suspend sound_resume sound_hold sound_release sound_reserve
  sound_activate sound_abort sound_abort_orphans sound_hold_for_launch_failure sound_requeue_after_launch_failure
  sound_backoff sound_node_complete sound_complete sound_finish_srun sound_deadline sound_expire
  sound_signal_preemption sound_preempt sound_evict sound_mark_down sound_remove sound_update_node sound_drain_node
  sound_quarantine

lemma sound_handle: "sound s \<Longrightarrow> request_ok s r \<Longrightarrow> sound (handle ct s r)"
proof (cases r)
  case (Pair now q)
  then show "sound s \<Longrightarrow> request_ok s r \<Longrightarrow> ?thesis"
    by (cases q) (simp_all add: request_ok_def sound_handlers)
qed

end

text \<open>
  What happens to the tables: requests are handled, and entries are applied that no handler waits for any longer, such as
  a write whose \<^verbatim>\<open>propose\<close> timed out. A late entry has to be admissible where it is applied.
\<close>

datatype event = Handled "instant \<times> request" | Late "instant \<times> wal_operation"

definition handle_event :: "controller \<Rightarrow> cluster \<Rightarrow> event \<Rightarrow> cluster" where
  "handle_event ct s e = (case e of Handled r \<Rightarrow> handle ct s r | Late entry \<Rightarrow> apply_entry (ct_config ct) s entry)"

definition event_ok :: "cluster \<Rightarrow> event \<Rightarrow> bool" where
  "event_ok s e = (case e of Handled r \<Rightarrow> request_ok s r | Late entry \<Rightarrow> entry_ok s entry)"

lemma sound_entry: "sound s \<Longrightarrow> entry_ok s e \<Longrightarrow> sound (apply_entry cfg s e)"
  unfolding sound_def by (rule charges.inv_step)

sublocale raft_client \<subseteq> events: replicated_machine "handle_event ct" event_ok sound
  by unfold_locales (auto simp: handle_event_def event_ok_def sound_entry sound_handle split: event.splits)

context raft_client
begin

lemma sound_events: "sound s \<Longrightarrow> admissible_run (handle_event ct) event_ok s es \<Longrightarrow> sound (foldl (handle_event ct) s es)"
  by (rule events.inv_run)

end

text \<open>A log with one member, which applies what it is given.\<close>

definition commit_now :: "cluster_config \<Rightarrow> instant \<Rightarrow> wal_operation \<Rightarrow> cluster \<Rightarrow> cluster \<times> (propose_error + client_response)" where
  "commit_now cfg t op s = (let (s', resp) = apply_operation cfg t op s in (s', Inr resp))"

definition lone_controller :: "cluster_config \<Rightarrow> controller" where
  "lone_controller cfg = \<lparr>ct_config = cfg, ct_interval_secs = 30, ct_max_launch_backoff_secs = 600,
     ct_scheduler_interval_secs = 30, ct_kill_wait_secs = 30, ct_client_write = commit_now cfg 0\<rparr>"

lemma commit_now_commits: "commits cfg (commit_now cfg t)"
  by (auto simp: commits_def commit_now_def case_prod_beta)

interpretation lone: raft_client "lone_controller cfg" for cfg
  by unfold_locales (simp add: lone_controller_def commit_now_commits)

end
