(* ===== verification/Request_Props.thy ===== *)
theory Request_Props
  imports Request_Ledger
begin

text \<open>
  What the requests of the controller guarantee: the ledgers over any sequence of requests and for the placements
  the scheduler admits, the outcome of a cancellation, the delays after a failed launch, and the automatic requeue.
\<close>

section \<open>Ledgers\<close>

lemma sample_submitted_sound: "sound sample_submitted"
proof -
  have "sample_submitted = foldl (apply_entry sample_config) (cluster_new [] 1)
      [(10, NodeRegister sample_register), (20, JobSubmit 1 sample_spec)]"
    by (simp add: sample_submitted_def sample_registered_def)
  moreover have "admissible_run (apply_entry sample_config) entry_ok (cluster_new [] 1)
      ([(10, NodeRegister sample_register), (20, JobSubmit 1 sample_spec)] @ [(30, JobStart sample_start)])"
    using sample_admissible by (simp add: sample_log_def)
  ultimately show ?thesis
    unfolding sound_def using charges.inv_prefix [OF cluster_new_balanced] by metis
qed

definition sample_reserve :: "instant \<times> request" where
  "sample_reserve = (30, RequestReserve True 1 [''n1''] (with_scalar 2 4000) [(''n1'', with_scalar 2 4000)] False False)"

lemma sample_reserve_ok: "request_ok sample_submitted sample_reserve"
  using sample_start_ok by (simp add: request_ok_def sample_reserve_def start_ok_def sample_start_def)

lemma sample_reserve_node:
  "\<exists>node. hm_get (c_nodes (handle (lone_controller sample_config) sample_submitted sample_reserve)) ''n1'' = Some node
     \<and> ra_cpus (n_alloc_resources node) = 2"
proof -
  have j: "\<not> holds_a_placement (job_new 20 1 sample_spec)" "excluded_node (job_new 20 1 sample_spec) [''n1''] = None"
    "j_state (job_new 20 1 sample_spec) = Pending"
    by (simp_all add: holds_a_placement_def job_new_def excluded_node_def sample_spec_def job_spec_default_def)
  obtain node where "c_nodes sample_registered = [(''n1'', node)]" "n_alloc_resources node = ra_default"
    using sample_node(1) by blast
  with j show ?thesis
    by (simp add: sample_reserve_def reserve_placement_def proposing_def propose_def lone_controller_def commit_now_def
        stamp_occurred_at_def apply_operation_def apply_job_start_def sample_job Let_def hm_simps
        allocate_job_slices_def slice_for_def charge_node_def ra_add_def with_scalar_def ra_default_def sat_add_def)
qed

text \<open>
  C8. Requests handled one after the other, each with everything that follows the runs it ends (automatic requeues,
  drains after a failed health check), keep every node ledger equal, in every quantity, to what the placed jobs
  hold there. A proposal may fail at any point, before or after its entry is applied, and entries whose proposal
  timed out may be applied later, between any two requests. Reservations name known nodes, each once, with shares that
  fit the counters, completions end the run, and late entries are admissible where they are applied.
\<close>
theorem requests_keep_ledgers:
  assumes "commits (ct_config ct) (ct_client_write ct)" and "sound s"
    and "admissible_run (handle_event ct) event_ok s es"
    and "hm_get (c_nodes (foldl (handle_event ct) s es)) n = Some node"
  shows "ra_view (n_alloc_resources node) q = charged (c_jobs (foldl (handle_event ct) s es)) n q"
proof -
  have "sound (foldl (handle_event ct) s es)"
    by (rule raft_client.sound_events [OF raft_client.intro [OF assms(1)] assms(2,3)])
  then show ?thesis using balanced_nodeD assms(4) unfolding sound_def by blast
qed

theorem requests_keep_ledgers_witness:
  "charged (c_jobs (foldl (handle_event (lone_controller sample_config)) sample_submitted [Handled sample_reserve])) ''n1'' QCpus = 2
   \<and> charged (c_jobs (foldl (handle_event (lone_controller sample_config)) sample_submitted [Late (30, JobStart sample_start)])) ''n1'' QCpus = 2"
proof
  have c: "commits (ct_config (lone_controller sample_config)) (ct_client_write (lone_controller sample_config))"
    by (simp add: lone_controller_def commit_now_commits)
  obtain node where node: "hm_get (c_nodes (foldl (handle_event (lone_controller sample_config)) sample_submitted [Handled sample_reserve])) ''n1'' = Some node"
    "ra_cpus (n_alloc_resources node) = 2"
    using sample_reserve_node by (auto simp: handle_event_def)
  from requests_keep_ledgers [OF c sample_submitted_sound _ node(1), of QCpus]
  show "charged (c_jobs (foldl (handle_event (lone_controller sample_config)) sample_submitted [Handled sample_reserve])) ''n1'' QCpus = 2"
    using node(2) sample_reserve_ok by (simp add: event_ok_def)
  obtain node' where node': "hm_get (c_nodes (foldl (handle_event (lone_controller sample_config)) sample_submitted
      [Late (30, JobStart sample_start)])) ''n1'' = Some node'" "ra_cpus (n_alloc_resources node') = 2"
    using sample_reserved_node by (auto simp: handle_event_def lone_controller_def sample_reserved_def)
  from requests_keep_ledgers [OF c sample_submitted_sound _ node'(1), of QCpus]
  show "charged (c_jobs (foldl (handle_event (lone_controller sample_config)) sample_submitted [Late (30, JobStart sample_start)])) ''n1'' QCpus = 2"
    using node'(2) sample_start_ok by (simp add: event_ok_def entry_ok_def admissible_def)
qed

text \<open>
  A node that passes the admission test for the request of a job, with the share the scheduler builds on it.
\<close>

definition admitted_on ::
  "cluster \<Rightarrow> (string \<Rightarrow> resource_set) \<Rightarrow> (string \<Rightarrow> (string \<times> u32) list) \<Rightarrow> (string, resource_allocations) hashmap \<Rightarrow> string \<Rightarrow> bool" where
  "admitted_on s req order shares n =
     (case hm_get (c_nodes s) n of
        None \<Rightarrow> False
      | Some node \<Rightarrow>
          tame (n_alloc_resources node) \<and> distinct (map gr_stable_id (rs_gpus (n_total_resources node)))
          \<and> request_wf (req n)
          \<and> can_satisfy_with_allocated (n_total_resources node) (n_alloc_resources node) (req n)
          \<and> hm_get shares n = Some (build_node_allocation (order n) (n_total_resources node) (n_alloc_resources node) (req n)))"

lemma ra_ok_scalar: "ra_ok (with_scalar c m)"
  by (simp add: ra_ok_def with_scalar_def ra_default_def)

lemma admitted_slice:
  assumes "admitted_on s req order shares n"
  shows "ra_ok (slice_for shares res names n) \<and> (case hm_get (c_nodes s) n of None \<Rightarrow> False
      | Some node \<Rightarrow> \<forall>q. ra_view (n_alloc_resources node) q + ra_view (slice_for shares res names n) q \<le> ra_cap q)"
proof -
  from assms obtain node where node: "hm_get (c_nodes s) n = Some node" "tame (n_alloc_resources node)"
    "distinct (map gr_stable_id (rs_gpus (n_total_resources node)))" "request_wf (req n)"
    "can_satisfy_with_allocated (n_total_resources node) (n_alloc_resources node) (req n)"
    "hm_get shares n = Some (build_node_allocation (order n) (n_total_resources node) (n_alloc_resources node) (req n))"
    unfolding admitted_on_def by (cases "hm_get (c_nodes s) n") auto
  show ?thesis
    using built_share(1) [OF node(3,4) refl] share_fits [OF node(5,2,3,4) refl]
    by (simp add: slice_for_def node(1,6) del: ra_view.simps)
qed

lemma admitted_request_ok:
  assumes "distinct names" and "\<forall>n \<in> set names. admitted_on s req order shares n" and "set (hm_keys shares) \<subseteq> set names"
  shows "request_ok s (now, RequestReserve f i names res shares b c)"
proof -
  have "ra_ok (slice_for shares res names n)" for n
  proof (cases "n \<in> set names")
    case True
    then show ?thesis using assms(2) admitted_slice by blast
  next
    case False
    then have "hm_get shares n = None" using assms(3) by (auto simp: map_of_eq_None_iff)
    then show ?thesis by (simp add: slice_for_def Let_def ra_ok_scalar)
  qed
  moreover have "fits (c_nodes s) names res shares" unfolding fits_def using assms(2) admitted_slice by blast
  ultimately show ?thesis using assms(1) by (simp add: request_ok_def)
qed

lemma start_outcome:
  assumes "apply_job_start p s = (s', resp)"
  shows "if cr_job_started resp then c_nodes s' = allocate_job_slices (sr_nodes p) (sr_resources p) (sr_per_node_alloc p) (c_nodes s)
     else s' = s"
  using assms by (auto simp: apply_job_start_def Let_def response_default_def split: if_splits)

lemma proposing_outcome:
  assumes "commits (ct_config ct) (ct_client_write ct)" and "proposing ct now op k s = (s', r)"
  obtains (failed) t e where "s' = s \<or> s' = fst (apply_operation (ct_config ct) t (stamp_occurred_at now op) s)"
      and "r = Inl (ProposeFailed e)"
  | (committed) t s1 resp where "apply_operation (ct_config ct) t (stamp_occurred_at now op) s = (s1, resp)"
      and "k resp s1 = (s', r)"
proof (rule raft_client.propose_cases [OF raft_client.intro [OF assms(1)], of now op s])
  fix e assume "propose ct now op s = (s, Inl e)"
  then show thesis using assms(2) failed by (auto simp: proposing_def)
next
  fix t e assume "propose ct now op s = (fst (apply_operation (ct_config ct) t (stamp_occurred_at now op) s), Inl e)"
  then show thesis using assms(2) failed by (auto simp: proposing_def)
next
  fix t assume "propose ct now op s = (fst (apply_operation (ct_config ct) t (stamp_occurred_at now op) s),
      Inr (snd (apply_operation (ct_config ct) t (stamp_occurred_at now op) s)))"
  then show thesis
    using assms(2) committed [of t "fst (apply_operation (ct_config ct) t (stamp_occurred_at now op) s)"
        "snd (apply_operation (ct_config ct) t (stamp_occurred_at now op) s)"] by (simp add: proposing_def)
qed

lemma reserve_outcome:
  assumes c: "commits (ct_config ct) (ct_client_write ct)"
    and r: "reserve_placement fc ct now i names res shares b c' s = (s', r)"
  shows "if r \<in> range Inr then c_nodes s' = allocate_job_slices names res shares (c_nodes s)
    else s' = s \<or> c_nodes s' = allocate_job_slices names res shares (c_nodes s)"
proof -
  let ?charged = "\<lambda>p s'. c_nodes s' = allocate_job_slices (sr_nodes p) (sr_resources p) (sr_per_node_alloc p) (c_nodes s)"
  have start: "if cr_job_started resp then ?charged p s1 else s1 = s"
    if "apply_operation (ct_config ct) t (stamp_occurred_at now (JobStart p)) s = (s1, resp)" for t p s1 resp
    using start_outcome [of _ s s1 resp] that by (force simp: stamp_occurred_at_def apply_operation_def)
  have tail: "(s' = s \<or> ?charged p s') \<and> (\<forall>a. r = Inr a \<longrightarrow> ?charged p s')"
    if t: "proposing ct now (JobStart p) (\<lambda>resp s. (s, if cr_job_started resp then Inr ra else Inl (LostRace i))) s = (s', r)"
    for p ra and r :: "request_error + u32"
  proof (rule proposing_outcome [OF c t])
    fix u e assume "s' = s \<or> s' = fst (apply_operation (ct_config ct) u (stamp_occurred_at now (JobStart p)) s)"
      and "r = Inl (ProposeFailed e)"
    then show ?thesis using start [of u p] by (metis prod.collapse sum.distinct(1))
  next
    fix u s1 resp assume "apply_operation (ct_config ct) u (stamp_occurred_at now (JobStart p)) s = (s1, resp)"
      and "(s1, if cr_job_started resp then Inr ra else Inl (LostRace i)) = (s', r)"
    then show ?thesis using start [of u p s1 resp] by (auto split: if_splits)
  qed
  show ?thesis
    using r by (cases r; auto simp: reserve_placement_def Let_def split: option.splits if_splits dest!: tail)
qed

text \<open>The tables \<open>s'\<close> charge each of the nodes the share built on it in \<open>s\<close>, in every quantity.\<close>

definition charges_shares ::
  "cluster \<Rightarrow> (string \<Rightarrow> resource_set) \<Rightarrow> (string \<Rightarrow> (string \<times> u32) list) \<Rightarrow> string list \<Rightarrow> cluster \<Rightarrow> bool" where
  "charges_shares s req order names s' =
     (\<forall>n \<in> set names. \<forall>q.
        map_option (\<lambda>node. ra_view (n_alloc_resources node) q) (hm_get (c_nodes s') n)
          = map_option (\<lambda>node. ra_view (n_alloc_resources node) q
              + ra_view (build_node_allocation (order n) (n_total_resources node) (n_alloc_resources node) (req n)) q)
            (hm_get (c_nodes s) n))"

lemma charges_admitted_shares:
  assumes "sound s" and "distinct names" and "\<forall>n \<in> set names. admitted_on s req order shares n"
    and "c_nodes s' = allocate_job_slices names res shares (c_nodes s)"
  shows "charges_shares s req order names s'"
  unfolding charges_shares_def
proof (intro ballI allI)
  fix n q assume n: "n \<in> set names"
  then have adm: "admitted_on s req order shares n" using assms(3) by blast
  then obtain node where node: "hm_get (c_nodes s) n = Some node"
    "slice_for shares res names n = build_node_allocation (order n) (n_total_resources node) (n_alloc_resources node) (req n)"
    by (cases "hm_get (c_nodes s) n") (auto simp: admitted_on_def slice_for_def)
  have "ra_wf (n_alloc_resources node)" using balanced_nodeD [OF _ node(1)] assms(1) unfolding sound_def by blast
  then show "map_option (\<lambda>node. ra_view (n_alloc_resources node) q) (hm_get (c_nodes s') n)
      = map_option (\<lambda>node. ra_view (n_alloc_resources node) q
          + ra_view (build_node_allocation (order n) (n_total_resources node) (n_alloc_resources node) (req n)) q)
        (hm_get (c_nodes s) n)"
    using admitted_slice [OF adm, of res names] node n
    by (simp add: assms(4) hm_get_allocate assms(2) ra_view_add min_absorb2 del: ra_view.simps)
qed

text \<open>
  C9. The admission test of the scheduler and the ledgers agree: reserving, for a job, the shares built on nodes
  that pass the test for its request keeps all ledgers balanced. A reservation that is answered adds to each of the
  nodes exactly the share built on it, without any counter saturating; one that is refused changes nothing, unless
  its proposal had an unknown outcome and was applied in that same way.
\<close>
theorem admitted_placement_is_charged:
  assumes "commits (ct_config ct) (ct_client_write ct)" and "sound s"
    and "distinct names" and "\<forall>n \<in> set names. admitted_on s req order shares n" and "set (hm_keys shares) \<subseteq> set names"
    and "reserve_placement fc ct now i names res shares b c s = (s', r)"
  shows "sound s' \<and> (case r of
      Inl _ \<Rightarrow> s' = s \<or> charges_shares s req order names s'
    | Inr _ \<Rightarrow> charges_shares s req order names s')"
proof
  have "request_ok s (now, RequestReserve f i names res shares b c)" for f
    by (rule admitted_request_ok [OF assms(3-5)])
  then show "sound s'"
    using raft_client.sound_reserve [OF raft_client.intro [OF assms(1)] assms(2), of names shares res fc now i b c] assms(6)
    by (simp add: request_ok_def)
  show "case r of Inl _ \<Rightarrow> s' = s \<or> charges_shares s req order names s' | Inr _ \<Rightarrow> charges_shares s req order names s'"
    using reserve_outcome [OF assms(1,6)] charges_admitted_shares [OF assms(2-4)] by (cases r) (auto split: if_splits)
qed

text \<open>The sample job asks for two of the eight cores of the sample node.\<close>

definition sample_small_request :: resource_set where
  "sample_small_request = rs_default\<lparr>rs_cpus := 2, rs_memory_mb := 4000\<rparr>"

lemma sample_admitted:
  "admitted_on sample_submitted (\<lambda>_. sample_small_request) (\<lambda>_. [])
     [(''n1'', with_scalar 2 4000)] ''n1''"
proof -
  have "\<exists>node. c_nodes sample_registered = [(''n1'', node)] \<and> n_alloc_resources node = ra_default
      \<and> rs_cpus (n_total_resources node) = 8 \<and> rs_memory_mb (n_total_resources node) = 16000
      \<and> rs_gpus (n_total_resources node) = [] \<and> rs_generation (n_total_resources node) = 0"
    by (simp add: sample_registered_def apply_entry_def apply_operation_def apply_node_register_def sample_register_def
        cluster_new_def Let_def node_new_def apply_node_config_policy_def sample_config_def backfill_stable_ids_def
        rs_default_def reset_config_policy_def recompute_core_layout_def derive_core_layout_def Node.is_up_def)
  then show ?thesis
    by (auto simp: admitted_on_def sample_job tame_default [unfolded ra_default_def] request_wf_def sample_small_request_def
        can_satisfy_with_allocated_def gpu_counts_def build_node_allocation_def push_generic_def
        rs_default_def ra_default_def with_scalar_def sat_sub_def)
qed

theorem admitted_placement_is_charged_witness:
  "case reserve_placement (\<lambda>_ _ _ _. True) (lone_controller sample_config) 30 1 [''n1''] (with_scalar 2 4000)
      [(''n1'', with_scalar 2 4000)] False False sample_submitted of
     (s', r) \<Rightarrow> sound s' \<and> charges_shares sample_submitted (\<lambda>_. sample_small_request) (\<lambda>_. []) [''n1''] s'"
proof -
  obtain s' r where r: "reserve_placement (\<lambda>_ _ _ _. True) (lone_controller sample_config) 30 1 [''n1''] (with_scalar 2 4000)
      [(''n1'', with_scalar 2 4000)] False False sample_submitted = (s', r)" by force
  have c: "commits (ct_config (lone_controller sample_config)) (ct_client_write (lone_controller sample_config))"
    by (simp add: lone_controller_def commit_now_commits)
  have "s' \<noteq> sample_submitted"
    using sample_reserve_node r sample_node(1) by (auto simp: sample_reserve_def sample_job ra_default_def)
  then show ?thesis
    using admitted_placement_is_charged [OF c sample_submitted_sound _ _ _ r, of "\<lambda>_. sample_small_request" "\<lambda>_. []"]
      sample_admitted r by (cases r) auto
qed

section \<open>Cancelling\<close>

lemma side_effects_of_a_cancelled_run:
  assumes "\<forall>f \<in> set (cr_jobs_finalized resp). jf_state f \<in> {Cancelled, Preempted}"
  shows "run_all_finalized_side_effects ct now resp s = s"
proof -
  have react: "react_to_health_job_finalized ct now i st code s = s" if "st \<in> {Cancelled, Preempted}" for i st code s
    using that by (cases "hm_get (c_jobs s) i"; elim insertE emptyE)
      (simp_all add: react_to_health_job_finalized_def split: list.split)
  have one: "run_job_finalized_side_effects ct now f s = s" if "jf_state f \<in> {Cancelled, Preempted}" for f s
    using that react by (auto simp: run_job_finalized_side_effects_def notify_job_finished_def)
  have "foldl (\<lambda>s f. run_job_finalized_side_effects ct now f s) s fs = s"
    if "\<forall>f \<in> set fs. jf_state f \<in> {Cancelled, Preempted}" for fs
    using that by (induction fs) (simp_all add: one)
  then show ?thesis using assms by (simp add: run_all_finalized_side_effects_def)
qed

lemma cancel_signaled_outcome:
  assumes "hm_get (c_jobs s) i = Some job" and "j_allocated_nodes job \<noteq> []"
    and "apply_job_cancel_signaled now i at cancel s = (s', resp)"
  shows "job_is Completing i s' \<or> s' = s"
proof (cases "is_active (j_state job)")
  case True
  then show ?thesis
    using assms by (auto simp: apply_job_cancel_signaled_def job_is_def begin_completing_def transition_def put_job_def
        is_active_def Let_def hm_simps)
next
  case False
  then show ?thesis using assms by (simp add: apply_job_cancel_signaled_def)
qed

lemma complete_run_cancelled:
  assumes "valid_transition (j_state job) Cancelled"
  obtains job2 fins where "complete_run now t p Cancelled job = Inr (job2, fins)" and "j_state job2 = Cancelled"
    and "\<forall>f \<in> set fins. jf_state f \<in> {Cancelled, Preempted}"
  using assms that
  by (simp add: complete_run_def transition_def Let_def for_job_def for_job_with_elapsed_def end_of_run_state_def
      split: prod.split)

lemma cancelled_outcome:
  assumes "hm_get (c_jobs s) i = Some job" and "\<not> is_terminal (j_state job)" and "j_state job \<noteq> Requeued"
    and "jc_job_id p = i" and "jc_state p = Cancelled" and "jc_cancel p \<noteq> None"
    and "apply_job_complete now t p s = (s', resp)"
  shows "job_is Cancelled i s' \<and> (\<forall>f \<in> set (cr_jobs_finalized resp). jf_state f \<in> {Cancelled, Preempted})"
proof -
  have "valid_transition (j_state job) Cancelled" using assms(2,3) by (cases "j_state job") (simp_all add: is_terminal_def)
  then obtain job2 fins where r: "complete_run now t p Cancelled job = Inr (job2, fins)" "j_state job2 = Cancelled"
    "\<forall>f \<in> set fins. jf_state f \<in> {Cancelled, Preempted}" by (rule complete_run_cancelled)
  have "\<not> (is_finalized (j_state job) \<and> \<not> (j_state job = Preempted \<and> jc_state p = Cancelled))"
    using assms(2,3,5) by (auto simp: is_finalized_def)
  then have "hm_get (c_jobs s') i = Some job2 \<and> cr_jobs_finalized resp = fins"
    using assms r(1) by (auto simp: apply_job_complete_def Let_def put_job_def hm_simps response_default_def
        split: option.splits)
  then show ?thesis using r(2,3) by (simp add: job_is_def)
qed

text \<open>
  C10. Cancelling a live job. A caller who neither owns the job nor operates the cluster changes nothing. Otherwise
  the request either reports the proposal that failed or leaves the job cancelled, or completing while its nodes
  tear the run down; what follows the end of the run does not revive it.
\<close>
theorem cancel_ends_the_run:
  assumes "commits (ct_config ct) (ct_client_write ct)"
    and "hm_get (c_jobs s) i = Some job" and "\<not> is_terminal (j_state job)" and "j_state job \<noteq> Requeued"
    and "cancel_job_for ct now i canceller operates_jobs s = (s', r)"
  shows "if operates_jobs \<or> (cn_user canceller \<noteq> [] \<and> cn_user canceller = js_user (j_spec job))
    then (case r of Inl e \<Rightarrow> \<exists>p. e = ProposeFailed p | Inr _ \<Rightarrow> job_is Completing i s' \<or> job_is Cancelled i s')
    else s' = s \<and> r = Inl (NotJobOwner (cn_user canceller) (js_user (j_spec job)) ''cancel'')"
proof -
  let ?cancel = "canceller_provenance canceller (js_user (j_spec job))"
  let ?finish = "proposing ct now (job_cancelled i ?cancel) (\<lambda>resp s. (run_all_finalized_side_effects ct now resp s, Inr ()))"
  let ?ok = "case r of Inl e \<Rightarrow> \<exists>p. e = ProposeFailed p | Inr _ \<Rightarrow> job_is Completing i s' \<or> job_is Cancelled i s'"
  have finish: ?ok if f: "?finish s = (s', r)"
  proof (rule proposing_outcome [OF assms(1) f])
    fix t s1 resp
    assume a: "apply_operation (ct_config ct) t (stamp_occurred_at now (job_cancelled i ?cancel)) s = (s1, resp)"
      and k: "(run_all_finalized_side_effects ct now resp s1, Inr ()) = (s', r)"
    obtain p where p: "stamp_occurred_at now (job_cancelled i ?cancel) = JobComplete p"
      "jc_job_id p = i" "jc_state p = Cancelled" "jc_cancel p \<noteq> None"
      by (simp add: job_cancelled_def stamp_occurred_at_def)
    have "apply_job_complete t (op_timestamp t (JobComplete p)) p s = (s1, resp)"
      using a by (simp add: p(1) apply_operation_def)
    from cancelled_outcome [OF assms(2-4) p(2-4) this]
    show ?ok using k side_effects_of_a_cancelled_run [of resp ct now s1] by auto
  qed simp
  have signal: ?ok if g: "proposing ct now (JobCancelSignaled i now (Some ?cancel))
      (\<lambda>_ s. if job_is Completing i s then (s, Inr ()) else ?finish s) s = (s', r)" and n: "j_allocated_nodes job \<noteq> []"
  proof (rule proposing_outcome [OF assms(1) g])
    fix t s1 resp
    assume a: "apply_operation (ct_config ct) t (stamp_occurred_at now (JobCancelSignaled i now (Some ?cancel))) s = (s1, resp)"
      and k: "(if job_is Completing i s1 then (s1, Inr ()) else ?finish s1) = (s', r)"
    have "job_is Completing i s1 \<or> s1 = s"
      using cancel_signaled_outcome [OF assms(2) n, of t now "Some ?cancel"] a by (simp add: stamp_occurred_at_def apply_operation_def)
    then show ?ok using k finish by (auto split: if_splits)
  qed simp
  show ?thesis
    using assms(2,3,5) finish signal
    by (auto simp: cancel_job_for_def check_job_owner_def Let_def split: if_splits)
qed

theorem cancel_ends_the_run_witness:
  "case cancel_job_for (lone_controller sample_config) 40 1 \<lparr>cn_user = ''root'', cn_uid = Some 0, cn_system = False\<rparr> True sample_submitted of
     (s', Inl e) \<Rightarrow> \<exists>p. e = ProposeFailed p
   | (s', Inr _) \<Rightarrow> job_is Completing 1 s' \<or> job_is Cancelled 1 s'"
proof -
  obtain s' r where r: "cancel_job_for (lone_controller sample_config) 40 1
      \<lparr>cn_user = ''root'', cn_uid = Some 0, cn_system = False\<rparr> True sample_submitted = (s', r)" by force
  have c: "commits (ct_config (lone_controller sample_config)) (ct_client_write (lone_controller sample_config))"
    by (simp add: lone_controller_def commit_now_commits)
  show ?thesis
    using cancel_ends_the_run [OF c _ _ _ r, of "job_new 20 1 sample_spec"] r
    by (cases r) (simp_all add: sample_job job_new_def is_terminal_def)
qed

section \<open>Requeueing and delays\<close>

lemma repend_outcome:
  assumes "hm_get (c_jobs s) i = Some job" and "j_state job \<in> {Timeout, NodeFail}"
    and "sc_job_id p = i" and "sc_new_state p = Pending" and "sc_expected_run_attempt p = None"
    and "apply_operation cfg t (stamp_occurred_at now (JobStateChange p)) s = (s', resp)"
  shows "hm_get (c_jobs s') i
    = Some (enter_pending (cc_max_batch_requeue cfg) p (job\<lparr>j_state := Pending, j_end_time := None\<rparr>))"
  using assms
  by (auto simp: stamp_occurred_at_def apply_operation_def apply_job_state_change_def apply_transition_def transition_def Let_def
      put_job_def hm_simps is_terminal_def enter_pending_def)

lemma enter_pending_fields:
  "j_state (enter_pending m p job) = j_state job"
  "j_allocated_nodes (enter_pending m p job) = []"
  "j_requeue_count (enter_pending m p job) = (if j_requeue_count job < m then j_requeue_count job + 1 else j_requeue_count job)"
  "j_pending_reason (enter_pending m p job) = (case sc_pending_reason p of None \<Rightarrow> PR_None | Some r \<Rightarrow> r)"
  "sc_pending_priority p = Some pr \<Longrightarrow> j_priority (enter_pending m p job) = pr"
  by (simp_all add: enter_pending_def Let_def reset_job_for_requeue_def clear_run_state_for_requeue_def set_reason_def
      set_pending_reason_def set_pending_reason_desc_def drop_stale_detail_def set_begin_time_def split: option.split)

text \<open>
  C37. The automatic requeue of a job that timed out or lost a node, when its proposal is committed. Below the
  limit, a job submitted with the requeue flag returns to the queue without nodes and with one more requeue, so the
  count never passes the limit, and a job without the flag stays as it ended. At the limit the job is put back
  pending and held, with or without the flag.
\<close>
theorem automatic_requeue_outcome:
  assumes "commits (ct_config ct) (ct_client_write ct)"
    and "hm_get (c_jobs s) i = Some job" and "j_state job \<in> {Timeout, NodeFail}"
    and "maybe_requeue ct now i s = (s', Inr ())"
  shows "case hm_get (c_jobs s') i of
      None \<Rightarrow> False
    | Some job' \<Rightarrow>
        if cc_max_batch_requeue (ct_config ct) \<le> j_requeue_count job then
          j_state job' = Pending \<and> j_priority job' = 0 \<and> j_pending_reason job' = PR_JobHoldMaxRequeue
          \<and> j_requeue_count job' = j_requeue_count job
        else if js_requeue (j_spec job) then
          j_state job' = Pending \<and> j_allocated_nodes job' = [] \<and> j_requeue_count job' = j_requeue_count job + 1
          \<and> j_requeue_count job' \<le> cc_max_batch_requeue (ct_config ct)
        else job' = job"
proof -
  let ?max = "cc_max_batch_requeue (ct_config ct)"
  have repend: "hm_get (c_jobs s') i = Some (enter_pending ?max p (job\<lparr>j_state := Pending, j_end_time := None\<rparr>))"
    if p: "sc_job_id p = i" "sc_new_state p = Pending" "sc_expected_run_attempt p = None"
      and r: "proposing ct now (JobStateChange p) (\<lambda>_ s. (s, Inr ())) s = (s', Inr ())" for p
    by (rule proposing_outcome [OF assms(1) r]) (simp_all, metis repend_outcome [OF assms(2,3) p])
  show ?thesis
  proof (cases "?max \<le> j_requeue_count job")
    case True
    let ?p = "(state_change_of i (j_state job) Pending)\<lparr>sc_pending_reason := Some PR_JobHoldMaxRequeue, sc_pending_priority := Some 0\<rparr>"
    have "proposing ct now (JobStateChange ?p) (\<lambda>_ s. (s, Inr ())) s = (s', Inr ())"
      using assms(2-4) True
      by (auto simp: maybe_requeue_def hold_job_at_max_requeue_def job_state_change_held_pending_def Let_def)
    from repend [OF _ _ _ this] show ?thesis
      using True by (simp add: state_change_of_def enter_pending_fields)
  next
    case False
    show ?thesis
    proof (cases "js_requeue (j_spec job)")
      case True
      obtain p where p: "sc_job_id p = i" "sc_new_state p = Pending" "sc_expected_run_attempt p = None"
        "proposing ct now (JobStateChange p) (\<lambda>_ s. (s, Inr ())) s = (s', Inr ())"
        using assms(2,4) False True
        by (force simp: maybe_requeue_def job_state_change_backoff_pending_def job_state_change_op_def state_change_of_def
            split: if_splits)
      from repend [OF p] show ?thesis
        using True False by (simp add: enter_pending_fields inc_le)
    next
      case no: False
      then show ?thesis using assms(2,4) False by (simp add: maybe_requeue_def)
    qed
  qed
qed

text \<open>The sample job, lost with its node after its last allowed requeue and submitted without the flag.\<close>

definition sample_lost :: cluster where
  "sample_lost = put_job 1 ((job_new 20 1 sample_spec)\<lparr>j_state := NodeFail,
     j_requeue_count := cc_max_batch_requeue sample_config\<rparr>) sample_submitted"

theorem automatic_requeue_outcome_witness:
  "\<not> js_requeue sample_spec \<and> (case maybe_requeue (lone_controller sample_config) 40 1 sample_lost of
      (s', r) \<Rightarrow> job_is Pending 1 s' \<and> r = Inr ())"
proof -
  have c: "commits (ct_config (lone_controller sample_config)) (ct_client_write (lone_controller sample_config))"
    by (simp add: lone_controller_def commit_now_commits)
  have j: "hm_get (c_jobs sample_lost) 1 = Some ((job_new 20 1 sample_spec)\<lparr>j_state := NodeFail,
     j_requeue_count := cc_max_batch_requeue sample_config\<rparr>)" by (simp add: sample_lost_def hm_simps)
  obtain s' where r: "maybe_requeue (lone_controller sample_config) 40 1 sample_lost = (s', Inr ())"
    by (simp add: maybe_requeue_def j hold_job_at_max_requeue_def lone_controller_def proposing_def propose_def commit_now_def
        case_prod_unfold Let_def)
  show ?thesis
    using automatic_requeue_outcome [OF c j _ r] r
    by (simp add: job_is_def lone_controller_def sample_spec_def job_spec_default_def split: option.splits)
qed

lemma unat_min: "unat (min a b) = min (unat a) (unat b)"
  by (simp add: min_def word_le_nat_alt)

lemma sat_mul_exact: "unat a * unat b < 2 ^ 64 \<Longrightarrow> unat (sat_mul a b) = unat a * unat b"
  by (simp add: sat_mul_def unat_word_ariths)

text \<open>
  The delay after a failed launch, in the 64-bit arithmetic of the code, is the exact exponential back-off: the
  base doubled once per requeue, sixteen times at most, capped by the configured limit and by one day; no step wraps
  or saturates.
\<close>
theorem launch_backoff_is_exact:
  "unat (launch_backoff_secs interval cap requeues)
     = min (max (2 * unat interval + 3) 5 * 2 ^ min (unat requeues) 16) (min (unat cap) 86400)"
proof -
  have i: "unat interval < 2 ^ 32" using unsigned_less [of interval] by simp
  let ?k = "min (unat requeues) 16"
  let ?base = "max (ucast interval * 2 + 3) 5 :: u64"
  have "unat (ucast interval * 2 + 3 :: u64) = 2 * unat interval + 3"
    using i by (simp add: unat_word_ariths unsigned_ucast_eq take_bit_nat_eq_self)
  then have b: "unat ?base = max (2 * unat interval + 3) 5" by (simp add: max_def word_le_nat_alt)
  have "(2::nat) ^ ?k < 2 ^ 64" by (rule power_strict_increasing) simp_all
  then have p: "unat (push_bit ?k 1 :: u64) = 2 ^ ?k"
    unfolding unsigned_push_bit_eq by (simp add: take_bit_nat_eq_self)
  have "(2::nat) ^ ?k \<le> 2 ^ 16" by (rule power_increasing) simp_all
  then have "max (2 * unat interval + 3) 5 * 2 ^ ?k \<le> max (2 * unat interval + 3) 5 * 2 ^ 16" by simp
  also have "\<dots> < 2 ^ 64" using i by (simp add: max_def)
  finally have lt: "max (2 * unat interval + 3) 5 * 2 ^ ?k < (2 ^ 64 :: nat)" .
  have m: "unat (sat_mul ?base (push_bit ?k 1)) = max (2 * unat interval + 3) 5 * 2 ^ ?k"
    unfolding sat_mul_exact [of ?base "push_bit ?k 1", unfolded b p, OF lt] ..
  show ?thesis
    using m by (simp add: launch_backoff_secs_def Let_def unat_min max_launch_backoff_secs_def min.assoc)
qed

end
