(* ===== verification/Dispatch_Props.thy ===== *)
theory Dispatch_Props
  imports Scheduler_Loop Request_Props
begin

text \<open>
  From the pass to the ledgers: the reservations the controller proposes for the assignments of a pass keep every
  ledger balanced and within its node.
\<close>

section \<open>Reservations of assignments\<close>

text \<open>The request for an assignment; \<open>details\<close> gives what does not come from the pass.\<close>

definition reserve_request ::
  "(assignment \<Rightarrow> instant \<times> bool \<times> resource_allocations \<times> bool \<times> bool) \<Rightarrow> assignment \<Rightarrow> instant \<times> request" where
  "reserve_request details a = (case details a of (t, checked, res, srun, fill) \<Rightarrow>
     (t, RequestReserve checked (as_job_id a) (as_nodes a) res (as_per_node_alloc a) srun fill))"

lemma node_cap_counts: "node_cap rs q \<le> ra_cap q"
proof (cases q)
  case (QDevice g i)
  have "unat w \<le> 2 ^ 64 - 1" for w :: u64 using unat_le_max [of w] by simp
  then show ?thesis by (auto simp: QDevice split: option.split)
qed (use unat_le_max [of "rs_cpus rs"] unat_le_max [of "rs_memory_mb rs"] in simp_all)

lemma given_append: "given (as @ bs) name q = given as name q + given bs name q"
  by (simp add: given_def)

lemma given_mset:
  "given as name q = (\<Sum>a \<in># mset as. case hm_get (as_per_node_alloc a) name of None \<Rightarrow> 0 | Some s \<Rightarrow> ra_view s q)"
  unfolding given_def by (simp flip: sum_mset_sum_list del: ra_view.simps)

lemma given_sub: "mset as \<subseteq># mset bs \<Longrightarrow> given as name q \<le> given bs name q"
  unfolding given_mset by (auto simp: subset_mset.le_iff_add simp del: ra_view.simps)

text \<open>The state of the controller after the reservations \<open>as\<close>, against the nodes the pass saw.\<close>

definition charged_up_to :: "node list \<Rightarrow> assignment list \<Rightarrow> cluster \<Rightarrow> bool" where
  "charged_up_to nodes as s =
     (\<forall>node \<in> set nodes. \<exists>node'. hm_get (c_nodes s) (n_name node) = Some node'
        \<and> n_total_resources node' = n_total_resources node \<and> ra_wf (n_alloc_resources node')
        \<and> (\<forall>q. ra_view (n_alloc_resources node') q \<le> ra_view (n_alloc_resources node) q + given as (n_name node) q))"

lemma assigned_slice:
  assumes ok: "assignment_ok cl now job a" and n: "n \<in> set (as_nodes a)"
  obtains node s where "node \<in> set (cs_nodes cl)" and "n = n_name node" and "hm_get (as_per_node_alloc a) n = Some s"
    and "slice_for (as_per_node_alloc a) res names n = s" and "ra_ok s" and "given [a] n = ra_view s"
proof -
  obtain node where node: "node \<in> set (cs_nodes cl)" "n = n_name node" using ok n by (auto simp: assignment_ok_def)
  obtain s where s: "hm_get (as_per_node_alloc a) n = Some s" using ok n unfolding assignment_ok_def by blast
  have "ra_wf s" using ok node s by (auto simp: assignment_ok_def fits_node_def)
  then show thesis using that [OF node s] s by (simp add: slice_for_def given_def ra_wf_ok fun_eq_iff del: ra_view.simps)
qed

lemma assigned_request_ok:
  assumes ok: "assignment_ok cl now job a" and charged: "charged_up_to (cs_nodes cl) as s"
    and room: "\<And>node q. node \<in> set (cs_nodes cl) \<Longrightarrow>
      ra_view (n_alloc_resources node) q + given (as @ [a]) (n_name node) q \<le> ra_cap q"
  shows "request_ok s (reserve_request details a)"
proof -
  have "ra_ok (slice_for (as_per_node_alloc a) res names n)" for res names n
  proof (cases "n \<in> set (as_nodes a)")
    case True
    then show ?thesis by (rule assigned_slice [OF ok, where res = res and names = names]) simp
  next
    case False
    then have "hm_get (as_per_node_alloc a) n = None" using ok unfolding assignment_ok_def by blast
    then show ?thesis by (simp add: slice_for_def Let_def ra_ok_scalar)
  qed
  moreover have "fits (c_nodes s) (as_nodes a) res (as_per_node_alloc a)" for res
    unfolding fits_def
  proof
    fix n assume "n \<in> set (as_nodes a)"
    then obtain node sh where node: "node \<in> set (cs_nodes cl)" "n = n_name node"
      "slice_for (as_per_node_alloc a) res (as_nodes a) n = sh" "given [a] n = ra_view sh"
      by (rule assigned_slice [OF ok])
    obtain node' where node': "hm_get (c_nodes s) n = Some node'"
      "\<forall>q. ra_view (n_alloc_resources node') q \<le> ra_view (n_alloc_resources node) q + given as n q"
      using charged node(1,2) by (auto simp: charged_up_to_def)
    have "ra_view (n_alloc_resources node') q + ra_view sh q \<le> ra_cap q" for q
      using node'(2) [rule_format, of q] room [OF node(1), of q] node(4)
      by (simp add: node(2) given_append del: ra_view.simps)
    then show "case hm_get (c_nodes s) n of None \<Rightarrow> False | Some node \<Rightarrow> \<forall>q.
        ra_view (n_alloc_resources node) q + ra_view (slice_for (as_per_node_alloc a) res (as_nodes a) n) q \<le> ra_cap q"
      by (simp add: node'(1) node(3) del: ra_view.simps)
  qed
  moreover have "distinct (as_nodes a)" using ok by (simp add: assignment_ok_def)
  ultimately show ?thesis by (simp add: request_ok_def reserve_request_def split: prod.split)
qed

lemma charged_step:
  assumes c: "commits (ct_config ct) (ct_client_write ct)" and ok: "assignment_ok cl now job a"
    and charged: "charged_up_to (cs_nodes cl) as s"
  shows "charged_up_to (cs_nodes cl) (as @ [a]) (handle ct s (reserve_request details a))"
proof -
  obtain t f res b d where details: "details a = (t, f, res, b, d)" by (cases "details a")
  obtain s' r where r: "reserve_placement (\<lambda>_ _ _ _. f) ct t (as_job_id a) (as_nodes a) res (as_per_node_alloc a) b d s = (s', r)"
    by fastforce
  have s': "handle ct s (reserve_request details a) = s'" by (simp add: reserve_request_def details r)
  have names: "distinct (as_nodes a)" using ok by (simp add: assignment_ok_def)
  have "c_nodes s' = c_nodes s \<or> c_nodes s' = allocate_job_slices (as_nodes a) res (as_per_node_alloc a) (c_nodes s)"
    using reserve_outcome [OF c r] by (auto split: if_splits)
  then show ?thesis
    unfolding charged_up_to_def s'
  proof (elim disjE; intro ballI)
    fix node assume "c_nodes s' = c_nodes s" "node \<in> set (cs_nodes cl)"
    then show "\<exists>node'. hm_get (c_nodes s') (n_name node) = Some node' \<and> n_total_resources node' = n_total_resources node
        \<and> ra_wf (n_alloc_resources node') \<and> (\<forall>q. ra_view (n_alloc_resources node') q
            \<le> ra_view (n_alloc_resources node) q + given (as @ [a]) (n_name node) q)"
      using charged by (auto simp: charged_up_to_def given_append trans_le_add1 simp del: ra_view.simps)
        (metis add.assoc trans_le_add1)
  next
    fix node assume al: "c_nodes s' = allocate_job_slices (as_nodes a) res (as_per_node_alloc a) (c_nodes s)"
      and node: "node \<in> set (cs_nodes cl)"
    obtain old where old: "hm_get (c_nodes s) (n_name node) = Some old" "n_total_resources old = n_total_resources node"
      "ra_wf (n_alloc_resources old)"
      "\<forall>q. ra_view (n_alloc_resources old) q \<le> ra_view (n_alloc_resources node) q + given as (n_name node) q"
      using charged node by (auto simp: charged_up_to_def)
    show "\<exists>node'. hm_get (c_nodes s') (n_name node) = Some node' \<and> n_total_resources node' = n_total_resources node
        \<and> ra_wf (n_alloc_resources node') \<and> (\<forall>q. ra_view (n_alloc_resources node') q
            \<le> ra_view (n_alloc_resources node) q + given (as @ [a]) (n_name node) q)"
    proof (cases "n_name node \<in> set (as_nodes a)")
      case True
      then obtain sh where sh: "slice_for (as_per_node_alloc a) res (as_nodes a) (n_name node) = sh" "ra_ok sh"
        "given [a] (n_name node) = ra_view sh" by (rule assigned_slice [OF ok])
      have "ra_view (ra_add (n_alloc_resources old) sh) q \<le> ra_view (n_alloc_resources node) q + given (as @ [a]) (n_name node) q" for q
        using old(4) [rule_format, of q] sh(3) by (simp add: ra_view_add [OF old(3) sh(2)] given_append del: ra_view.simps)
      then show ?thesis
        using True old sh(1,2) ra_wf_add [OF old(3) sh(2)]
        by (simp add: al hm_get_allocate [OF names] charge_node_def update_state_from_alloc_def del: ra_view.simps)
    next
      case False
      then show ?thesis
        using old by (simp add: al hm_get_allocate [OF names] given_append del: ra_view.simps)
          (metis add.assoc trans_le_add1)
    qed
  qed
qed

lemma reservations_charge:
  assumes c: "commits (ct_config ct) (ct_client_write ct)" and ok: "\<forall>a \<in> set as. \<exists>job. assignment_ok cl now job a"
    and start: "sound s" "charged_up_to (cs_nodes cl) [] s"
    and room: "\<And>node q. node \<in> set (cs_nodes cl) \<Longrightarrow> ra_view (n_alloc_resources node) q + given as (n_name node) q \<le> ra_cap q"
  shows "sound (foldl (handle ct) s (map (reserve_request details) as))
    \<and> charged_up_to (cs_nodes cl) as (foldl (handle ct) s (map (reserve_request details) as))"
  using ok room
proof (induction as rule: rev_induct)
  case Nil
  then show ?case using start by simp
next
  case (snoc a as)
  let ?s = "foldl (handle ct) s (map (reserve_request details) as)"
  have "ra_view (n_alloc_resources node) q + given as (n_name node) q \<le> ra_cap q" if "node \<in> set (cs_nodes cl)" for node q
    using snoc.prems(2) [OF that, of q] by (simp add: given_append)
  then have ih: "sound ?s" "charged_up_to (cs_nodes cl) as ?s" using snoc.IH snoc.prems(1) by auto
  obtain job where job: "assignment_ok cl now job a" using snoc.prems(1) by auto
  have "request_ok ?s (reserve_request details a)" using assigned_request_ok [OF job ih(2)] snoc.prems(2) by blast
  then have "sound (handle ct ?s (reserve_request details a))"
    by (rule raft_client.sound_handle [OF raft_client.intro [OF c] ih(1)])
  then show ?case using charged_step [OF c job ih(2)] by simp
qed

section \<open>Properties\<close>

text \<open>The registered node of the sample log, free, as the scheduler sees it.\<close>

definition sample_idle_fleet :: cluster_state where
  "sample_idle_fleet = \<lparr>cs_nodes = map snd (c_nodes sample_submitted), cs_reservations = [], cs_topology = None,
     cs_busy_until = [], cs_preemption_handoffs = []\<rparr>"

lemma sample_idle_node:
  obtains node where "c_nodes sample_submitted = [(''n1'', node)]" and "n_name node = ''n1''"
    and "n_total_resources node = rs_default\<lparr>rs_cpus := 8, rs_memory_mb := 16000\<rparr>" and "n_alloc_resources node = ra_default"
  by (simp add: sample_job sample_registered_def apply_entry_def apply_operation_def apply_node_register_def sample_register_def
      cluster_new_def Let_def node_new_def apply_node_config_policy_def sample_config_def backfill_stable_ids_def
      rs_default_def reset_config_policy_def recompute_core_layout_def derive_core_layout_def Node.is_up_def)

lemma sample_idle_fleet_ok: "fleet_ok sample_idle_fleet 100 (min (length [job]) (bs_max_jobs (scheduler_new 10)))"
proof -
  obtain node where node: "c_nodes sample_submitted = [(''n1'', node)]" "n_name node = ''n1''"
    "n_total_resources node = rs_default\<lparr>rs_cpus := 8, rs_memory_mb := 16000\<rparr>" "n_alloc_resources node = ra_default"
    by (rule sample_idle_node)
  have zero: "ra_view ra_default q = 0" for q by (cases q) (simp_all add: ra_default_def)
  have "fits_counters (\<lambda>q. node_cap (rs_default\<lparr>rs_cpus := 8, rs_memory_mb := 16000\<rparr>) q)"
    by (rule fits_counters_mono [OF sample_counters]) simp
  moreover have "ra_wf ra_default" "ra_pos ra_default" "ra_memory_mb ra_default = 0" "ra_cpus ra_default = 0"
    "\<not> has_devices ra_default"
    by (simp_all add: ra_default_def ra_wf_def ra_pos_def has_devices_def)
  ultimately show ?thesis
    using sample_inventory node
    by (simp add: fleet_ok_def sample_idle_fleet_def scheduler_new_def cluster_ok_def topology_ok_def zero del: ra_view.simps)
qed



end
