(* ===== verification/Spec2Isabelle.thy ===== *)
theory Spec2Isabelle
  imports Job_Props Cpu_Layout Reservation Replay Partition_Log Runs Timeline Dispatch_Props
begin

text \<open>
  A verification library for Spur, a Slurm-compatible workload manager written in Rust. Paths below are relative to
  \<^verbatim>\<open>src/crates\<close>.

  \<^bold>\<open>The program.\<close> Users submit jobs to a controller, \<^verbatim>\<open>spurctld\<close>, which keeps tables of jobs, steps, nodes,
  partitions and reservations. The tables are replicated: a handler of a request reads them, proposes an entry to a Raft log,
  and every replica applies the entries in the order of the log. A scheduler picks nodes with the timelines and the
  admission test of \<^verbatim>\<open>spur-sched\<close> and \<^verbatim>\<open>spur-core\<close>, and reserves the shares it built on them; daemons on
  the nodes run the jobs and report the end of every run. The central question is whether the ledgers of the nodes,
  what each of them is charged for, always agree with the placements of the jobs.

  \<^bold>\<open>Conventions.\<close> Unsigned integers are words of their width, with the wrapping or saturating operation the source
  uses; \<^verbatim>\<open>i32\<close> and \<^verbatim>\<open>i64\<close> are integers; instants and durations are integers in nanoseconds, and the
  clock is an argument \<open>now\<close>. A \<^verbatim>\<open>HashMap\<close> is an association list with distinct keys, whose order stands for
  the unspecified order of iteration. Structs are records, with a prefix for the fields of each (\<open>j_\<close> for
  \<^verbatim>\<open>Job\<close>, \<open>n_\<close> for \<^verbatim>\<open>Node\<close>, \<open>c_\<close> for the tables), enums are datatypes, and fallible code returns
  an option or a sum with the error on the left.

  \<^bold>\<open>Foundations.\<close> \<^verbatim>\<open>Spur_Prelude\<close> has the integer types, saturating arithmetic, the hash maps, and the locale
  \<open>replicated_machine\<close> of state machines whose steps keep an invariant on admissible inputs. \<^verbatim>\<open>Rust_Strings\<close> has the
  string functions and number formats of the standard library the sources use.

  \<^bold>\<open>Data of the core crate.\<close>
  \<^item> \<^verbatim>\<open>Devices\<close>, \<^verbatim>\<open>Resource\<close> (\<^verbatim>\<open>spur-devices/src/topology.rs\<close>, \<^verbatim>\<open>spur-core/src/resource.rs\<close>):
    inventories, allocations, charge and release, the admission test and the choice of devices. An allocation is read
    through its view, one number for each quantity; a share holds the GPUs that were asked for, all of them free.
  \<^item> \<^verbatim>\<open>Job_State\<close>, \<^verbatim>\<open>Job_Spec\<close>, \<^verbatim>\<open>Gpu_Request\<close>, \<^verbatim>\<open>Step\<close>, \<^verbatim>\<open>Job\<close>, \<^verbatim>\<open>Job_Props\<close>
    (\<^verbatim>\<open>job.rs\<close>, \<^verbatim>\<open>gpu_request.rs\<close>, \<^verbatim>\<open>step.rs\<close>, \<^verbatim>\<open>end_reason.rs\<close>): the job record and its
    transitions, GPU demands and their split, task distribution, and the verdict on a run. The verdict does not
    depend on the order of the reports and is a legal transition; output paths stay below their anchor.
  \<^item> \<^verbatim>\<open>Partition\<close>, \<^verbatim>\<open>Reservation\<close>, \<^verbatim>\<open>Node\<close> (\<^verbatim>\<open>partition.rs\<close>, \<^verbatim>\<open>burst_buffer.rs\<close>,
    \<^verbatim>\<open>reservation.rs\<close>, \<^verbatim>\<open>node.rs\<close>): the other tables. Two reservations overlap exactly when they share an
    instant.
  \<^item> \<^verbatim>\<open>Cpu_Layout\<close>, \<^verbatim>\<open>Hostlist\<close>, \<^verbatim>\<open>Bindings\<close> (\<^verbatim>\<open>cpu_topology.rs\<close>, \<^verbatim>\<open>core_layout.rs\<close>,
    \<^verbatim>\<open>hostlist.rs\<close>, \<^verbatim>\<open>gpu_identity.rs\<close>, \<^verbatim>\<open>gpu_binding.rs\<close>, \<^verbatim>\<open>fabric_binding.rs\<close>): the
    division of cores, CPU lists with their round trip, the expansion of host lists with its bounds, and the checks of device bindings.

  \<^bold>\<open>The replicated state machine.\<close> \<^verbatim>\<open>Wal\<close> has the entries (\<^verbatim>\<open>spur-core/src/wal.rs\<close>), \<^verbatim>\<open>Cluster\<close> the
  tables and the shared helpers and \<^verbatim>\<open>Cluster_Ops\<close> one definition for each arm of
  \<^verbatim>\<open>ClusterManager::apply_operation\<close> (\<^verbatim>\<open>spurctld/src/cluster.rs\<close>), composed by \<open>apply_operation\<close>.
  \<^item> \<^verbatim>\<open>Charge\<close>, \<^verbatim>\<open>Charge_Ops\<close>, \<^verbatim>\<open>Charge_Rename\<close>, \<^verbatim>\<open>Charge_Log\<close>: every entry keeps the balance of
    ledgers and placements. An entry is admissible when it does what its proposer is to check: a submission or
    registration has a fresh id or name; a start is of a pending job, on known and distinct nodes, with shares that fit the
    counters; a state change is to running or pending, a completion to a terminal state; a report comes from a node of the
    job; and a re-registration makes no two held GPU ids one.
  \<^item> \<^verbatim>\<open>Lifecycle\<close>: the life of a job as a small step relation, which the log refines.
  \<^item> \<^verbatim>\<open>Node_Names\<close>, \<^verbatim>\<open>Partition_Log\<close>, \<^verbatim>\<open>Log_Props\<close>: records stay under their own keys, there is at most
    one default partition, a node that is lost holds no jobs, and finished jobs stay finished, for whole logs.
  \<^item> \<^verbatim>\<open>Replay\<close>: which entries give the same tables on every replica whatever its clock reads, which may be
    delivered twice, and three entries for which this fails.
  \<^item> \<^verbatim>\<open>Runs\<close>: a run ends once every node has reported, and earmarks of freed nodes expire.

  \<^bold>\<open>Placement.\<close> \<^verbatim>\<open>Timeline\<close> models \<^verbatim>\<open>spur-sched/src/timeline.rs\<close>: the incremental sweep equals adding up
  the reservations from scratch, and the search for a start time returns a window that is free. Its loop is a
  \<open>partial_function\<close> over option, since the source has no counter; it is shown to return for every timeline, because each round
  moves past the end of an interval. \<^verbatim>\<open>Admission\<close> shows that the admission test is antitone in the resources
  in use, which the sweep relies on, and \<^verbatim>\<open>Placement\<close> that a share built on a node that passes the test fits it.

  \<^bold>\<open>The scheduler.\<close>
  \<^item> \<^verbatim>\<open>Constraints\<close>, \<^verbatim>\<open>Topology\<close>, \<^verbatim>\<open>Node_Match\<close> (\<^verbatim>\<open>spur-core/src/constraints.rs\<close>,
    \<^verbatim>\<open>spur-core/src/topology.rs\<close>, \<^verbatim>\<open>spur-sched/src/node_match.rs\<close>): the parser of constraints, which never takes a
    misspelt GPU term for a node feature; the tree of switches and the choice of nodes close together; the nodes a job may
    run on.
  \<^item> \<^verbatim>\<open>Backfill\<close>, \<^verbatim>\<open>Gpu_Planning\<close> (\<^verbatim>\<open>spur-sched/src/backfill.rs\<close>, \<^verbatim>\<open>traits.rs\<close>): the pass over the queue, in
    the pieces of \<^verbatim>\<open>schedule_jobs_with\<close>, and the planner of GPU constraints. The planner runs a pass of its own on a
    reduced cluster; it is a parameter of the pass, and \<^verbatim>\<open>schedule\<close> ties the two together.
  \<^item> \<^verbatim>\<open>Capacity\<close>, \<^verbatim>\<open>Backfill_Search\<close>, \<^verbatim>\<open>Backfill_Pass\<close>, \<^verbatim>\<open>Backfill_Queue\<close>: shares within the capacity of a
    node, the search for a common start, one job, the queue. The locale \<open>gpu_planning\<close> has what the pass needs of a
    planner: it returns, and what it plans has room. \<^verbatim>\<open>Gpu_Plan\<close> interprets it for a pass without a planner, from
    which it derives the contract of \<^verbatim>\<open>plan_gpu_job\<close>, and then for a pass with that planner.
  \<^item> \<^verbatim>\<open>Backfill_Props\<close>, \<^verbatim>\<open>Scheduler_Loop\<close>, \<^verbatim>\<open>Dispatch_Props\<close>: a pass returns, never gives out more than a node has,
    down to the single device, and gives each job what it asked for, on a cluster without overrunning jobs; the devices of a GPU plan meet the constraints of the
    job. \<^verbatim>\<open>Scheduler_Loop\<close> has the inputs and outputs of a pass in \<^verbatim>\<open>spurctld/src/scheduler_loop.rs\<close> and shows
    that a node whose jobs overrun is planned as free, the case the theorems on a pass exclude. \<^verbatim>\<open>Dispatch_Props\<close>
    joins the scheduler and the tables: reserving the assignments of a pass keeps every ledger balanced and within its node.

  \<^bold>\<open>Requests.\<close> \<^verbatim>\<open>Requests\<close> models the handlers of \<^verbatim>\<open>ClusterManager\<close> that propose entries: cancel, requeue, suspend
  and resume, hold and release, reserve, activate and abort a placement, report a completion, preempt, evict, expire,
  and the changes of node states, with the automatic requeue and the drains that follow the end of a run. The
  \<^verbatim>\<open>client_write\<close> of the Raft library is a parameter; the condition \<open>commits\<close> says that it applies the entry and returns the
  response, or returns an error after applying it or not; a write that is applied after its handler gave up is an event
  of its own between requests. \<^verbatim>\<open>Request_Ledger\<close> proves once, in the locale
  \<open>raft_client\<close>, that each handler keeps the ledgers, and \<^verbatim>\<open>Request_Props\<close> draws the consequences: any
  sequence of requests and late writes keeps them, placements admitted by the scheduler are charged exactly, and a permitted
  cancellation ends the run. Entries of concurrent requests are covered by the theorems on whole logs.

  \<^bold>\<open>Bounds and fuel.\<close> No definition uses fuel. Loops of the source without a counter are over option, where nothing
  stands for a loop that does not end: the search of the timeline, the three loops of the scheduler that move a start
  time, all shown to return; the climb to the ancestors of a switch, shown to return on a tree; and the breadth-first pass
  over the switches, shown not to return on a cycle below a root. All other recursions are structural or have a
  termination proof; the expansion of a host list is bounded by \<^verbatim>\<open>MAX_HOSTLIST_SIZE\<close> as in the source.

  \<^bold>\<open>Not modelled.\<close> Submission, registration and field updates as handlers (their entries are), the loop of the
  scheduler around a pass, and the priorities, which are floating-point; Raft storage and network; RPC, REST and
  metrics servers; accounting; credentials; the node daemon, the command line, the Kubernetes operator and the device
  discovery, which are input and output around the tables. Mail, hooks, notifications and the text of error messages are
  left out of the handlers. The check of a placement against the fabric is a parameter of \<open>reserve_placement\<close>.
\<close>

end
